theory Spec2Isabelle
  imports Complex_Main "HOL-Library.Word"
begin

unbundle bit_operations_syntax

section \<open>Bytes, strings, errors\<close>

text \<open>
  A \<^verbatim>\<open>Uint8Array\<close> (and a JNI \<^verbatim>\<open>jbyteArray\<close>) is a list of 8-bit words. JavaScript
  strings that the code builds from identifiers are lists of characters; their UTF-8
  encoding keeps one byte per character.
\<close>

type_synonym byte = "8 word"
type_synonym bytes = "byte list"

text \<open>
  Every \<^verbatim>\<open>throw\<close> and every rejected promise is a value of \<open>error\<close>. The constructors
  named after the error kinds stand for the \<^verbatim>\<open>Error\<close> objects the TypeScript builds:
  \<^item> \<open>IntegrityFail\<close>: \<^verbatim>\<open>HMAC mismatch on fragment ...\<close>
  \<^item> \<open>SubstitutionFail\<close>: \<^verbatim>\<open>AAD mismatch on fragment ... possible substitution attack\<close>
  \<^item> \<open>AuthFail\<close>: the bridge's rejection \<^verbatim>\<open>AES_AUTH_FAIL\<close> and CryptoEngine's
    \<^verbatim>\<open>GCM authentication tag mismatch\<close>
  \<^item> \<open>CanaryFail\<close>: \<^verbatim>\<open>Canary mismatch on fragment ...\<close>
  \<^item> \<open>UnwrapFail\<close>: \<^verbatim>\<open>Failed to unwrap chapter key\<close>
  \<^item> \<open>ProgramIncomplete\<close>: \<^verbatim>\<open>program terminated without DISPLAY_MUTATE completing\<close>
  \<^item> \<open>ProgramPreconditionViolated\<close>: \<^verbatim>\<open>CANARY_CHECK before REAL_DECRYPT\<close> and its siblings
  \<^item> \<open>BridgeReject code\<close>: any other \<^verbatim>\<open>promise.reject(code, ...)\<close> of the Kotlin bridge
  \<^item> \<open>JsError msg\<close>: an \<^verbatim>\<open>Error\<close> identified by its message.
\<close>

datatype error =
    IntegrityFail
  | SubstitutionFail
  | AuthFail
  | CanaryFail
  | UnwrapFail
  | ProgramIncomplete
  | ProgramPreconditionViolated
  | SaltMissing
  | UserIdMissing
  | BridgeReject string
  | RangeError
  | SyntaxError
  | JsError string

text \<open>Decimal rendering of a non-negative integer, as a template literal does.\<close>

definition digit_char :: "nat \<Rightarrow> char" where
  "digit_char d = char_of (48 + d)"

fun dec_str :: "nat \<Rightarrow> string" where
  "dec_str n = (if n < 10 then [digit_char n] else dec_str (n div 10) @ [digit_char (n mod 10)])"

declare dec_str.simps [simp del]

definition int_str :: "int \<Rightarrow> string" where
  "int_str i = (if i < 0 then CHR ''-'' # dec_str (nat (- i)) else dec_str (nat i))"

section \<open>Randomness\<close>

text \<open>
  A result of \<^verbatim>\<open>Math.random()\<close>: a number in the half-open interval from 0 to 1. The
  type holds nothing else, as ECMAScript promises. \<open>rand_below r n\<close> is
  \<^verbatim>\<open>Math.floor(r * n)\<close>.
\<close>

typedef unit_draw = "{r::rat. 0 \<le> r \<and> r < 1}"
  by (rule exI[of _ 0]) simp

setup_lifting type_definition_unit_draw

lift_definition draw_of :: "nat \<Rightarrow> nat \<Rightarrow> unit_draw"
  is "\<lambda>a b. if a < b then of_nat a / of_nat b else 0"
  by (auto simp: divide_less_eq)

definition rand_below :: "unit_draw \<Rightarrow> nat \<Rightarrow> nat" where
  "rand_below r n = nat \<lfloor>Rep_unit_draw r * of_nat n\<rfloor>"

lemma rand_below_draw_of:
  "rand_below (draw_of a b) n = (if a < b then a * n div b else 0)"
proof (cases "a < b")
  case True
  have "(of_nat a / of_nat b * of_nat n :: rat) = of_nat (a * n) / of_nat b"
    by simp
  then have "\<lfloor>(of_nat a / of_nat b * of_nat n :: rat)\<rfloor> = int (a * n div b)"
    by (simp only: floor_divide_of_nat_eq)
  with True show ?thesis
    by (simp add: rand_below_def draw_of.rep_eq)
next
  case False
  then show ?thesis
    by (simp add: rand_below_def draw_of.rep_eq)
qed

lemma rand_below_less: "0 < n \<Longrightarrow> rand_below r n < n"
proof -
  assume n: "0 < n"
  have r: "0 \<le> Rep_unit_draw r" "Rep_unit_draw r < 1"
    using Rep_unit_draw [of r] by auto
  from r(2) n have "Rep_unit_draw r * of_nat n < 1 * of_nat n"
    by (intro mult_strict_right_mono) auto
  then have "\<lfloor>Rep_unit_draw r * of_nat n\<rfloor> < int n"
    by (simp add: floor_less_iff)
  then show ?thesis
    using n by (simp add: rand_below_def nat_less_iff)
qed

lemma rand_below_zero [simp]: "rand_below r 0 = 0"
  by (simp add: rand_below_def)

section \<open>The native library and the bridge\<close>

text \<open>
  What the code takes from outside the repository: OpenSSL's HMAC-SHA256 and AES-256-GCM,
  the Base64 codecs of \<^verbatim>\<open>Buffer\<close> (lenient, total) and of \<^verbatim>\<open>java.util.Base64\<close> (strict: it
  throws on malformed text), the SHA-256 digest of expo-crypto, the display mutation of
  \<^verbatim>\<open>DisplayMutation.applyMutation\<close>, and the noise \<^verbatim>\<open>Math.random\<close> feeds to the wiper.
  \<open>GCM_encrypt key iv aad pt\<close> is the ciphertext and the tag; \<open>GCM_decrypt key iv aad ct tag\<close>
  is \<open>None\<close> when \<^verbatim>\<open>EVP_DecryptFinal_ex\<close> does not return 1.
\<close>

record env =
  HMAC_SHA256 :: "bytes \<Rightarrow> bytes \<Rightarrow> bytes"
  GCM_encrypt :: "bytes \<Rightarrow> bytes \<Rightarrow> bytes \<Rightarrow> bytes \<Rightarrow> bytes \<times> bytes"
  GCM_decrypt :: "bytes \<Rightarrow> bytes \<Rightarrow> bytes \<Rightarrow> bytes \<Rightarrow> bytes \<Rightarrow> bytes option"
  b64_encode :: "bytes \<Rightarrow> string"
  buffer_from_b64 :: "string \<Rightarrow> bytes"
  java_b64_decode :: "string \<Rightarrow> bytes option"
  sha256_hex :: "string \<Rightarrow> string"
  applyMutation :: "bytes \<Rightarrow> bytes \<Rightarrow> bytes"
  wipe_noise :: "nat \<Rightarrow> byte"

text \<open>The contracts of the libraries: digest length, AEAD correctness, codec round trip.\<close>

definition hmac_ok :: "env \<Rightarrow> bool" where
  "hmac_ok P = (\<forall>k d. length (HMAC_SHA256 P k d) = 32)"

definition gcm_ok :: "env \<Rightarrow> bool" where
  "gcm_ok P = (\<forall>key iv aad pt. length key = 32 \<and> length iv = 12 \<longrightarrow>
     length (snd (GCM_encrypt P key iv aad pt)) = 16 \<and>
     GCM_decrypt P key iv aad (fst (GCM_encrypt P key iv aad pt)) (snd (GCM_encrypt P key iv aad pt))
       = Some pt)"

definition b64_ok :: "env \<Rightarrow> bool" where
  "b64_ok P = (\<forall>bs. buffer_from_b64 P (b64_encode P bs) = bs \<and>
     java_b64_decode P (b64_encode P bs) = Some bs \<and>
     (b64_encode P bs = []) = (bs = []))"

text \<open>
  Effects a caller or a tracer can observe: calls across the bridge, wipes (the buffer's
  content before and after), the decoys of \<^verbatim>\<open>DecoyCrypto\<close> (\<^verbatim>\<open>runSync()\<close>, and
  \<^verbatim>\<open>run(1)\<close> fired without waiting) and the dummy spin.
\<close>

datatype native_call =
  Call_pbkdf2 | Call_hkdf | Call_aesGCMEncrypt | Call_aesGCMDecrypt | Call_hmacSHA256 | Call_randomBytes

datatype effect = Native native_call | Wipe bytes bytes | DecoySync | DecoyAsync | Spin

type_synonym 'a io = "(error + 'a) \<times> effect list"

definition io_return :: "'a \<Rightarrow> 'a io" where
  "io_return x = (Inr x, [])"

definition io_throw :: "error \<Rightarrow> 'a io" where
  "io_throw e = (Inl e, [])"

definition io_bind :: "'a io \<Rightarrow> ('a \<Rightarrow> 'b io) \<Rightarrow> 'b io" where
  "io_bind m f =
     (case m of
        (Inl e, t) \<Rightarrow> (Inl e, t)
      | (Inr x, t) \<Rightarrow> (case f x of (r, t') \<Rightarrow> (r, t @ t')))"

definition bridge :: "native_call \<Rightarrow> error + 'a \<Rightarrow> 'a io" where
  "bridge c r = (r, [Native c])"

lemma io_bind_return [simp]: "io_bind (io_return x) f = f x"
  by (simp add: io_bind_def io_return_def split: prod.splits)

lemma io_bind_throw [simp]: "io_bind (io_throw e) f = io_throw e"
  by (simp add: io_bind_def io_throw_def)

lemma io_bind_Inr [simp]: "io_bind (Inr x, t) f = (fst (f x), t @ snd (f x))"
  by (simp add: io_bind_def split: prod.splits)

lemma io_bind_Inl [simp]: "io_bind (Inl e, t) f = (Inl e, t)"
  by (simp add: io_bind_def)

subsection \<open>MemoryWiper\<close>

definition WIPE_PASSES :: nat where
  "WIPE_PASSES = 3"

definition fill :: "byte \<Rightarrow> bytes \<Rightarrow> bytes" where
  "fill v buf = replicate (length buf) v"

definition wipe_pass :: "(nat \<Rightarrow> byte) \<Rightarrow> nat \<Rightarrow> bytes \<Rightarrow> bytes" where
  "wipe_pass noise pass buf =
     (if pass mod 3 = 0 then fill 0x00 buf
      else if pass mod 3 = 1 then fill 0xFF buf
      else map noise [0..<length buf])"

definition wiped :: "(nat \<Rightarrow> byte) \<Rightarrow> bytes \<Rightarrow> bytes" where
  "wiped noise buf =
     (if length buf = 0 then buf
      else fill 0x00 (fold (wipe_pass noise) [0..<WIPE_PASSES] buf))"

text \<open>\<^verbatim>\<open>MemoryWiper.wipeUint8Array(buf)\<close> on a buffer that is not null.\<close>

definition wipeUint8Array :: "env \<Rightarrow> bytes \<Rightarrow> unit io" where
  "wipeUint8Array P buf = (Inr (), [Wipe buf (wiped (wipe_noise P) buf)])"

lemma length_wipe_pass [simp]: "length (wipe_pass noise pass buf) = length buf"
  by (simp add: wipe_pass_def fill_def)

lemma length_fold_wipe_pass [simp]: "length (fold (wipe_pass noise) ps buf) = length buf"
  by (induction ps arbitrary: buf) simp_all

lemma wiped_zero: "wiped noise buf = replicate (length buf) 0"
  by (simp add: wiped_def fill_def)

subsection \<open>crypto_core.c\<close>

text \<open>
  \<^verbatim>\<open>nativeRandomBytes\<close>. \<open>rand\<close> is what \<^verbatim>\<open>RAND_bytes\<close> does: \<open>None\<close> when it (or
  \<^verbatim>\<open>malloc\<close>) fails, otherwise the byte it writes at each position.
\<close>

definition nativeRandomBytes :: "(nat \<Rightarrow> byte) option \<Rightarrow> int \<Rightarrow> bytes option" where
  "nativeRandomBytes rand len =
     (if len \<le> 0 \<or> len > 4096 then None
      else case rand of
             None \<Rightarrow> None
           | Some f \<Rightarrow> Some (map f [0..<nat len]))"

text \<open>\<^verbatim>\<open>nativeHMACSHA256\<close>: the arrays the bridge passes are never null.\<close>

definition nativeHMACSHA256 :: "env \<Rightarrow> bytes \<Rightarrow> bytes \<Rightarrow> bytes option" where
  "nativeHMACSHA256 P key data = Some (HMAC_SHA256 P key data)"

text \<open>
  HKDF-Expand, the \<^verbatim>\<open>while (remaining > 0)\<close> loop: \<open>T\<close> is the previous block, \<open>ctr\<close> the
  \<^verbatim>\<open>uint8_t\<close> counter, the result the bytes copied into \<^verbatim>\<open>okm\<close>.
\<close>

function hkdf_expand :: "env \<Rightarrow> bytes \<Rightarrow> bytes \<Rightarrow> bytes \<Rightarrow> byte \<Rightarrow> nat \<Rightarrow> bytes" where
  "hkdf_expand P prk info T ctr remaining =
     (if remaining > 0 then
        take (if remaining < 32 then remaining else 32)
             (HMAC_SHA256 P prk ((if ctr > 1 then T else []) @ info @ [ctr]))
        @ hkdf_expand P prk info
            (HMAC_SHA256 P prk ((if ctr > 1 then T else []) @ info @ [ctr]))
            (ctr + 1)
            (remaining - (if remaining < 32 then remaining else 32))
      else [])"
  by pat_completeness auto
termination
  by (relation "measure (\<lambda>(P, prk, info, T, ctr, remaining). remaining)") auto

declare hkdf_expand.simps [simp del]

text \<open>
  \<^verbatim>\<open>nativeHKDF\<close>: extract (\<^verbatim>\<open>PRK = HMAC(salt, IKM)\<close>), then expand into \<^verbatim>\<open>okm\<close>. The
  arrays the bridge passes are never null.
\<close>

definition hkdf_okm :: "env \<Rightarrow> bytes \<Rightarrow> bytes \<Rightarrow> bytes \<Rightarrow> nat \<Rightarrow> bytes" where
  "hkdf_okm P ikm salt info out_len =
     (let prk = HMAC_SHA256 P salt ikm
      in hkdf_expand P prk info (replicate 32 0) 1 out_len)"

definition nativeHKDF :: "env \<Rightarrow> bytes \<Rightarrow> bytes \<Rightarrow> bytes \<Rightarrow> nat \<Rightarrow> bytes option" where
  "nativeHKDF P ikm salt info out_len = Some (hkdf_okm P ikm salt info out_len)"

text \<open>
  \<^verbatim>\<open>nativeAESGCMEncrypt\<close>: \<open>iv\<close> is the content of \<^verbatim>\<open>uint8_t iv[12]\<close> after
  \<^verbatim>\<open>RAND_bytes\<close>; a null or empty \<open>aad\<close> feeds nothing to the cipher.
\<close>

definition aad_bytes :: "bytes option \<Rightarrow> bytes" where
  "aad_bytes aad = (case aad of None \<Rightarrow> [] | Some a \<Rightarrow> a)"

definition nativeAESGCMEncrypt :: "env \<Rightarrow> bytes \<Rightarrow> bytes \<Rightarrow> bytes \<Rightarrow> bytes option \<Rightarrow> bytes option" where
  "nativeAESGCMEncrypt P iv key pt aad =
     (if length key \<noteq> 32 then None
      else case GCM_encrypt P key iv (aad_bytes aad) pt of
             (ct, tag) \<Rightarrow> Some (iv @ ct @ tag))"

definition nativeAESGCMDecrypt :: "env \<Rightarrow> bytes \<Rightarrow> bytes \<Rightarrow> bytes option \<Rightarrow> bytes option" where
  "nativeAESGCMDecrypt P key blob aad =
     (if length key \<noteq> 32 \<or> length blob < 28 then None
      else let iv = take 12 blob;
               ct_len = length blob - 12 - 16;
               ct = take ct_len (drop 12 blob);
               tag = drop (12 + ct_len) blob
           in GCM_decrypt P key iv (aad_bytes aad) ct tag)"

subsection \<open>NativeCryptoModule.kt\<close>

text \<open>
  \<^verbatim>\<open>Double.toInt()\<close> on a whole number: saturating at the bounds of \<^verbatim>\<open>Int\<close>.
\<close>

definition toInt :: "int \<Rightarrow> int" where
  "toInt n = (if n > 2147483647 then 2147483647 else if n < - 2147483648 then - 2147483648 else n)"

definition hex_digit :: "nat \<Rightarrow> char" where
  "hex_digit d = (if d < 10 then char_of (48 + d) else char_of (87 + d))"

definition byte_hex :: "byte \<Rightarrow> string" where
  "byte_hex b = [hex_digit (unat b div 16), hex_digit (unat b mod 16)]"

definition to_hex :: "bytes \<Rightarrow> string" where
  "to_hex bs = concat (map byte_hex bs)"

definition NativeCrypto_randomBytes :: "env \<Rightarrow> (nat \<Rightarrow> byte) option \<Rightarrow> int \<Rightarrow> string io" where
  "NativeCrypto_randomBytes P rand len =
     bridge Call_randomBytes
       (case nativeRandomBytes rand (toInt len) of
          Some result \<Rightarrow> Inr (b64_encode P result)
        | None \<Rightarrow> Inl (BridgeReject ''RAND_FAILED''))"

definition NativeCrypto_hkdf :: "env \<Rightarrow> string \<Rightarrow> string \<Rightarrow> string \<Rightarrow> nat \<Rightarrow> string io" where
  "NativeCrypto_hkdf P ikmB64 saltB64 infoLabel outLength =
     bridge Call_hkdf
       (case java_b64_decode P ikmB64 of
          None \<Rightarrow> Inl (BridgeReject ''HKDF_ERROR'')
        | Some ikm \<Rightarrow>
       (case java_b64_decode P saltB64 of
          None \<Rightarrow> Inl (BridgeReject ''HKDF_ERROR'')
        | Some salt \<Rightarrow>
       (case nativeHKDF P ikm salt (map of_char infoLabel) outLength of
          Some result \<Rightarrow> Inr (b64_encode P result)
        | None \<Rightarrow> Inl (BridgeReject ''HKDF_FAILED''))))"

definition NativeCrypto_aesGCMEncrypt ::
  "env \<Rightarrow> bytes \<Rightarrow> string \<Rightarrow> string \<Rightarrow> string option \<Rightarrow> string io" where
  "NativeCrypto_aesGCMEncrypt P iv keyB64 plaintextB64 aadB64 =
     bridge Call_aesGCMEncrypt
       (case java_b64_decode P keyB64 of
          None \<Rightarrow> Inl (BridgeReject ''AES_ENC_ERROR'')
        | Some key \<Rightarrow>
       (case java_b64_decode P plaintextB64 of
          None \<Rightarrow> Inl (BridgeReject ''AES_ENC_ERROR'')
        | Some pt \<Rightarrow>
       (case map_option (java_b64_decode P) aadB64 of
          Some None \<Rightarrow> Inl (BridgeReject ''AES_ENC_ERROR'')
        | aad \<Rightarrow>
       (case nativeAESGCMEncrypt P iv key pt (Option.bind aad id) of
          Some result \<Rightarrow> Inr (b64_encode P result)
        | None \<Rightarrow> Inl (BridgeReject ''AES_ENC_FAILED'')))))"

definition NativeCrypto_aesGCMDecrypt ::
  "env \<Rightarrow> string \<Rightarrow> string \<Rightarrow> string option \<Rightarrow> string io" where
  "NativeCrypto_aesGCMDecrypt P keyB64 blobB64 aadB64 =
     bridge Call_aesGCMDecrypt
       (case java_b64_decode P keyB64 of
          None \<Rightarrow> Inl (BridgeReject ''AES_DEC_ERROR'')
        | Some key \<Rightarrow>
       (case java_b64_decode P blobB64 of
          None \<Rightarrow> Inl (BridgeReject ''AES_DEC_ERROR'')
        | Some blob \<Rightarrow>
       (case map_option (java_b64_decode P) aadB64 of
          Some None \<Rightarrow> Inl (BridgeReject ''AES_DEC_ERROR'')
        | aad \<Rightarrow>
       (case nativeAESGCMDecrypt P key blob (Option.bind aad id) of
          Some result \<Rightarrow> Inr (b64_encode P result)
        | None \<Rightarrow> Inl AuthFail))))"

definition NativeCrypto_hmacSHA256 :: "env \<Rightarrow> string \<Rightarrow> string \<Rightarrow> string io" where
  "NativeCrypto_hmacSHA256 P keyB64 dataB64 =
     bridge Call_hmacSHA256
       (case java_b64_decode P keyB64 of
          None \<Rightarrow> Inl (BridgeReject ''HMAC_ERROR'')
        | Some key \<Rightarrow>
       (case java_b64_decode P dataB64 of
          None \<Rightarrow> Inl (BridgeReject ''HMAC_ERROR'')
        | Some data \<Rightarrow>
       (case nativeHMACSHA256 P key data of
          Some result \<Rightarrow> Inr (to_hex result)
        | None \<Rightarrow> Inl (BridgeReject ''HMAC_FAILED''))))"

subsection \<open>CryptoEngine\<close>

record EncryptedBlob =
  blob_data :: string
  blob_aadB64 :: "string option"

definition CryptoEngine_encrypt :: "env \<Rightarrow> bytes \<Rightarrow> bytes \<Rightarrow> bytes \<Rightarrow> bytes option \<Rightarrow> EncryptedBlob io" where
  "CryptoEngine_encrypt P iv key plaintext aad =
     (let keyB64 = b64_encode P key;
          ptB64 = b64_encode P plaintext;
          aadB64 = map_option (b64_encode P) aad
      in io_bind (NativeCrypto_aesGCMEncrypt P iv keyB64 ptB64 aadB64)
           (\<lambda>data. io_return \<lparr>blob_data = data, blob_aadB64 = aadB64\<rparr>))"

definition CryptoEngine_decrypt :: "env \<Rightarrow> bytes \<Rightarrow> EncryptedBlob \<Rightarrow> bytes io" where
  "CryptoEngine_decrypt P key blob =
     (let keyB64 = b64_encode P key;
          aadB64 = blob_aadB64 blob
      in io_bind (NativeCrypto_aesGCMDecrypt P keyB64 (blob_data blob) aadB64)
           (\<lambda>ptB64. if ptB64 = [] then io_throw AuthFail
                     else io_return (buffer_from_b64 P ptB64)))"

definition CryptoEngine_hmacSHA256 :: "env \<Rightarrow> bytes \<Rightarrow> bytes \<Rightarrow> string io" where
  "CryptoEngine_hmacSHA256 P key data =
     NativeCrypto_hmacSHA256 P (b64_encode P key) (b64_encode P data)"

text \<open>
  The loop of \<^verbatim>\<open>verifyHMAC\<close>: \<^verbatim>\<open>diff |= computed.charCodeAt(i) ^ expectedHex.charCodeAt(i)\<close>
  over two strings of one length.
\<close>

fun hex_diff :: "string \<Rightarrow> string \<Rightarrow> nat \<Rightarrow> nat" where
  "hex_diff (a # as) (b # bs) diff = hex_diff as bs (diff OR (of_char a XOR of_char b))"
| "hex_diff _ _ diff = diff"

definition CryptoEngine_verifyHMAC :: "env \<Rightarrow> bytes \<Rightarrow> bytes \<Rightarrow> string \<Rightarrow> bool io" where
  "CryptoEngine_verifyHMAC P key data expectedHex =
     io_bind (CryptoEngine_hmacSHA256 P key data)
       (\<lambda>computed. if length computed \<noteq> length expectedHex then io_return False
                    else io_return (hex_diff computed expectedHex 0 = 0))"

definition CryptoEngine_randomBytes :: "env \<Rightarrow> (nat \<Rightarrow> byte) option \<Rightarrow> int \<Rightarrow> bytes io" where
  "CryptoEngine_randomBytes P rand len =
     io_bind (NativeCrypto_randomBytes P rand len) (\<lambda>b64. io_return (buffer_from_b64 P b64))"

subsection \<open>A small instance of the library contracts\<close>

text \<open>
  For evaluating the model on concrete inputs: a checksum for the MAC, a XOR mask with a
  checksum tag for the AEAD, one character per byte for Base64.
\<close>

definition toy_hmac :: "bytes \<Rightarrow> bytes \<Rightarrow> bytes" where
  "toy_hmac k d = replicate 31 0 @ [sum_list (k @ d)]"

definition toy_tag :: "bytes \<Rightarrow> bytes \<Rightarrow> bytes \<Rightarrow> bytes \<Rightarrow> bytes" where
  "toy_tag key iv aad pt = replicate 15 0 @ [sum_list (key @ iv @ aad @ pt) + 1]"

definition toy_gcm_encrypt :: "bytes \<Rightarrow> bytes \<Rightarrow> bytes \<Rightarrow> bytes \<Rightarrow> bytes \<times> bytes" where
  "toy_gcm_encrypt key iv aad pt = (map (\<lambda>b. b XOR 0x2A) pt, toy_tag key iv aad pt)"

definition toy_gcm_decrypt :: "bytes \<Rightarrow> bytes \<Rightarrow> bytes \<Rightarrow> bytes \<Rightarrow> bytes \<Rightarrow> bytes option" where
  "toy_gcm_decrypt key iv aad ct tag =
     (if tag = toy_tag key iv aad (map (\<lambda>b. b XOR 0x2A) ct)
      then Some (map (\<lambda>b. b XOR 0x2A) ct) else None)"

definition toy_b64_encode :: "bytes \<Rightarrow> string" where
  "toy_b64_encode bs = map (\<lambda>b. char_of (unat b)) bs"

definition toy_b64_decode :: "string \<Rightarrow> bytes" where
  "toy_b64_decode s = map (\<lambda>c. of_nat (of_char c)) s"

definition toy_env :: env where
  "toy_env = \<lparr>HMAC_SHA256 = toy_hmac, GCM_encrypt = toy_gcm_encrypt,
     GCM_decrypt = toy_gcm_decrypt, b64_encode = toy_b64_encode,
     buffer_from_b64 = toy_b64_decode, java_b64_decode = (\<lambda>s. Some (toy_b64_decode s)),
     sha256_hex = (\<lambda>s. s), applyMutation = (\<lambda>d k. map (\<lambda>b. b XOR 0xFF) d),
     wipe_noise = (\<lambda>i. 0xA5)\<rparr>"

section \<open>CanaryService\<close>

definition CANARY_LENGTH :: nat where
  "CANARY_LENGTH = 16"

definition CANARY_TRAILING_PAD :: nat where
  "CANARY_TRAILING_PAD = 16"

definition CANARY_TOTAL_OVERHEAD :: nat where
  "CANARY_TOTAL_OVERHEAD = CANARY_LENGTH + CANARY_TRAILING_PAD"

text \<open>\<^verbatim>\<open>Buffer.from(s, 'utf8')\<close> on a string of one-byte characters.\<close>

definition utf8 :: "string \<Rightarrow> bytes" where
  "utf8 s = map of_char s"

text \<open>
  Reading a typed array: past its end the read is \<^verbatim>\<open>undefined\<close>, which \<^verbatim>\<open>^\<close> and
  \<^verbatim>\<open>|\<close> take as 0.
\<close>

definition byte_at :: "bytes \<Rightarrow> nat \<Rightarrow> byte" where
  "byte_at xs i = (if i < length xs then xs ! i else 0)"

text \<open>\<^verbatim>\<open>target.set(source, offset)\<close>: a RangeError when the source does not fit.\<close>

definition u8_set :: "bytes \<Rightarrow> bytes \<Rightarrow> nat \<Rightarrow> error + bytes" where
  "u8_set target source offset =
     (if offset + length source > length target then Inl RangeError
      else Inr (take offset target @ source @ drop (offset + length source) target))"

definition io_lift :: "error + 'a \<Rightarrow> 'a io" where
  "io_lift r = (r, [])"

definition CanaryService_derive :: "env \<Rightarrow> bytes \<Rightarrow> nat \<Rightarrow> bytes io" where
  "CanaryService_derive P chapterRootKey fragmentIndex =
     (let ikmB64 = b64_encode P chapterRootKey;
          saltB64 = b64_encode P (utf8 (''canary:'' @ dec_str fragmentIndex))
      in io_bind (NativeCrypto_hkdf P ikmB64 saltB64 ''canary-derive'' CANARY_LENGTH)
           (\<lambda>b64. io_return (buffer_from_b64 P b64)))"

definition embed_pad_step :: "nat \<Rightarrow> bytes \<Rightarrow> nat \<Rightarrow> bytes \<Rightarrow> bytes" where
  "embed_pad_step dlen canary i out =
     out[dlen + CANARY_LENGTH + i := byte_at canary (i mod CANARY_LENGTH) XOR of_nat ((i + 1) * 0x5A)]"

definition CanaryService_embed :: "bytes \<Rightarrow> bytes \<Rightarrow> error + bytes" where
  "CanaryService_embed data canary =
     (case u8_set (replicate (length data + CANARY_TOTAL_OVERHEAD) 0) data 0 of
        Inl e \<Rightarrow> Inl e
      | Inr out1 \<Rightarrow>
     (case u8_set out1 canary (length data) of
        Inl e \<Rightarrow> Inl e
      | Inr out2 \<Rightarrow>
          Inr (fold (embed_pad_step (length data) canary) [0..<CANARY_TRAILING_PAD] out2)))"

definition canary_diff_step :: "bytes \<Rightarrow> bytes \<Rightarrow> nat \<Rightarrow> nat \<Rightarrow> nat \<Rightarrow> nat" where
  "canary_diff_step dataWithCanary expectedCanary canaryStart i diff =
     diff OR (unat (byte_at dataWithCanary (canaryStart + i)) XOR unat (byte_at expectedCanary i))"

definition CanaryService_verify :: "bytes \<Rightarrow> bytes \<Rightarrow> bool" where
  "CanaryService_verify dataWithCanary expectedCanary =
     (let len = length dataWithCanary
      in if len < CANARY_TOTAL_OVERHEAD then False
         else let canaryStart = len - CANARY_TOTAL_OVERHEAD
              in fold (canary_diff_step dataWithCanary expectedCanary canaryStart)
                   [0..<CANARY_LENGTH] 0 = 0)"

definition CanaryService_strip :: "bytes \<Rightarrow> error + bytes" where
  "CanaryService_strip dataWithCanary =
     (if length dataWithCanary < CANARY_TOTAL_OVERHEAD then Inl RangeError
      else let origLen = length dataWithCanary - CANARY_TOTAL_OVERHEAD
           in Inr (take origLen dataWithCanary))"

text \<open>The 16 padding bytes \<^verbatim>\<open>embed\<close> appends after a 16-byte canary.\<close>

definition canary_pad :: "bytes \<Rightarrow> bytes" where
  "canary_pad canary = map (\<lambda>i. byte_at canary (i mod CANARY_LENGTH) XOR of_nat ((i + 1) * 0x5A)) [0..<CANARY_TRAILING_PAD]"

section \<open>FragmentEngine\<close>

record RawFragment =
  frag_index :: nat
  frag_data :: bytes
  frag_size :: nat

record EncryptedFragment =
  ef_index :: nat
  encryptedData :: string
  aadB64 :: string
  hmac :: string
  originalSize :: nat

text \<open>The associated data of a fragment: the UTF-8 bytes of \<^verbatim>\<open>`${imageId}:${index}`\<close>.\<close>

definition fragment_aad :: "string \<Rightarrow> nat \<Rightarrow> bytes" where
  "fragment_aad imageId index = utf8 (imageId @ '':'' @ dec_str index)"

definition encryptFragment ::
  "env \<Rightarrow> bytes \<Rightarrow> RawFragment \<Rightarrow> bytes \<Rightarrow> bytes \<Rightarrow> string \<Rightarrow> EncryptedFragment io" where
  "encryptFragment P iv fragment chapterRootKey hmacKey imageId =
     io_bind (CanaryService_derive P chapterRootKey (frag_index fragment)) (\<lambda>canary.
     io_bind (io_lift (CanaryService_embed (frag_data fragment) canary)) (\<lambda>dataWithCanary.
     io_bind (wipeUint8Array P canary) (\<lambda>_.
     let aadRaw = fragment_aad imageId (frag_index fragment);
         aad_b64 = b64_encode P aadRaw
     in io_bind (CryptoEngine_encrypt P iv chapterRootKey dataWithCanary (Some aadRaw)) (\<lambda>blob.
        io_bind (wipeUint8Array P dataWithCanary) (\<lambda>_.
        let encBytes = buffer_from_b64 P (blob_data blob)
        in io_bind (CryptoEngine_hmacSHA256 P hmacKey encBytes) (\<lambda>hmac_hex.
           io_return \<lparr>ef_index = frag_index fragment, encryptedData = blob_data blob,
                       aadB64 = aad_b64, hmac = hmac_hex,
                       originalSize = frag_size fragment\<rparr>))))))"

definition decryptFragment ::
  "env \<Rightarrow> EncryptedFragment \<Rightarrow> bytes \<Rightarrow> bytes \<Rightarrow> string \<Rightarrow> bytes io" where
  "decryptFragment P ef chapterRootKey hmacKey imageId =
     (let encBytes = buffer_from_b64 P (encryptedData ef)
      in io_bind (CryptoEngine_verifyHMAC P hmacKey encBytes (hmac ef)) (\<lambda>hmacOk.
         if \<not> hmacOk then io_throw IntegrityFail
         else let expectedAad = b64_encode P (fragment_aad imageId (ef_index ef))
              in if aadB64 ef \<noteq> expectedAad then io_throw SubstitutionFail
                 else
         io_bind (CryptoEngine_decrypt P chapterRootKey
                    \<lparr>blob_data = encryptedData ef, blob_aadB64 = Some (aadB64 ef)\<rparr>) (\<lambda>decrypted.
         io_bind (CanaryService_derive P chapterRootKey (ef_index ef)) (\<lambda>canary.
         let canaryOk = CanaryService_verify decrypted canary
         in io_bind (wipeUint8Array P canary) (\<lambda>_.
            if \<not> canaryOk
            then io_bind (wipeUint8Array P decrypted) (\<lambda>_. io_throw CanaryFail)
            else io_bind (io_lift (CanaryService_strip decrypted)) (\<lambda>result.
                 io_bind (wipeUint8Array P decrypted) (\<lambda>_. io_return result)))))))"

text \<open>The canary of fragment \<open>i\<close> under a chapter root key.\<close>

definition canary_of :: "env \<Rightarrow> bytes \<Rightarrow> nat \<Rightarrow> bytes" where
  "canary_of P chapterRootKey i =
     hkdf_okm P chapterRootKey (utf8 (''canary:'' @ dec_str i)) (map of_char ''canary-derive'') 16"

text \<open>The checks of \<^verbatim>\<open>decryptFragment\<close>, as the code computes them.\<close>

definition hmac_matches :: "env \<Rightarrow> bytes \<Rightarrow> EncryptedFragment \<Rightarrow> bool" where
  "hmac_matches P hmacKey ef =
     (to_hex (HMAC_SHA256 P hmacKey (buffer_from_b64 P (encryptedData ef))) = hmac ef)"

definition aad_matches :: "env \<Rightarrow> EncryptedFragment \<Rightarrow> string \<Rightarrow> bool" where
  "aad_matches P ef imageId = (aadB64 ef = b64_encode P (fragment_aad imageId (ef_index ef)))"

text \<open>
  What the native AES-GCM decryption yields for a record whose AAD matches: \<open>None\<close> when
  the blob is shorter than 28 bytes, the key is not 32 bytes long or the tag does not
  verify.
\<close>

definition gcm_plaintext :: "env \<Rightarrow> bytes \<Rightarrow> bytes \<Rightarrow> string \<Rightarrow> nat \<Rightarrow> bytes option" where
  "gcm_plaintext P chapterRootKey blob imageId index =
     nativeAESGCMDecrypt P chapterRootKey blob (Some (fragment_aad imageId index))"

definition dec_val :: "string \<Rightarrow> nat" where
  "dec_val s = foldl (\<lambda>a c. 10 * a + (of_char c - 48)) 0 s"

section \<open>Concrete data\<close>

definition key0 :: bytes where
  "key0 = replicate 32 1"

definition hk0 :: bytes where
  "hk0 = [2, 3]"

definition iv0 :: bytes where
  "iv0 = replicate 12 9"

text \<open>
  A record a holder of the keys can build: the AES-GCM encryption of the empty plaintext
  for fragment 0 of image \<^verbatim>\<open>ch42:0\<close>, with its HMAC.
\<close>

definition blob_empty :: bytes where
  "blob_empty = iv0 @ [] @ toy_tag key0 iv0 (fragment_aad ''ch42:0'' 0) []"

definition ef_empty :: EncryptedFragment where
  "ef_empty = \<lparr>ef_index = 0, encryptedData = toy_b64_encode blob_empty,
     aadB64 = toy_b64_encode (fragment_aad ''ch42:0'' 0),
     hmac = to_hex (toy_hmac hk0 blob_empty), originalSize = 0\<rparr>"

text \<open>
  A record with a valid tag and no canary inside: the encryption of 32 bytes of value 1.
\<close>

definition pt_nocanary :: bytes where
  "pt_nocanary = replicate 32 1"

definition blob_nocanary :: bytes where
  "blob_nocanary = iv0 @ fst (toy_gcm_encrypt key0 iv0 (fragment_aad ''ch42:0'' 0) pt_nocanary)
                       @ snd (toy_gcm_encrypt key0 iv0 (fragment_aad ''ch42:0'' 0) pt_nocanary)"

definition ef_nocanary :: EncryptedFragment where
  "ef_nocanary = \<lparr>ef_index = 0, encryptedData = toy_b64_encode blob_nocanary,
     aadB64 = toy_b64_encode (fragment_aad ''ch42:0'' 0),
     hmac = to_hex (toy_hmac hk0 blob_nocanary), originalSize = 0\<rparr>"

section \<open>Session services: EphemeralKeyService, RuntimeEntropy, RootKeyService, SecurityOrchestrator\<close>

text \<open>
  The static fields of the services and the credential store (\<^verbatim>\<open>expo-secure-store\<close>), in
  one record.
\<close>

record app_state =
  violationInProgress :: bool
  secureStore :: "string \<rightharpoonup> string"
  eks_memorySalt :: "bytes option"
  re_bootTime :: int
  re_frameCounter :: int
  re_scrollVelocity :: rat
  re_memorySalt :: "bytes option"

definition SECURE_STORE_DEVICE_SALT :: string where
  "SECURE_STORE_DEVICE_SALT = ''ls_dsalt_v1''"

definition SECURE_STORE_USER_ID :: string where
  "SECURE_STORE_USER_ID = ''ls_uid_v1''"

definition SECURE_STORE_ROTATION_TS :: string where
  "SECURE_STORE_ROTATION_TS = ''ls_rts_v1''"

record RuntimeEntropyBundle =
  bootTime :: int
  frameCounter :: int
  scrollVelocity :: rat
  chunkIndex :: int
  memorySalt :: bytes

definition SALT_LEN :: nat where
  "SALT_LEN = 16"

definition KEY_LEN :: nat where
  "KEY_LEN = 32"

text \<open>
  \<^verbatim>\<open>EphemeralKeyService.getOrCreateMemorySalt()\<close>: the one place that draws the session
  salt. It returns a copy.
\<close>

definition getOrCreateMemorySalt ::
  "env \<Rightarrow> (nat \<Rightarrow> byte) option \<Rightarrow> app_state \<Rightarrow> bytes io \<times> app_state" where
  "getOrCreateMemorySalt P rand st =
     (case eks_memorySalt st of
        Some salt \<Rightarrow> (io_return salt, st)
      | None \<Rightarrow>
          (case NativeCrypto_randomBytes P rand (int SALT_LEN) of
             (Inl e, t) \<Rightarrow> ((Inl e, t), st)
           | (Inr b64, t) \<Rightarrow>
               ((Inr (buffer_from_b64 P b64), t),
                st\<lparr>eks_memorySalt := Some (buffer_from_b64 P b64)\<rparr>)))"


text \<open>
  \<^verbatim>\<open>EphemeralKeyService.buildBundle\<close>: synchronous; it reads the salt field and nothing
  else, and calls nothing.
\<close>

definition buildBundle ::
  "app_state \<Rightarrow> int \<Rightarrow> rat \<Rightarrow> int \<Rightarrow> int \<Rightarrow> RuntimeEntropyBundle io \<times> app_state" where
  "buildBundle st frameCounter' scrollVelocity' chunkIndex' bootTime' =
     (let salt = (case eks_memorySalt st of
                    Some s \<Rightarrow> s
                  | None \<Rightarrow> replicate SALT_LEN 0)
      in (io_return \<lparr>bootTime = bootTime', frameCounter = frameCounter',
                      scrollVelocity = scrollVelocity', chunkIndex = chunkIndex',
                      memorySalt = salt\<rparr>, st))"

text \<open>
  \<^verbatim>\<open>buf.writeBigInt64LE(BigInt(v), off)\<close> for a whole number \<open>v\<close>: eight bytes, least
  significant first; a RangeError outside the signed 64-bit range.
\<close>

definition i64le :: "int \<Rightarrow> error + bytes" where
  "i64le v =
     (if v < - (2 ^ 63) \<or> v \<ge> 2 ^ 63 then Inl RangeError
      else Inr (map (\<lambda>k. of_int (v div 256 ^ k)) [0..<8]))"

text \<open>\<^verbatim>\<open>Math.round\<close>: to the nearest whole number, halves upwards.\<close>

definition js_round :: "rat \<Rightarrow> int" where
  "js_round x = \<lfloor>x + 1 / 2\<rfloor>"

definition serialize_entropy :: "RuntimeEntropyBundle \<Rightarrow> error + bytes" where
  "serialize_entropy entropy =
     (case i64le (bootTime entropy) of Inl e \<Rightarrow> Inl e | Inr b0 \<Rightarrow>
     (case i64le (frameCounter entropy) of Inl e \<Rightarrow> Inl e | Inr b1 \<Rightarrow>
     (case i64le (js_round (scrollVelocity entropy * 1000)) of Inl e \<Rightarrow> Inl e | Inr b2 \<Rightarrow>
     (case i64le (chunkIndex entropy) of Inl e \<Rightarrow> Inl e | Inr b3 \<Rightarrow>
        Inr (b0 @ b1 @ b2 @ b3 @ memorySalt entropy)))))"

definition deriveEphemeralKey :: "env \<Rightarrow> bytes \<Rightarrow> RuntimeEntropyBundle \<Rightarrow> bytes io" where
  "deriveEphemeralKey P chapterRootKey entropy =
     io_bind (io_lift (serialize_entropy entropy)) (\<lambda>buf.
     let ikmB64 = b64_encode P chapterRootKey;
         saltB64 = b64_encode P buf
     in io_bind (Inr (), [Wipe buf (fill 0 buf)]) (\<lambda>_.
        io_bind (NativeCrypto_hkdf P ikmB64 saltB64 ''runtime-ephemeral'' KEY_LEN) (\<lambda>b64.
        io_return (buffer_from_b64 P b64))))"







definition app0 :: app_state where
  "app0 = \<lparr>violationInProgress = False,
     secureStore = [SECURE_STORE_DEVICE_SALT \<mapsto> ''c2FsdA=='', SECURE_STORE_USER_ID \<mapsto> ''user-1'',
                    SECURE_STORE_ROTATION_TS \<mapsto> ''1700000000000''],
     eks_memorySalt = Some (replicate 16 7), re_bootTime = 1700000000000, re_frameCounter = 3,
     re_scrollVelocity = 1 / 2, re_memorySalt = Some (replicate 16 8)\<rparr>"

section \<open>FragmentEngine.split\<close>

definition FRAGMENT_MIN_SIZE :: nat where
  "FRAGMENT_MIN_SIZE = 51200"

definition FRAGMENT_MAX_SIZE :: nat where
  "FRAGMENT_MAX_SIZE = 204800"

text \<open>
  One turn of the \<^verbatim>\<open>while\<close> loop. \<^verbatim>\<open>Math.random()\<close> is called only when
  \<^verbatim>\<open>maxSz > minSz\<close>; \<open>r\<close> is its result then.
\<close>

definition draws_size :: "nat \<Rightarrow> bool" where
  "draws_size remaining = (min FRAGMENT_MAX_SIZE remaining > min FRAGMENT_MIN_SIZE remaining)"

definition fragment_size :: "unit_draw \<Rightarrow> nat \<Rightarrow> nat" where
  "fragment_size r remaining =
     (let minSz = min FRAGMENT_MIN_SIZE remaining;
          maxSz = min FRAGMENT_MAX_SIZE remaining
      in minSz + (if maxSz > minSz then rand_below r (maxSz - minSz) else 0))"

lemma fragment_size_pos: "0 < remaining \<Longrightarrow> 0 < fragment_size r remaining"
  by (simp add: fragment_size_def FRAGMENT_MIN_SIZE_def Let_def)

text \<open>
  The loop of \<^verbatim>\<open>split\<close>: \<open>rnd\<close> is the sequence of results of \<^verbatim>\<open>Math.random()\<close>, \<open>k\<close>
  the number of them used so far. A fragment's \<open>data\<close> is the view
  \<^verbatim>\<open>new Uint8Array(raw.buffer, raw.byteOffset + offset, size)\<close>; the size never exceeds
  what remains (\<open>fragment_size_le\<close> below), so the constructor does not throw.
\<close>

function split_loop :: "(nat \<Rightarrow> unit_draw) \<Rightarrow> bytes \<Rightarrow> nat \<Rightarrow> nat \<Rightarrow> nat \<Rightarrow> RawFragment list" where
  "split_loop rnd raw offset index k =
     (if offset < length raw then
        \<lparr>frag_index = index,
         frag_data = take (fragment_size (rnd k) (length raw - offset)) (drop offset raw),
         frag_size = fragment_size (rnd k) (length raw - offset)\<rparr>
        # split_loop rnd raw (offset + fragment_size (rnd k) (length raw - offset)) (index + 1)
            (if draws_size (length raw - offset) then k + 1 else k)
      else [])"
  by pat_completeness auto
termination
proof (relation "measure (\<lambda>(rnd, raw, offset, index, k). length raw - offset)")
  show "wf (measure (\<lambda>(rnd, raw, offset, index, k). length raw - offset))"
    by simp
next
  fix rnd :: "nat \<Rightarrow> unit_draw" and raw :: bytes and offset index k :: nat
  assume "offset < length raw"
  then show "((rnd, raw, offset + fragment_size (rnd k) (length raw - offset), index + 1,
               if draws_size (length raw - offset) then k + 1 else k),
              (rnd, raw, offset, index, k))
             \<in> measure (\<lambda>(rnd, raw, offset, index, k). length raw - offset)"
    using fragment_size_pos [of "length raw - offset" "rnd k"] by simp
qed

declare split_loop.simps [simp del]

definition split :: "(nat \<Rightarrow> unit_draw) \<Rightarrow> bytes \<Rightarrow> RawFragment list" where
  "split rnd raw = split_loop rnd raw 0 0 0"

text \<open>A sequence of random results for evaluation: always one half.\<close>

definition half_draws :: "nat \<Rightarrow> unit_draw" where
  "half_draws n = draw_of 1 2"

section \<open>VirtualDecryptor\<close>

datatype ProgramStep =
    HMAC_VERIFY
  | REAL_DECRYPT
  | CANARY_CHECK
  | EPHEMERAL_DERIVE
  | DISPLAY_MUTATE
  | DECOY_INJECT
  | DUMMY_SPIN

record VirtualProgram =
  orderedSteps :: "ProgramStep list"
  fragmentIndex :: nat
  entropyBundle :: RuntimeEntropyBundle

record ChapterKeyBundle =
  chapterRootKey :: bytes
  hmacKey :: bytes
  metadataKey :: bytes
  fragmentMapKey :: bytes

definition real_steps :: "ProgramStep list" where
  "real_steps = [HMAC_VERIFY, REAL_DECRYPT, CANARY_CHECK, EPHEMERAL_DERIVE, DISPLAY_MUTATE]"

text \<open>\<^verbatim>\<open>steps.splice(pos, 0, x)\<close>: a position past the end appends.\<close>

definition splice_insert :: "nat \<Rightarrow> 'a \<Rightarrow> 'a list \<Rightarrow> 'a list" where
  "splice_insert pos x steps = take pos steps @ [x] @ drop pos steps"

text \<open>
  The two \<^verbatim>\<open>for\<close> loops of \<^verbatim>\<open>buildProgram\<close>: \<open>count\<close> insertions of \<open>x\<close>, each at
  \<^verbatim>\<open>Math.floor(Math.random() * (steps.length + 1))\<close>; \<open>k\<close> counts the random results
  used.
\<close>

primrec inject :: "ProgramStep \<Rightarrow> nat \<Rightarrow> (nat \<Rightarrow> unit_draw) \<Rightarrow> nat \<Rightarrow> ProgramStep list \<Rightarrow> ProgramStep list" where
  "inject x 0 rnd k steps = steps"
| "inject x (Suc count) rnd k steps =
     inject x count rnd (k + 1) (splice_insert (rand_below (rnd k) (length steps + 1)) x steps)"

definition buildProgram :: "(nat \<Rightarrow> unit_draw) \<Rightarrow> nat \<Rightarrow> RuntimeEntropyBundle \<Rightarrow> VirtualProgram" where
  "buildProgram rnd fragmentIndex' entropy =
     (let steps = real_steps;
          decoyCount = 2 + rand_below (rnd 0) 3;
          steps1 = inject DECOY_INJECT decoyCount rnd 1 steps;
          dummyCount = 1 + rand_below (rnd (1 + decoyCount)) 3;
          steps2 = inject DUMMY_SPIN dummyCount rnd (2 + decoyCount) steps1
      in \<lparr>orderedSteps = steps2, fragmentIndex = fragmentIndex', entropyBundle = entropy\<rparr>)"

text \<open>The three local variables of \<^verbatim>\<open>execute\<close>.\<close>

record exec_state =
  rawDecrypted :: "bytes option"
  ephemeralKey :: "bytes option"
  mutatedResult :: "bytes option"

definition io_effect :: "effect \<Rightarrow> unit io" where
  "io_effect e = (Inr (), [e])"

text \<open>
  One turn of the \<^verbatim>\<open>switch\<close>. \<^verbatim>\<open>DisplayMutation.applyMutation\<close> is taken to return a
  buffer of its own, which the two wipes that follow do not touch.
\<close>

fun exec_step ::
  "env \<Rightarrow> VirtualProgram \<Rightarrow> EncryptedFragment \<Rightarrow> ChapterKeyBundle \<Rightarrow> string \<Rightarrow>
   ProgramStep \<Rightarrow> exec_state \<Rightarrow> exec_state io" where
  "exec_step P program ef kb imageId HMAC_VERIFY st = io_return st"
| "exec_step P program ef kb imageId REAL_DECRYPT st =
     io_bind (decryptFragment P ef (chapterRootKey kb) (hmacKey kb) imageId)
       (\<lambda>r. io_return (st\<lparr>rawDecrypted := Some r\<rparr>))"
| "exec_step P program ef kb imageId CANARY_CHECK st =
     (if rawDecrypted st = None then io_throw ProgramPreconditionViolated else io_return st)"
| "exec_step P program ef kb imageId EPHEMERAL_DERIVE st =
     (if rawDecrypted st = None then io_throw ProgramPreconditionViolated
      else io_bind (deriveEphemeralKey P (chapterRootKey kb) (entropyBundle program))
             (\<lambda>ek. io_return (st\<lparr>ephemeralKey := Some ek\<rparr>)))"
| "exec_step P program ef kb imageId DISPLAY_MUTATE st =
     (case (rawDecrypted st, ephemeralKey st) of
        (Some raw, Some ek) \<Rightarrow>
          io_bind (wipeUint8Array P raw) (\<lambda>_.
          io_bind (wipeUint8Array P ek) (\<lambda>_.
          io_return (st\<lparr>mutatedResult := Some (applyMutation P raw ek),
                        rawDecrypted := None, ephemeralKey := None\<rparr>)))
      | _ \<Rightarrow> io_throw ProgramPreconditionViolated)"
| "exec_step P program ef kb imageId DECOY_INJECT st =
     io_bind (io_effect DecoyAsync) (\<lambda>_. io_return st)"
| "exec_step P program ef kb imageId DUMMY_SPIN st =
     io_bind (io_effect Spin) (\<lambda>_. io_return st)"

text \<open>The \<^verbatim>\<open>for (const step of program.orderedSteps)\<close> loop.\<close>

fun run_steps ::
  "env \<Rightarrow> VirtualProgram \<Rightarrow> EncryptedFragment \<Rightarrow> ChapterKeyBundle \<Rightarrow> string \<Rightarrow>
   ProgramStep list \<Rightarrow> exec_state \<Rightarrow> exec_state io" where
  "run_steps P program ef kb imageId [] st = io_return st"
| "run_steps P program ef kb imageId (step # steps) st =
     io_bind (exec_step P program ef kb imageId step st)
       (run_steps P program ef kb imageId steps)"

definition execute ::
  "env \<Rightarrow> VirtualProgram \<Rightarrow> EncryptedFragment \<Rightarrow> ChapterKeyBundle \<Rightarrow> string \<Rightarrow> bytes io" where
  "execute P program ef kb imageId =
     io_bind (io_effect DecoySync) (\<lambda>_.
     io_bind (io_effect DecoyAsync) (\<lambda>_.
     io_bind (run_steps P program ef kb imageId (orderedSteps program)
                \<lparr>rawDecrypted = None, ephemeralKey = None, mutatedResult = None\<rparr>) (\<lambda>st.
     io_bind (io_effect DecoySync) (\<lambda>_.
     (case mutatedResult st of
        None \<Rightarrow> io_throw ProgramIncomplete
      | Some mutated \<Rightarrow> io_return mutated)))))"

definition kb0 :: ChapterKeyBundle where
  "kb0 = \<lparr>chapterRootKey = key0, hmacKey = hk0, metadataKey = [], fragmentMapKey = []\<rparr>"

definition entropy0 :: RuntimeEntropyBundle where
  "entropy0 = \<lparr>bootTime = 1700000000000, frameCounter = 1, scrollVelocity = 0, chunkIndex = 0,
     memorySalt = replicate 16 0\<rparr>"

text \<open>The record \<^verbatim>\<open>encryptFragment\<close> produces for the three bytes 1, 2, 3.\<close>

definition pt_ok :: bytes where
  "pt_ok = [1, 2, 3] @ canary_of toy_env key0 0 @ canary_pad (canary_of toy_env key0 0)"

definition blob_ok :: bytes where
  "blob_ok = iv0 @ fst (toy_gcm_encrypt key0 iv0 (fragment_aad ''ch42:0'' 0) pt_ok)
                 @ snd (toy_gcm_encrypt key0 iv0 (fragment_aad ''ch42:0'' 0) pt_ok)"

definition ef_ok :: EncryptedFragment where
  "ef_ok = \<lparr>ef_index = 0, encryptedData = toy_b64_encode blob_ok,
     aadB64 = toy_b64_encode (fragment_aad ''ch42:0'' 0),
     hmac = to_hex (toy_hmac hk0 blob_ok), originalSize = 3\<rparr>"

definition is_real :: "ProgramStep \<Rightarrow> bool" where
  "is_real s = (s \<noteq> DECOY_INJECT \<and> s \<noteq> DUMMY_SPIN)"

section \<open>A codec with a strict and a lenient decoder\<close>

text \<open>
  \<^verbatim>\<open>Buffer.from(s, 'base64')\<close> decodes what it can of any text, \<^verbatim>\<open>Base64.getDecoder().decode\<close>
  of the bridge throws on text that is not an encoding. A small codec with the same
  difference: a byte is written as its character followed by \<open>=\<close>; the lenient decoder
  reads the first character of every pair and drops a character left over, the strict one
  accepts nothing but whole pairs ending in \<open>=\<close>.
\<close>

definition pair_encode :: "bytes \<Rightarrow> string" where
  "pair_encode bs = concat (map (\<lambda>b. [char_of (unat b), CHR ''='']) bs)"

fun lenient_decode :: "string \<Rightarrow> bytes" where
  "lenient_decode (a # b # s) = of_nat (of_char a) # lenient_decode s"
| "lenient_decode _ = []"

fun strict_decode :: "string \<Rightarrow> bytes option" where
  "strict_decode [] = Some []"
| "strict_decode [a] = None"
| "strict_decode (a # b # s) =
     (if b = CHR ''='' then map_option (\<lambda>bs. of_nat (of_char a) # bs) (strict_decode s)
      else None)"

definition strict_env :: env where
  "strict_env = toy_env\<lparr>b64_encode := pair_encode, buffer_from_b64 := lenient_decode,
     java_b64_decode := strict_decode\<rparr>"

text \<open>
  The ciphertext, HMAC and associated data of the fragment \<open>[1, 2, 3]\<close>, intact, in a file
  to which a line feed was appended.
\<close>

definition ef_newline :: EncryptedFragment where
  "ef_newline = \<lparr>ef_index = 0, encryptedData = pair_encode blob_ok @ [CHR 0x0A],
     aadB64 = pair_encode (fragment_aad ''ch42:0'' 0),
     hmac = to_hex (toy_hmac hk0 blob_ok), originalSize = 3\<rparr>"

section \<open>KeyRotationService\<close>

record WrappedChapterKey =
  wrappedB64 :: string
  rotationTimestamp :: int
  version :: nat

text \<open>\<^verbatim>\<open>try { body } finally { cleanup }\<close>: the cleanup runs whatever the body did.\<close>

definition io_finally :: "'a io \<Rightarrow> unit io \<Rightarrow> 'a io" where
  "io_finally body cleanup = (fst body, snd body @ snd cleanup)"

definition deriveWrappingKey :: "env \<Rightarrow> bytes \<Rightarrow> string \<Rightarrow> nat \<Rightarrow> bytes io" where
  "deriveWrappingKey P rootSecret chapterId ver =
     (let ikmB64 = b64_encode P rootSecret;
          saltB64 = b64_encode P (utf8 (''wrap:'' @ chapterId @ '':'' @ dec_str ver))
      in io_bind (NativeCrypto_hkdf P ikmB64 saltB64 ''chapter-key-wrap'' 32)
           (\<lambda>b64. io_return (buffer_from_b64 P b64)))"

text \<open>
  \<^verbatim>\<open>wrapChapterKey\<close>: \<open>iv\<close> is the IV the native encryptor draws, \<open>now\<close> the value of
  \<^verbatim>\<open>Date.now()\<close>.
\<close>

definition wrapChapterKey ::
  "env \<Rightarrow> bytes \<Rightarrow> int \<Rightarrow> bytes \<Rightarrow> bytes \<Rightarrow> string \<Rightarrow> nat \<Rightarrow> WrappedChapterKey io" where
  "wrapChapterKey P iv now rootKey rootSecret chapterId ver =
     io_bind (deriveWrappingKey P rootSecret chapterId ver) (\<lambda>wrappingKey.
       io_finally
         (let keyB64 = b64_encode P rootKey;
              encB64 = b64_encode P wrappingKey
          in io_bind (NativeCrypto_aesGCMEncrypt P iv encB64 keyB64 None) (\<lambda>wrapped.
             io_return \<lparr>wrappedB64 = wrapped, rotationTimestamp = now, version = ver\<rparr>))
         (wipeUint8Array P wrappingKey))"

definition unwrapChapterKey :: "env \<Rightarrow> WrappedChapterKey \<Rightarrow> bytes \<Rightarrow> string \<Rightarrow> bytes io" where
  "unwrapChapterKey P wrapped rootSecret chapterId =
     io_bind (deriveWrappingKey P rootSecret chapterId (version wrapped)) (\<lambda>wrappingKey.
       io_finally
         (let encB64 = b64_encode P wrappingKey
          in io_bind (NativeCrypto_aesGCMDecrypt P encB64 (wrappedB64 wrapped) None) (\<lambda>ptB64.
             if ptB64 = [] then io_throw UnwrapFail
             else io_return (buffer_from_b64 P ptB64)))
         (wipeUint8Array P wrappingKey))"

definition rotateWrappedKey ::
  "env \<Rightarrow> bytes \<Rightarrow> int \<Rightarrow> WrappedChapterKey \<Rightarrow> bytes \<Rightarrow> string \<Rightarrow> WrappedChapterKey io" where
  "rotateWrappedKey P iv now wrapped rootSecret chapterId =
     io_bind (unwrapChapterKey P wrapped rootSecret chapterId) (\<lambda>rootKey.
       io_finally
         (wrapChapterKey P iv now rootKey rootSecret chapterId (version wrapped + 1))
         (wipeUint8Array P rootKey))"

section \<open>Storage and ChapterRepository.rotateKeyIfDue\<close>

text \<open>
  What the platform supplies besides the crypto library: the documents directory of
  expo-file-system, \<^verbatim>\<open>JSON.stringify\<close> and \<^verbatim>\<open>JSON.parse\<close> on a wrapped-key record
  (\<open>Inl SyntaxError\<close> for text that is not JSON, \<open>None\<close> for \<^verbatim>\<open>null\<close>), \<^verbatim>\<open>parseInt(s, 10)\<close>
  (\<open>None\<close> for NaN), the raw device fingerprint \<^verbatim>\<open>DeviceBinding\<close> builds, and OpenSSL's
  \<^verbatim>\<open>PKCS5_PBKDF2_HMAC\<close> with SHA-512 (\<open>None\<close> when it fails).
\<close>

record platform =
  documentDirectory :: string
  json_stringify_wk :: "WrappedChapterKey \<Rightarrow> string"
  json_parse_wk :: "string \<Rightarrow> error + WrappedChapterKey option"
  parseInt10 :: "string \<Rightarrow> int option"
  fingerprint_raw :: string
  PBKDF2_HMAC_SHA512 :: "bytes \<Rightarrow> bytes \<Rightarrow> nat \<Rightarrow> nat \<Rightarrow> bytes option"

text \<open>The files of the documents directory: path to content.\<close>

type_synonym files = "string \<rightharpoonup> string"

definition VAULT_ROOT :: "platform \<Rightarrow> string" where
  "VAULT_ROOT plat = documentDirectory plat @ ''.ls_v'' @ ''/''"

definition META_ROOT :: "platform \<Rightarrow> string" where
  "META_ROOT plat = documentDirectory plat @ ''.ls_m'' @ ''/''"

definition getChapterDir :: "env \<Rightarrow> platform \<Rightarrow> string \<Rightarrow> string" where
  "getChapterDir P plat chapterId = VAULT_ROOT plat @ sha256_hex P (''dir:'' @ chapterId) @ ''/''"

text \<open>The path \<^verbatim>\<open>writeFragment\<close> and \<^verbatim>\<open>readFragment\<close> use for a fragment file.\<close>

definition fragment_path :: "env \<Rightarrow> platform \<Rightarrow> string \<Rightarrow> string \<Rightarrow> string" where
  "fragment_path P plat chapterId filename = getChapterDir P plat chapterId @ filename"

definition writeMeta :: "env \<Rightarrow> platform \<Rightarrow> string \<Rightarrow> string \<Rightarrow> files \<Rightarrow> files" where
  "writeMeta P plat k v fs = fs(META_ROOT plat @ sha256_hex P k \<mapsto> v)"

definition readMeta :: "env \<Rightarrow> platform \<Rightarrow> string \<Rightarrow> files \<Rightarrow> string option" where
  "readMeta P plat k fs = fs (META_ROOT plat @ sha256_hex P k)"

definition storeWrappedKey :: "env \<Rightarrow> platform \<Rightarrow> string \<Rightarrow> WrappedChapterKey \<Rightarrow> files \<Rightarrow> files" where
  "storeWrappedKey P plat chapterId wk fs =
     writeMeta P plat (''wk:'' @ chapterId) (json_stringify_wk plat wk) fs"

definition loadWrappedKey ::
  "env \<Rightarrow> platform \<Rightarrow> string \<Rightarrow> files \<Rightarrow> error + WrappedChapterKey option" where
  "loadWrappedKey P plat chapterId fs =
     (case readMeta P plat (''wk:'' @ chapterId) fs of
        None \<Rightarrow> Inr None
      | Some raw \<Rightarrow> if raw = [] then Inr None else json_parse_wk plat raw)"

definition KEY_ROTATION_INTERVAL_MS :: int where
  "KEY_ROTATION_INTERVAL_MS = 7 * 24 * 60 * 60 * 1000"

definition isRotationDue :: "platform \<Rightarrow> int \<Rightarrow> app_state \<Rightarrow> bool" where
  "isRotationDue plat now st =
     (case secureStore st SECURE_STORE_ROTATION_TS of
        None \<Rightarrow> True
      | Some tsStr \<Rightarrow>
          if tsStr = [] then True
          else (case parseInt10 plat tsStr of
                  None \<Rightarrow> False
                | Some ts \<Rightarrow> now - ts \<ge> KEY_ROTATION_INTERVAL_MS))"

definition recordRotationTimestamp :: "int \<Rightarrow> app_state \<Rightarrow> app_state" where
  "recordRotationTimestamp now st =
     st\<lparr>secureStore := (secureStore st)(SECURE_STORE_ROTATION_TS \<mapsto> int_str now)\<rparr>"

definition PBKDF2_ITERATIONS :: nat where
  "PBKDF2_ITERATIONS = 310000"

definition PBKDF2_KEY_LENGTH :: nat where
  "PBKDF2_KEY_LENGTH = 64"

definition NativeCrypto_pbkdf2 ::
  "env \<Rightarrow> platform \<Rightarrow> string \<Rightarrow> string \<Rightarrow> nat \<Rightarrow> nat \<Rightarrow> string io" where
  "NativeCrypto_pbkdf2 P plat passwordB64 saltB64 iterations keyLength =
     bridge Call_pbkdf2
       (case java_b64_decode P passwordB64 of
          None \<Rightarrow> Inl (BridgeReject ''PBKDF2_ERROR'')
        | Some pwd \<Rightarrow>
       (case java_b64_decode P saltB64 of
          None \<Rightarrow> Inl (BridgeReject ''PBKDF2_ERROR'')
        | Some salt \<Rightarrow>
       (case PBKDF2_HMAC_SHA512 plat pwd salt iterations keyLength of
          Some result \<Rightarrow> Inr (b64_encode P result)
        | None \<Rightarrow> Inl (BridgeReject ''PBKDF2_FAILED''))))"

text \<open>\<^verbatim>\<open>RootKeyService.deriveRootSecret()\<close>, called without a user id.\<close>

definition deriveRootSecret :: "env \<Rightarrow> platform \<Rightarrow> app_state \<Rightarrow> bytes io" where
  "deriveRootSecret P plat st =
     (case secureStore st SECURE_STORE_DEVICE_SALT of
        None \<Rightarrow> io_throw SaltMissing
      | Some saltB64 \<Rightarrow>
          if saltB64 = [] then io_throw SaltMissing
          else (case secureStore st SECURE_STORE_USER_ID of
                  None \<Rightarrow> io_throw UserIdMissing
                | Some uid \<Rightarrow>
                    if uid = [] then io_throw UserIdMissing
                    else let pwdStr = sha256_hex P (fingerprint_raw plat) @ uid;
                             pwdB64 = b64_encode P (utf8 pwdStr)
                         in io_bind (NativeCrypto_pbkdf2 P plat pwdB64 saltB64
                                       PBKDF2_ITERATIONS PBKDF2_KEY_LENGTH)
                              (\<lambda>derivedB64. io_return (buffer_from_b64 P derivedB64))))"

text \<open>
  \<^verbatim>\<open>ChapterRepository.rotateKeyIfDue(chapterId)\<close>: the outcome, the files and the state
  afterwards. \<open>now\<close> stands for every reading of \<^verbatim>\<open>Date.now()\<close> during the call; file
  writes are taken to succeed.
\<close>

definition rotateKeyIfDue ::
  "env \<Rightarrow> platform \<Rightarrow> bytes \<Rightarrow> int \<Rightarrow> string \<Rightarrow> files \<Rightarrow> app_state \<Rightarrow> unit io \<times> files \<times> app_state" where
  "rotateKeyIfDue P plat iv now chapterId fs st =
     (if \<not> isRotationDue plat now st then (io_return (), fs, st)
      else case loadWrappedKey P plat chapterId fs of
             Inl e \<Rightarrow> (io_throw e, fs, st)
           | Inr None \<Rightarrow> (io_return (), fs, st)
           | Inr (Some wrapped) \<Rightarrow>
               (case deriveRootSecret P plat st of
                  (Inl e, t) \<Rightarrow> ((Inl e, t), fs, st)
                | (Inr rootSecret, t) \<Rightarrow>
                    (case rotateWrappedKey P iv now wrapped rootSecret chapterId of
                       (Inl e, t') \<Rightarrow>
                         ((Inl e, t @ t' @ snd (wipeUint8Array P rootSecret)), fs,
                          recordRotationTimestamp now st)
                     | (Inr newWrapped, t') \<Rightarrow>
                         ((Inr (), t @ t' @ snd (wipeUint8Array P rootSecret)),
                          storeWrappedKey P plat chapterId newWrapped fs,
                          recordRotationTimestamp now st))))"

text \<open>A small platform for evaluation, with a three-field text format for the envelope.\<close>

definition toy_json_stringify :: "WrappedChapterKey \<Rightarrow> string" where
  "toy_json_stringify w =
     dec_str (version w) @ CHR '':'' # dec_str (nat (rotationTimestamp w)) @ CHR '':'' # wrappedB64 w"

definition toy_json_parse :: "string \<Rightarrow> error + WrappedChapterKey option" where
  "toy_json_parse s =
     (let v = takeWhile (\<lambda>c. c \<noteq> CHR '':'') s;
          r = drop (length v + 1) s;
          t = takeWhile (\<lambda>c. c \<noteq> CHR '':'') r;
          w = drop (length t + 1) r
      in if length v + length t + 2 > length s then Inl SyntaxError
         else Inr (Some \<lparr>wrappedB64 = w, rotationTimestamp = int (dec_val t), version = dec_val v\<rparr>))"

definition toy_platform :: platform where
  "toy_platform = \<lparr>documentDirectory = ''/data/'',
     json_stringify_wk = toy_json_stringify, json_parse_wk = toy_json_parse,
     parseInt10 = (\<lambda>s. Some (int (dec_val s))), fingerprint_raw = ''aid:1'',
     PBKDF2_HMAC_SHA512 = (\<lambda>pwd salt iterations keyLength. Some (replicate keyLength 3))\<rparr>"

text \<open>The root secret the small platform derives, and an envelope of \<open>key0\<close> at version 1.\<close>

definition root0 :: bytes where
  "root0 = replicate 64 3"

definition wrapping_key :: "env \<Rightarrow> bytes \<Rightarrow> string \<Rightarrow> nat \<Rightarrow> bytes" where
  "wrapping_key P rootSecret chapterId ver =
     hkdf_okm P rootSecret (utf8 (''wrap:'' @ chapterId @ '':'' @ dec_str ver))
       (map of_char ''chapter-key-wrap'') 32"

definition sealed :: "env \<Rightarrow> bytes \<Rightarrow> bytes \<Rightarrow> bytes \<Rightarrow> bytes" where
  "sealed P wk iv pt = iv @ fst (GCM_encrypt P wk iv [] pt) @ snd (GCM_encrypt P wk iv [] pt)"

definition wk1 :: WrappedChapterKey where
  "wk1 = \<lparr>wrappedB64 = toy_b64_encode (sealed toy_env (wrapping_key toy_env root0 ''ch42'' 1) iv0 key0),
          rotationTimestamp = 1700000000000, version = 1\<rparr>"

definition files0 :: files where
  "files0 = [META_ROOT toy_platform @ sha256_hex toy_env ''wk:ch42'' \<mapsto> toy_json_stringify wk1,
             fragment_path toy_env toy_platform ''ch42'' ''f0.dat'' \<mapsto> ''ciphertext'']"

section \<open>useSecureChapter: the registry of live page buffers\<close>

text \<open>
  A \<^verbatim>\<open>Uint8Array\<close> is an object: the registry \<^verbatim>\<open>liveBuffers\<close>, the image slots and
  \<^verbatim>\<open>LifecycleManager._buffers\<close> hold references to it, and \<^verbatim>\<open>MemoryWiper\<close> overwrites it in
  place. A reference is a number; the content of each buffer is kept in a store.
\<close>

type_synonym ref = nat

definition MAX_DECRYPTED_FRAGMENTS :: nat where
  "MAX_DECRYPTED_FRAGMENTS = 2"

text \<open>
  A JavaScript \<^verbatim>\<open>Map\<close> as the list of its entries in insertion order: \<^verbatim>\<open>set\<close> on a key that
  is present replaces the value where the entry stands, on a new key it appends the entry.
\<close>

primrec Map_set :: "'k \<Rightarrow> 'v \<Rightarrow> ('k \<times> 'v) list \<Rightarrow> ('k \<times> 'v) list" where
  "Map_set k v [] = [(k, v)]"
| "Map_set k v (p # ps) = (if fst p = k then (k, v) # ps else p # Map_set k v ps)"

definition Map_delete :: "'k \<Rightarrow> ('k \<times> 'v) list \<Rightarrow> ('k \<times> 'v) list" where
  "Map_delete k m = filter (\<lambda>p. fst p \<noteq> k) m"

definition Map_has :: "('k \<times> 'v) list \<Rightarrow> 'k \<Rightarrow> bool" where
  "Map_has m k = (map_of m k \<noteq> None)"

text \<open>\<^verbatim>\<open>Set.add\<close> and \<^verbatim>\<open>Set.delete\<close> of \<^verbatim>\<open>LifecycleManager._buffers\<close>.\<close>

definition Set_add :: "'a \<Rightarrow> 'a list \<Rightarrow> 'a list" where
  "Set_add x xs = (if x \<in> set xs then xs else xs @ [x])"

definition Set_delete :: "'a \<Rightarrow> 'a list \<Rightarrow> 'a list" where
  "Set_delete x xs = removeAll x xs"

record ImageSlot =
  mutatedData :: "ref option"
  isLoading :: bool
  slot_error :: "string option"
  slot_index :: nat

text \<open>
  The state the hook's callbacks read and write: the refs \<^verbatim>\<open>keyBundleRef\<close> and
  \<^verbatim>\<open>liveBuffers\<close>, the React state \<^verbatim>\<open>metadata\<close> (its \<^verbatim>\<open>imageIds\<close>) and \<^verbatim>\<open>images\<close>, the
  buffers of \<^verbatim>\<open>LifecycleManager\<close>, the store of buffer contents with its next free reference,
  and the \<^verbatim>\<open>loadPage\<close> calls that are suspended at an \<^verbatim>\<open>await\<close>.
\<close>

record hook_state =
  keyBundleRef :: "ChapterKeyBundle option"
  metadata :: "string list option"
  liveBuffers :: "(nat \<times> ref) list"
  images :: "ImageSlot list"
  lm_buffers :: "ref list"
  heap :: "ref \<Rightarrow> bytes"
  next_ref :: ref
  suspended :: "nat list"

text \<open>\<^verbatim>\<open>prev.map((s, i) => i === idx ? f(s) : s)\<close>.\<close>

definition map_slot :: "nat \<Rightarrow> (ImageSlot \<Rightarrow> ImageSlot) \<Rightarrow> ImageSlot list \<Rightarrow> ImageSlot list" where
  "map_slot idx f prev = map (\<lambda>(i, s). if i = idx then f s else s) (enumerate 0 prev)"

text \<open>
  \<^verbatim>\<open>releasePage(idx)\<close>: a buffer registered for \<open>idx\<close> is wiped in place
  (\<^verbatim>\<open>MemoryWiper.wipeUint8Array\<close>), dropped from the registry and untracked; the slot's
  \<^verbatim>\<open>mutatedData\<close> is set to null.
\<close>

definition releasePage :: "env \<Rightarrow> nat \<Rightarrow> hook_state \<Rightarrow> hook_state" where
  "releasePage P idx s =
     (let s1 = (case map_of (liveBuffers s) idx of
                  None \<Rightarrow> s
                | Some buf \<Rightarrow>
                    s\<lparr>heap := (heap s)(buf := wiped (wipe_noise P) (heap s buf)),
                      liveBuffers := Map_delete idx (liveBuffers s),
                      lm_buffers := Set_delete buf (lm_buffers s)\<rparr>)
      in s1\<lparr>images := map_slot idx (\<lambda>sl. sl\<lparr>mutatedData := None\<rparr>) (images s1)\<rparr>)"

text \<open>
  \<^verbatim>\<open>loadPage(pageIdx)\<close> from the call to its first \<^verbatim>\<open>await\<close>: the two guards, the eviction of
  the oldest entry when the registry holds \<^verbatim>\<open>MAX_DECRYPTED_FRAGMENTS\<close> entries or more, and the
  slot set to loading. The call is then suspended. (The frame counters incremented before
  the first \<^verbatim>\<open>await\<close> belong to the entropy bundle and are not part of this state.)
\<close>

definition loadPage_begin :: "env \<Rightarrow> nat \<Rightarrow> hook_state \<Rightarrow> hook_state" where
  "loadPage_begin P pageIdx s =
     (if keyBundleRef s = None \<or> metadata s = None then s
      else if Map_has (liveBuffers s) pageIdx then s
      else
        let s1 = (if MAX_DECRYPTED_FRAGMENTS \<le> length (liveBuffers s)
                  then releasePage P (fst (hd (liveBuffers s))) s else s)
        in s1\<lparr>images := map_slot pageIdx (\<lambda>sl. sl\<lparr>isLoading := True, slot_error := None\<rparr>) (images s1),
              suspended := suspended s1 @ [pageIdx]\<rparr>)"

text \<open>
  \<^verbatim>\<open>loadPage(pageIdx)\<close> from the return of its last \<^verbatim>\<open>await\<close>. \<open>r\<close> is the outcome of the
  awaited part (entropy bundle, manifest, fragment file, \<^verbatim>\<open>VirtualDecryptor.execute\<close>): the
  content of the new buffer \<^verbatim>\<open>mutated\<close>, or the error the \<^verbatim>\<open>catch\<close> receives. On success the
  buffer is registered and tracked, the slot shows it, and the 5 s timer is set.
\<close>

definition error_message :: "error \<Rightarrow> string" where
  "error_message e = (case e of JsError m \<Rightarrow> m | BridgeReject m \<Rightarrow> m | _ \<Rightarrow> '''')"

definition loadPage_resume :: "nat \<Rightarrow> error + bytes \<Rightarrow> hook_state \<Rightarrow> hook_state" where
  "loadPage_resume pageIdx r s =
     (case r of
        Inr content \<Rightarrow>
          (let mutated = next_ref s in
           s\<lparr>heap := (heap s)(mutated := content),
             next_ref := Suc mutated,
             liveBuffers := Map_set pageIdx mutated (liveBuffers s),
             lm_buffers := Set_add mutated (lm_buffers s),
             images := map_slot pageIdx
               (\<lambda>sl. sl\<lparr>mutatedData := Some mutated, isLoading := False\<rparr>) (images s),
             suspended := remove1 pageIdx (suspended s)\<rparr>)
      | Inl e \<Rightarrow>
          s\<lparr>images := map_slot pageIdx
               (\<lambda>sl. sl\<lparr>isLoading := False, slot_error := Some (error_message e)\<rparr>) (images s),
            suspended := remove1 pageIdx (suspended s)\<rparr>)"

text \<open>
  \<^verbatim>\<open>wipeAll()\<close>, the background callback: \<^verbatim>\<open>MemoryWiper.wipeAll(liveBuffers.current)\<close> wipes
  every registered buffer and clears the registry; the key bundle is wiped and set to null.
\<close>

definition wipeAll :: "env \<Rightarrow> hook_state \<Rightarrow> hook_state" where
  "wipeAll P s =
     s\<lparr>heap := fold (\<lambda>(k, buf) h. h(buf := wiped (wipe_noise P) (h buf))) (liveBuffers s) (heap s),
       liveBuffers := [],
       keyBundleRef := None,
       images := map (\<lambda>sl. sl\<lparr>mutatedData := None\<rparr>) (images s)\<rparr>"

text \<open>
  What the event loop runs, one piece at a time and each piece to its end: a call of
  \<^verbatim>\<open>loadPage\<close> up to its first \<^verbatim>\<open>await\<close>, the resumption of a suspended call, a call of
  \<^verbatim>\<open>releasePage\<close> (by the screen, or by the 5 s timer), and the background callback. A
  resumption is possible only for a call that is suspended.
\<close>

datatype event = LoadPage nat | Resume nat "error + bytes" | ReleasePage nat | Background

fun hook_step :: "env \<Rightarrow> event \<Rightarrow> hook_state \<Rightarrow> hook_state option" where
  "hook_step P (LoadPage p) s = Some (loadPage_begin P p s)"
| "hook_step P (Resume p r) s =
     (if p \<in> set (suspended s) then Some (loadPage_resume p r s) else None)"
| "hook_step P (ReleasePage p) s = Some (releasePage P p s)"
| "hook_step P Background s = Some (wipeAll P s)"

fun hook_run :: "env \<Rightarrow> event list \<Rightarrow> hook_state \<Rightarrow> hook_state option" where
  "hook_run P [] s = Some s"
| "hook_run P (e # es) s = (case hook_step P e s of None \<Rightarrow> None | Some s' \<Rightarrow> hook_run P es s')"

text \<open>A run in which no \<^verbatim>\<open>loadPage\<close> is called while another call is suspended.\<close>

fun one_at_a_time :: "env \<Rightarrow> event list \<Rightarrow> hook_state \<Rightarrow> bool" where
  "one_at_a_time P [] s = True"
| "one_at_a_time P (e # es) s =
     ((case e of LoadPage p \<Rightarrow> suspended s = [] | _ \<Rightarrow> True) \<and>
      (case hook_step P e s of None \<Rightarrow> False | Some s' \<Rightarrow> one_at_a_time P es s'))"

text \<open>The buffers the registry holds, by content.\<close>

definition live_contents :: "hook_state \<Rightarrow> (nat \<times> bytes) list" where
  "live_contents s = map (\<lambda>(p, buf). (p, heap s buf)) (liveBuffers s)"

text \<open>A chapter of three pages, ready, with nothing loaded.\<close>

definition hook0 :: hook_state where
  "hook0 = \<lparr>keyBundleRef = Some kb0,
     metadata = Some [''img0'', ''img1'', ''img2''],
     liveBuffers = [],
     images = map (\<lambda>i. \<lparr>mutatedData = None, isLoading = False, slot_error = None, slot_index = i\<rparr>)
       [0, 1, 2],
     lm_buffers = [],
     heap = (\<lambda>buf. []),
     next_ref = 0,
     suspended = []\<rparr>"

text \<open>
  Three pages requested back to back, as the reader screen does when it calls
  \<^verbatim>\<open>loadPage\<close> for neighbouring pages without awaiting: each call runs to its first
  \<^verbatim>\<open>await\<close> before any of them resumes.
\<close>

definition back_to_back :: "event list" where
  "back_to_back = [LoadPage 0, LoadPage 1, LoadPage 2,
     Resume 0 (Inr [10, 11]), Resume 1 (Inr [20, 21]), Resume 2 (Inr [30, 31])]"

text \<open>The same three pages, each load awaited before the next is requested.\<close>

definition awaited :: "event list" where
  "awaited = [LoadPage 0, Resume 0 (Inr [10, 11]), LoadPage 1, Resume 1 (Inr [20, 21]),
     LoadPage 2, Resume 2 (Inr [30, 31])]"

text \<open>
  The registry's keys are distinct, and its entries together with the suspended calls are
  at most \<^verbatim>\<open>MAX_DECRYPTED_FRAGMENTS\<close>.
\<close>

definition cap_inv :: "hook_state \<Rightarrow> bool" where
  "cap_inv s = (distinct (map fst (liveBuffers s)) \<and>
     length (liveBuffers s) + length (suspended s) \<le> MAX_DECRYPTED_FRAGMENTS)"

section \<open>FridaDetector\<close>

text \<open>
  What the four detection vectors observe at the moment of a call: the names defined on
  \<^verbatim>\<open>globalThis\<close>, the three prototype identities (and whether probing them throws), whether
  each of the five built-ins still prints \<^verbatim>\<open>[native code]\<close>, and the eight timing samples.
\<close>

record frida_env =
  defined_globals :: "string list"
  object_proto_ok :: bool
  array_proto_ok :: bool
  function_proto_ok :: bool
  proto_probe_throws :: bool
  native_code_printed :: "bool list"
  timing_samples :: "rat list"

datatype vector = CheckGlobals | CheckPrototypes | CheckNativeStrings | CheckTimingVariance

definition FRIDA_GLOBALS :: "string list" where
  "FRIDA_GLOBALS = [''_frida_agent_main'', ''__frida'', ''Interceptor'',
      ''Stalker'', ''NativeFunction'', ''NativeCallback'',
      ''Memory'', ''Script'', ''Java'', ''ObjC'', ''recv'', ''send'', ''rpc'']"

definition checkGlobals :: "frida_env \<Rightarrow> bool" where
  "checkGlobals env = list_ex (\<lambda>g. g \<in> set (defined_globals env)) FRIDA_GLOBALS"

definition checkPrototypes :: "frida_env \<Rightarrow> bool" where
  "checkPrototypes env =
     (if proto_probe_throws env then True
      else if \<not> object_proto_ok env then True
      else if \<not> array_proto_ok env then True
      else if \<not> function_proto_ok env then True
      else False)"

definition checkNativeStrings :: "frida_env \<Rightarrow> bool" where
  "checkNativeStrings env = list_ex (\<lambda>printed. \<not> printed) (native_code_printed env)"

definition checkTimingVariance :: "frida_env \<Rightarrow> bool" where
  "checkTimingVariance env =
     (let ts = timing_samples env;
          mean = sum_list ts / 8;
          variance = sum_list (map (\<lambda>t. (t - mean) ^ 2) ts) / 8
      in variance > 5 \<and> mean > 2)"

definition THROTTLE_MS :: int where
  "THROTTLE_MS = 8000"

record frida_state =
  lastCheck :: int

definition frida_init :: frida_state where
  "frida_init = \<lparr>lastCheck = 0\<rparr>"

text \<open>
  The result of \<^verbatim>\<open>||\<close> with the vectors it evaluated, in order: a vector to the right
  of the first positive one is never run.
\<close>

definition run_vectors :: "frida_env \<Rightarrow> bool \<times> vector list" where
  "run_vectors env =
     (if checkGlobals env then (True, [CheckGlobals])
      else if checkPrototypes env then (True, [CheckGlobals, CheckPrototypes])
      else if checkNativeStrings env then (True, [CheckGlobals, CheckPrototypes, CheckNativeStrings])
      else (checkTimingVariance env,
            [CheckGlobals, CheckPrototypes, CheckNativeStrings, CheckTimingVariance]))"

text \<open>
  \<^verbatim>\<open>FridaDetector.detect()\<close> started at \<open>now\<close> (the value of \<^verbatim>\<open>Date.now()\<close>): the
  verdict, the vectors evaluated, and the new static state.
\<close>

definition detect :: "int \<Rightarrow> frida_env \<Rightarrow> frida_state \<Rightarrow> (bool \<times> vector list) \<times> frida_state" where
  "detect now env st =
     (if now - lastCheck st < THROTTLE_MS then ((False, []), st)
      else (run_vectors env, st\<lparr>lastCheck := now\<rparr>))"

definition clean_env :: frida_env where
  "clean_env = \<lparr>defined_globals = [], object_proto_ok = True, array_proto_ok = True,
     function_proto_ok = True, proto_probe_throws = False,
     native_code_printed = [True, True, True, True, True],
     timing_samples = [0, 0, 0, 0, 0, 0, 0, 0]\<rparr>"

definition hooked_env :: frida_env where
  "hooked_env = clean_env\<lparr>defined_globals := [''Interceptor'']\<rparr>"

section \<open>Theorems: the library instance\<close>

lemma toy_hmac_ok: "hmac_ok toy_env"
  by (simp add: hmac_ok_def toy_env_def toy_hmac_def)

lemma xor_twice: "(a XOR m) XOR m = (a::byte)"
  by (simp add: xor.assoc)

lemma xor_mask_twice: "map (\<lambda>b. b XOR (0x2A::byte)) (map (\<lambda>b. b XOR 0x2A) pt) = pt"
  by (induction pt) (simp_all add: xor_twice)

lemma toy_gcm_ok: "gcm_ok toy_env"
  unfolding gcm_ok_def toy_env_def toy_gcm_encrypt_def toy_gcm_decrypt_def
  by (simp only: env.simps fst_conv snd_conv xor_mask_twice) (simp add: toy_tag_def)

lemma toy_byte_char: "(of_nat (unat (b::byte) mod 256) :: byte) = b"
proof -
  have "unat b < 256"
    using unsigned_less [of b] by simp
  then have "unat b mod 256 = unat b"
    by simp
  then show ?thesis
    by simp
qed

lemma toy_b64_round: "toy_b64_decode (toy_b64_encode bs) = bs"
  by (induction bs) (simp_all add: toy_b64_decode_def toy_b64_encode_def toy_byte_char)

lemma toy_b64_ok: "b64_ok toy_env"
  by (simp add: b64_ok_def toy_env_def toy_b64_round) (simp add: toy_b64_encode_def)

section \<open>Theorems: random bytes\<close>

text \<open>
  C8. For every integer \<open>n\<close> with \<open>n \<le> 0\<close> or \<open>n > 4096\<close>, \<^verbatim>\<open>randomBytes\<close> rejects
  (\<^verbatim>\<open>RAND_FAILED\<close>) after its one bridge call and yields no bytes; for \<open>1 \<le> n \<le> 4096\<close>,
  when the generator does not fail, it returns exactly \<open>n\<close> bytes: the ones
  \<^verbatim>\<open>RAND_bytes\<close> wrote.
\<close>

theorem C8_randomBytes_bounds:
  "(n \<le> 0 \<or> n > 4096 \<longrightarrow>
      CryptoEngine_randomBytes P rand n = (Inl (BridgeReject ''RAND_FAILED''), [Native Call_randomBytes])) \<and>
   (1 \<le> n \<and> n \<le> 4096 \<and> b64_ok P \<and> rand = Some f \<longrightarrow>
      CryptoEngine_randomBytes P rand n = (Inr (map f [0..<nat n]), [Native Call_randomBytes]) \<and>
      int (length (map f [0..<nat n])) = n)"
  by (auto simp: CryptoEngine_randomBytes_def NativeCrypto_randomBytes_def bridge_def
      nativeRandomBytes_def toInt_def io_return_def b64_ok_def)

theorem C8_randomBytes_bounds_witness:
  "CryptoEngine_randomBytes toy_env (Some (\<lambda>i. of_nat i)) 0
     = (Inl (BridgeReject ''RAND_FAILED''), [Native Call_randomBytes]) \<and>
   CryptoEngine_randomBytes toy_env (Some (\<lambda>i. of_nat i)) 4097
     = (Inl (BridgeReject ''RAND_FAILED''), [Native Call_randomBytes]) \<and>
   CryptoEngine_randomBytes toy_env (Some (\<lambda>i. of_nat i)) 3
     = (Inr [0, 1, 2], [Native Call_randomBytes])"
proof -
  have three: "[0..<nat 3] = [0, 1, 2]"
    by (simp add: upt_rec)
  show ?thesis
    using C8_randomBytes_bounds [of 0 toy_env "Some (\<lambda>i. of_nat i)" "\<lambda>i. of_nat i"]
      C8_randomBytes_bounds [of 4097 toy_env "Some (\<lambda>i. of_nat i)" "\<lambda>i. of_nat i"]
      C8_randomBytes_bounds [of 3 toy_env "Some (\<lambda>i. of_nat i)" "\<lambda>i. of_nat i"]
      toy_b64_ok three
    by simp
qed

section \<open>Lemmas: CanaryService\<close>

lemma fold_update_range:
  "base + n \<le> length out \<Longrightarrow>
   fold (\<lambda>i out. out[base + i := f i]) [0..<n] out
     = take base out @ map f [0..<n] @ drop (base + n) out"
proof (induction n)
  case 0
  then show ?case by simp
next
  case (Suc n)
  then have ih: "fold (\<lambda>i out. out[base + i := f i]) [0..<n] out
     = take base out @ map f [0..<n] @ drop (base + n) out"
    by simp
  have d: "drop (base + n) out = out ! (base + n) # drop (Suc (base + n)) out"
    using Suc.prems by (simp add: Cons_nth_drop_Suc)
  have l: "length (take base out @ map f [0..<n]) = base + n"
    using Suc.prems by simp
  have "(take base out @ map f [0..<n] @ drop (base + n) out)[base + n := f n]
      = (take base out @ map f [0..<n]) @ f n # drop (Suc (base + n)) out"
    using list_update_length [of "take base out @ map f [0..<n]" "out ! (base + n)"
        "drop (Suc (base + n)) out" "f n"] l d
    by simp
  then show ?case
    using ih by simp
qed

lemma embed_closed_form:
  assumes "length canary = 16"
  shows "CanaryService_embed data canary = Inr (data @ canary @ canary_pad canary)"
proof -
  have s1: "u8_set (replicate (length data + CANARY_TOTAL_OVERHEAD) 0) data 0
      = Inr (data @ replicate 32 0)"
    by (simp add: u8_set_def CANARY_TOTAL_OVERHEAD_def CANARY_LENGTH_def CANARY_TRAILING_PAD_def)
  have s2: "u8_set (data @ replicate 32 0) canary (length data)
      = Inr (data @ canary @ replicate 16 0)"
    using assms by (simp add: u8_set_def)
  have step: "embed_pad_step (length data) canary
      = (\<lambda>i out. out[(length data + 16) + i := byte_at canary (i mod CANARY_LENGTH) XOR of_nat ((i + 1) * 0x5A)])"
    by (rule ext, rule ext) (simp add: embed_pad_step_def CANARY_LENGTH_def add.assoc)
  have "fold (embed_pad_step (length data) canary) [0..<CANARY_TRAILING_PAD] (data @ canary @ replicate 16 0)
      = data @ canary @ canary_pad canary"
    unfolding step CANARY_TRAILING_PAD_def
    using assms
    by (subst fold_update_range) (simp_all add: canary_pad_def CANARY_TRAILING_PAD_def)
  then show ?thesis
    by (simp add: CanaryService_embed_def s1 s2)
qed

lemma length_canary_pad [simp]: "length (canary_pad c) = 16"
  by (simp add: canary_pad_def CANARY_TRAILING_PAD_def)

lemma nat_xor_eq_0: "(a::nat) XOR b = 0 \<longleftrightarrow> a = b"
  by (metis xor.right_neutral xor_self_eq xor.assoc xor.left_neutral)

lemma fold_or_zero:
  "fold (\<lambda>i diff. diff OR g i) is (d::nat) = 0 \<longleftrightarrow> d = 0 \<and> (\<forall>i \<in> set is. g i = 0)"
  by (induction "is" arbitrary: d) (auto simp: or_eq_0_iff)

lemma verify_iff:
  assumes "length c = 16"
  shows "CanaryService_verify d c \<longleftrightarrow>
     32 \<le> length d \<and> take 16 (drop (length d - 32) d) = c"
proof (cases "length d < 32")
  case True
  then show ?thesis
    by (simp add: CanaryService_verify_def CANARY_TOTAL_OVERHEAD_def CANARY_LENGTH_def
        CANARY_TRAILING_PAD_def)
next
  case False
  have step: "canary_diff_step d c (length d - 32)
     = (\<lambda>i diff. diff OR (unat (byte_at d (length d - 32 + i)) XOR unat (byte_at c i)))"
    by (rule ext, rule ext) (simp add: canary_diff_step_def)
  have "CanaryService_verify d c \<longleftrightarrow>
     (\<forall>i \<in> {0..<16}. byte_at d (length d - 32 + i) = byte_at c i)"
    using False
    by (simp add: CanaryService_verify_def CANARY_TOTAL_OVERHEAD_def CANARY_LENGTH_def
        CANARY_TRAILING_PAD_def step fold_or_zero nat_xor_eq_0 word_unat_eq_iff [symmetric]
        Let_def)
  also have "\<dots> \<longleftrightarrow> take 16 (drop (length d - 32) d) = c"
    using False assms
    by (auto simp: list_eq_iff_nth_eq byte_at_def)
  finally show ?thesis
    using False by simp
qed

lemma verify_embedded:
  "length c = 16 \<Longrightarrow> CanaryService_verify (data @ c @ canary_pad c) c"
  by (simp add: verify_iff)

lemma strip_embedded:
  "length c = 16 \<Longrightarrow> CanaryService_strip (data @ c @ canary_pad c) = Inr data"
  by (simp add: CanaryService_strip_def CANARY_TOTAL_OVERHEAD_def CANARY_LENGTH_def
      CANARY_TRAILING_PAD_def)

section \<open>Lemmas: bridge and engine under the library contracts\<close>

lemma length_hkdf_expand:
  "hmac_ok P \<Longrightarrow> length (hkdf_expand P prk info T ctr n) = n"
proof (induction P prk info T ctr n rule: hkdf_expand.induct)
  case (1 P prk info T ctr remaining)
  show ?case
  proof (cases "remaining > 0")
    case True
    have h: "length (HMAC_SHA256 P prk ((if ctr > 1 then T else []) @ info @ [ctr])) = 32"
      using "1.prems" by (simp add: hmac_ok_def)
    show ?thesis
      using True "1.IH" [OF True "1.prems"] h
      by (subst hkdf_expand.simps) auto
  next
    case False
    then show ?thesis
      by (subst hkdf_expand.simps) simp
  qed
qed

lemma length_hkdf_okm: "hmac_ok P \<Longrightarrow> length (hkdf_okm P ikm salt info n) = n"
  by (simp add: hkdf_okm_def length_hkdf_expand)

lemma hkdf_expand_one_block:
  "0 < n \<Longrightarrow> n \<le> 32 \<Longrightarrow>
   hkdf_expand P prk info T 1 n = take n (HMAC_SHA256 P prk (info @ [1]))"
  by (subst hkdf_expand.simps, subst hkdf_expand.simps) auto

lemma hkdf_bridge:
  "b64_ok P \<Longrightarrow>
   NativeCrypto_hkdf P (b64_encode P ikm) (b64_encode P salt) info n
     = (Inr (b64_encode P (hkdf_okm P ikm salt (map of_char info) n)), [Native Call_hkdf])"
  by (simp add: NativeCrypto_hkdf_def b64_ok_def nativeHKDF_def bridge_def)

lemma derive_ok:
  "b64_ok P \<Longrightarrow>
   CanaryService_derive P key i = (Inr (canary_of P key i), [Native Call_hkdf])"
  by (simp add: CanaryService_derive_def hkdf_bridge CANARY_LENGTH_def canary_of_def
      io_return_def b64_ok_def)

lemma length_canary_of: "hmac_ok P \<Longrightarrow> length (canary_of P key i) = 16"
  by (simp add: canary_of_def length_hkdf_okm)

lemma hmac_bridge:
  "b64_ok P \<Longrightarrow>
   CryptoEngine_hmacSHA256 P key data = (Inr (to_hex (HMAC_SHA256 P key data)), [Native Call_hmacSHA256])"
  by (simp add: CryptoEngine_hmacSHA256_def NativeCrypto_hmacSHA256_def b64_ok_def
      nativeHMACSHA256_def bridge_def)

lemma hex_diff_zero:
  "length a = length b \<Longrightarrow> hex_diff a b d = 0 \<longleftrightarrow> d = 0 \<and> a = b"
proof (induction a b d rule: hex_diff.induct)
  case (1 a as b bs diff)
  then show ?case
    by (auto simp: or_eq_0_iff nat_xor_eq_0)
qed auto

lemma verifyHMAC_ok:
  "b64_ok P \<Longrightarrow>
   CryptoEngine_verifyHMAC P key data expectedHex
     = (Inr (to_hex (HMAC_SHA256 P key data) = expectedHex), [Native Call_hmacSHA256])"
  by (auto simp: CryptoEngine_verifyHMAC_def hmac_bridge io_return_def hex_diff_zero)

lemma encrypt_bridge:
  "b64_ok P \<Longrightarrow> length key = 32 \<Longrightarrow>
   CryptoEngine_encrypt P iv key pt (Some aad)
     = (Inr \<lparr>blob_data = b64_encode P (iv @ fst (GCM_encrypt P key iv aad pt)
                                           @ snd (GCM_encrypt P key iv aad pt)),
             blob_aadB64 = Some (b64_encode P aad)\<rparr>, [Native Call_aesGCMEncrypt])"
  by (simp add: CryptoEngine_encrypt_def NativeCrypto_aesGCMEncrypt_def b64_ok_def
      nativeAESGCMEncrypt_def bridge_def io_return_def aad_bytes_def split: prod.splits)

lemma decrypt_bridge:
  "b64_ok P \<Longrightarrow> java_b64_decode P data = Some blob \<Longrightarrow>
   CryptoEngine_decrypt P key \<lparr>blob_data = data, blob_aadB64 = Some (b64_encode P aad)\<rparr>
     = (case nativeAESGCMDecrypt P key blob (Some aad) of
          None \<Rightarrow> (Inl AuthFail, [Native Call_aesGCMDecrypt])
        | Some pt \<Rightarrow> (if pt = [] then Inl AuthFail else Inr pt, [Native Call_aesGCMDecrypt]))"
  by (simp add: CryptoEngine_decrypt_def NativeCrypto_aesGCMDecrypt_def b64_ok_def
      bridge_def io_return_def io_throw_def split: option.splits)

lemma decrypt_bridge_undecodable:
  "b64_ok P \<Longrightarrow> java_b64_decode P data = None \<Longrightarrow>
   CryptoEngine_decrypt P key \<lparr>blob_data = data, blob_aadB64 = Some (b64_encode P aad)\<rparr>
     = (Inl (BridgeReject ''AES_DEC_ERROR''), [Native Call_aesGCMDecrypt])"
  by (simp add: CryptoEngine_decrypt_def NativeCrypto_aesGCMDecrypt_def b64_ok_def
      bridge_def)

lemma native_gcm_round_trip:
  assumes "gcm_ok P" "length key = 32" "length iv = 12"
  shows "nativeAESGCMDecrypt P key
           (iv @ fst (GCM_encrypt P key iv aad pt) @ snd (GCM_encrypt P key iv aad pt)) (Some aad)
         = Some pt"
proof -
  have t: "length (snd (GCM_encrypt P key iv aad pt)) = 16"
    and d: "GCM_decrypt P key iv aad (fst (GCM_encrypt P key iv aad pt))
              (snd (GCM_encrypt P key iv aad pt)) = Some pt"
    using assms by (simp_all add: gcm_ok_def)
  show ?thesis
    using assms(2,3) t d
    by (simp add: nativeAESGCMDecrypt_def aad_bytes_def Let_def)
qed

text \<open>What \<^verbatim>\<open>encryptFragment\<close> returns, and the effects it has, for a 32-byte key.\<close>

lemma encryptFragment_ok:
  assumes "hmac_ok P" "b64_ok P" "length key = 32"
  shows "encryptFragment P iv \<lparr>frag_index = i, frag_data = data, frag_size = sz\<rparr> key hk imageId
     = (let c = canary_of P key i;
            pt = data @ c @ canary_pad c;
            aad = fragment_aad imageId i;
            ct = fst (GCM_encrypt P key iv aad pt);
            tag = snd (GCM_encrypt P key iv aad pt)
        in (Inr \<lparr>ef_index = i, encryptedData = b64_encode P (iv @ ct @ tag),
                  aadB64 = b64_encode P aad,
                  hmac = to_hex (HMAC_SHA256 P hk (iv @ ct @ tag)),
                  originalSize = sz\<rparr>,
            [Native Call_hkdf, Wipe c (wiped (wipe_noise P) c), Native Call_aesGCMEncrypt,
             Wipe pt (wiped (wipe_noise P) pt), Native Call_hmacSHA256]))"
proof -
  have b: "\<And>bs. buffer_from_b64 P (b64_encode P bs) = bs"
    using assms(2) by (simp add: b64_ok_def)
  show ?thesis
    using assms
    by (simp add: encryptFragment_def derive_ok io_lift_def embed_closed_form length_canary_of
        wipeUint8Array_def encrypt_bridge hmac_bridge b io_return_def Let_def)
qed

lemma decrypt_step1:
  assumes "b64_ok P" "\<not> hmac_matches P hk ef"
  shows "decryptFragment P ef key hk imageId = (Inl IntegrityFail, [Native Call_hmacSHA256])"
  using assms
  by (simp add: decryptFragment_def verifyHMAC_ok hmac_matches_def io_throw_def)

lemma decrypt_step2:
  assumes "b64_ok P" "hmac_matches P hk ef" "\<not> aad_matches P ef imageId"
  shows "decryptFragment P ef key hk imageId = (Inl SubstitutionFail, [Native Call_hmacSHA256])"
  using assms
  by (simp add: decryptFragment_def verifyHMAC_ok hmac_matches_def aad_matches_def io_throw_def)

lemma decrypt_step3_undecodable:
  assumes "b64_ok P" "hmac_matches P hk ef" "aad_matches P ef imageId"
    "java_b64_decode P (encryptedData ef) = None"
  shows "decryptFragment P ef key hk imageId
     = (Inl (BridgeReject ''AES_DEC_ERROR''), [Native Call_hmacSHA256, Native Call_aesGCMDecrypt])"
  using assms
  by (simp add: decryptFragment_def verifyHMAC_ok hmac_matches_def aad_matches_def
      decrypt_bridge_undecodable)

lemma decrypt_step3:
  assumes "b64_ok P" "hmac_matches P hk ef" "aad_matches P ef imageId"
    "java_b64_decode P (encryptedData ef) = Some blob"
    "gcm_plaintext P key blob imageId (ef_index ef) = None
     \<or> gcm_plaintext P key blob imageId (ef_index ef) = Some []"
  shows "decryptFragment P ef key hk imageId
     = (Inl AuthFail, [Native Call_hmacSHA256, Native Call_aesGCMDecrypt])"
  using assms
  by (auto simp: decryptFragment_def verifyHMAC_ok hmac_matches_def aad_matches_def
      decrypt_bridge gcm_plaintext_def)

lemma decrypt_step4:
  assumes "b64_ok P" "hmac_matches P hk ef" "aad_matches P ef imageId"
    "java_b64_decode P (encryptedData ef) = Some blob"
    "gcm_plaintext P key blob imageId (ef_index ef) = Some pt" "pt \<noteq> []"
    "\<not> CanaryService_verify pt (canary_of P key (ef_index ef))"
  shows "decryptFragment P ef key hk imageId
     = (Inl CanaryFail,
        [Native Call_hmacSHA256, Native Call_aesGCMDecrypt, Native Call_hkdf,
         Wipe (canary_of P key (ef_index ef))
              (replicate (length (canary_of P key (ef_index ef))) 0),
         Wipe pt (replicate (length pt) 0)])"
  using assms
  by (simp add: decryptFragment_def verifyHMAC_ok hmac_matches_def aad_matches_def
      decrypt_bridge gcm_plaintext_def derive_ok wipeUint8Array_def wiped_zero io_throw_def)

lemma decrypt_step5:
  assumes "b64_ok P" "hmac_matches P hk ef" "aad_matches P ef imageId"
    "java_b64_decode P (encryptedData ef) = Some blob"
    "gcm_plaintext P key blob imageId (ef_index ef) = Some pt" "pt \<noteq> []"
    "CanaryService_verify pt (canary_of P key (ef_index ef))"
  shows "decryptFragment P ef key hk imageId
     = (CanaryService_strip pt,
        [Native Call_hmacSHA256, Native Call_aesGCMDecrypt, Native Call_hkdf,
         Wipe (canary_of P key (ef_index ef))
              (replicate (length (canary_of P key (ef_index ef))) 0)]
        @ (case CanaryService_strip pt of Inl e \<Rightarrow> [] | Inr r \<Rightarrow> [Wipe pt (replicate (length pt) 0)]))"
  using assms
  by (simp add: decryptFragment_def verifyHMAC_ok hmac_matches_def aad_matches_def
      decrypt_bridge gcm_plaintext_def derive_ok wipeUint8Array_def wiped_zero io_throw_def
      io_lift_def io_return_def split: sum.splits)

section \<open>Lemmas: the associated data identifies image and fragment\<close>

lemma of_char_digit: "d < 10 \<Longrightarrow> (of_char (digit_char d) :: nat) = 48 + d"
  by (simp add: digit_char_def)

lemma dec_val_dec_str: "dec_val (dec_str n) = n"
proof (induction n rule: dec_str.induct)
  case (1 n)
  show ?case
  proof (cases "n < 10")
    case True
    then show ?thesis
      by (subst dec_str.simps) (simp add: dec_val_def of_char_digit)
  next
    case False
    then have "dec_val (dec_str (n div 10)) = n div 10"
      using 1 by simp
    then show ?thesis
      using False
      by (subst dec_str.simps) (simp add: dec_val_def of_char_digit)
  qed
qed

lemma dec_str_inj: "dec_str i = dec_str j \<Longrightarrow> i = j"
  by (metis dec_val_dec_str)

lemma digit_not_colon: "d < 10 \<Longrightarrow> digit_char d \<noteq> CHR '':''"
proof
  assume d: "d < 10" and "digit_char d = CHR '':''"
  then have "(of_char (digit_char d) :: nat) = of_char (CHR '':'')"
    by simp
  with d show False
    by (simp add: of_char_digit)
qed

lemma dec_str_no_colon: "CHR '':'' \<notin> set (dec_str n)"
proof (induction n rule: dec_str.induct)
  case (1 n)
  show ?case
  proof (cases "n < 10")
    case True
    then show ?thesis
      using digit_not_colon [of n] by (subst dec_str.simps) auto
  next
    case False
    then show ?thesis
      using 1 digit_not_colon [of "n mod 10"] by (subst dec_str.simps) auto
  qed
qed

lemma split_at_last_colon:
  assumes "a @ CHR '':'' # x = b @ CHR '':'' # y"
    and "CHR '':'' \<notin> set x" "CHR '':'' \<notin> set y"
  shows "a = b \<and> x = y"
proof -
  have "rev x @ CHR '':'' # rev a = rev y @ CHR '':'' # rev b"
    using arg_cong [OF assms(1), of rev] by simp
  then have "takeWhile (\<lambda>c. c \<noteq> CHR '':'') (rev x @ CHR '':'' # rev a)
      = takeWhile (\<lambda>c. c \<noteq> CHR '':'') (rev y @ CHR '':'' # rev b)"
    by simp
  moreover have "takeWhile (\<lambda>c. c \<noteq> CHR '':'') (rev x @ CHR '':'' # rev a) = rev x"
    using assms(2) by (subst takeWhile_append2) auto
  moreover have "takeWhile (\<lambda>c. c \<noteq> CHR '':'') (rev y @ CHR '':'' # rev b) = rev y"
    using assms(3) by (subst takeWhile_append2) auto
  ultimately have "rev x = rev y"
    by simp
  then have "x = y"
    by simp
  with assms(1) show ?thesis
    by simp
qed

lemma byte_of_char_inj: "(of_char c :: byte) = of_char d \<Longrightarrow> c = d"
proof -
  assume a: "(of_char c :: byte) = of_char d"
  have u: "\<And>e. unat (of_char e :: byte) = of_char e"
  proof -
    fix e :: char
    have "(of_char e :: nat) < 256"
      by simp
    then have "unat (of_nat (of_char e) :: byte) = of_char e"
      by (simp add: unat_of_nat)
    then show "unat (of_char e :: byte) = of_char e"
      by (simp add: of_nat_of_char)
  qed
  from a have "unat (of_char c :: byte) = unat (of_char d :: byte)"
    by simp
  then show "c = d"
    by (simp add: u)
qed

lemma utf8_inj: "utf8 s = utf8 t \<Longrightarrow> s = t"
  unfolding utf8_def
  by (rule map_injective) (auto simp: inj_on_def dest: byte_of_char_inj)

lemma fragment_aad_inj:
  assumes "fragment_aad imageId i = fragment_aad imageId' j"
  shows "imageId = imageId' \<and> i = j"
proof -
  have "imageId @ CHR '':'' # dec_str i = imageId' @ CHR '':'' # dec_str j"
    using utf8_inj assms by (simp add: fragment_aad_def)
  then have "imageId = imageId' \<and> dec_str i = dec_str j"
    using split_at_last_colon dec_str_no_colon by blast
  then show ?thesis
    using dec_str_inj by blast
qed

lemma b64_encode_inj: "b64_ok P \<Longrightarrow> b64_encode P x = b64_encode P y \<Longrightarrow> x = y"
  by (metis b64_ok_def)

lemma swapped_aad_mismatch:
  assumes "b64_ok P" "aadB64 ef = b64_encode P (fragment_aad imageId' j)"
    "(imageId', j) \<noteq> (imageId, ef_index ef)"
  shows "\<not> aad_matches P ef imageId"
  using assms fragment_aad_inj b64_encode_inj
  unfolding aad_matches_def by (metis prod.inject)

section \<open>Theorems: FragmentEngine\<close>

text \<open>
  C1. For every byte array \<open>data\<close>, every 32-byte chapter root key and every HMAC key,
  image id, fragment index and IV: \<^verbatim>\<open>encryptFragment\<close> succeeds, and
  \<^verbatim>\<open>decryptFragment\<close> on its record under the same keys and image id returns exactly
  \<open>data\<close>; and \<^verbatim>\<open>strip(embed(data, canary))\<close> is \<open>data\<close> for every 16-byte canary.
\<close>

theorem C1_fragment_round_trip:
  assumes "hmac_ok P" "gcm_ok P" "b64_ok P"
    and "length rootKey = 32" "length iv = 12"
  shows "(\<exists>ef t. encryptFragment P iv \<lparr>frag_index = i, frag_data = data, frag_size = sz\<rparr>
                    rootKey macKey imageId = (Inr ef, t) \<and>
                  fst (decryptFragment P ef rootKey macKey imageId) = Inr data) \<and>
         (\<forall>canary. length canary = 16 \<longrightarrow>
            (\<exists>blob. CanaryService_embed data canary = Inr blob \<and>
                    CanaryService_strip blob = Inr data))"
proof (intro conjI allI impI)
  define c where "c = canary_of P rootKey i"
  define pt where "pt = data @ c @ canary_pad c"
  define aad where "aad = fragment_aad imageId i"
  define blob where "blob = iv @ fst (GCM_encrypt P rootKey iv aad pt)
                              @ snd (GCM_encrypt P rootKey iv aad pt)"
  define ef where "ef = \<lparr>ef_index = i, encryptedData = b64_encode P blob,
                         aadB64 = b64_encode P aad,
                         hmac = to_hex (HMAC_SHA256 P macKey blob), originalSize = sz\<rparr>"
  have lc: "length c = 16"
    using assms(1) by (simp add: c_def length_canary_of)
  have enc: "fst (encryptFragment P iv \<lparr>frag_index = i, frag_data = data, frag_size = sz\<rparr>
                    rootKey macKey imageId) = Inr ef"
    using assms by (simp add: encryptFragment_ok Let_def ef_def blob_def aad_def pt_def c_def)
  have b: "buffer_from_b64 P (b64_encode P blob) = blob"
    and j: "java_b64_decode P (encryptedData ef) = Some blob"
    using assms(3) by (simp_all add: b64_ok_def ef_def)
  have h: "hmac_matches P macKey ef"
    by (simp add: hmac_matches_def ef_def b)
  have a: "aad_matches P ef imageId"
    by (simp add: aad_matches_def ef_def aad_def)
  have g: "gcm_plaintext P rootKey blob imageId (ef_index ef) = Some pt"
    using native_gcm_round_trip [OF assms(2) assms(4) assms(5), of aad pt]
    by (simp add: gcm_plaintext_def blob_def ef_def aad_def)
  have ne: "pt \<noteq> []"
    using lc by (auto simp: pt_def)
  have v: "CanaryService_verify pt (canary_of P rootKey (ef_index ef))"
    using lc by (simp add: pt_def ef_def c_def [symmetric] verify_embedded)
  have "fst (decryptFragment P ef rootKey macKey imageId) = CanaryService_strip pt"
    using decrypt_step5 [OF assms(3) h a j g ne v] by simp
  then have dec: "fst (decryptFragment P ef rootKey macKey imageId) = Inr data"
    using lc by (simp add: pt_def strip_embedded)
  show "\<exists>ef t. encryptFragment P iv \<lparr>frag_index = i, frag_data = data, frag_size = sz\<rparr>
                    rootKey macKey imageId = (Inr ef, t) \<and>
                fst (decryptFragment P ef rootKey macKey imageId) = Inr data"
    using enc dec by (metis prod.collapse)
next
  fix canary :: bytes
  assume "length canary = 16"
  then show "\<exists>blob. CanaryService_embed data canary = Inr blob \<and> CanaryService_strip blob = Inr data"
    by (simp add: embed_closed_form strip_embedded)
qed

theorem C1_fragment_round_trip_witness:
  "(\<exists>ef t. encryptFragment toy_env iv0 \<lparr>frag_index = 0, frag_data = [1, 2, 3], frag_size = 3\<rparr>
               key0 hk0 ''ch42:0'' = (Inr ef, t) \<and>
            fst (decryptFragment toy_env ef key0 hk0 ''ch42:0'') = Inr [1, 2, 3]) \<and>
   (\<exists>blob. CanaryService_embed [1, 2, 3] (replicate 16 5) = Inr blob \<and>
           CanaryService_strip blob = Inr [1, 2, 3])"
proof -
  have k: "length key0 = 32" and v: "length iv0 = 12"
    by (simp_all add: key0_def iv0_def)
  show ?thesis
    using C1_fragment_round_trip [OF toy_hmac_ok toy_gcm_ok toy_b64_ok k v,
        of 0 "[1, 2, 3]" 3 hk0 "''ch42:0''"]
    by simp
qed

section \<open>Lemmas: the strict and the lenient decoder\<close>

lemma lenient_decode_encode: "lenient_decode (pair_encode bs) = bs"
  by (induction bs) (simp_all add: pair_encode_def toy_byte_char)

lemma strict_decode_encode: "strict_decode (pair_encode bs) = Some bs"
  by (induction bs) (simp_all add: pair_encode_def toy_byte_char)

lemma lenient_decode_trailing: "lenient_decode (pair_encode bs @ [c]) = bs"
  by (induction bs) (simp_all add: pair_encode_def toy_byte_char)

lemma strict_decode_trailing: "strict_decode (pair_encode bs @ [c]) = None"
  by (induction bs) (simp_all add: pair_encode_def)

lemma strict_b64_ok: "b64_ok strict_env"
  by (simp add: b64_ok_def strict_env_def toy_env_def lenient_decode_encode strict_decode_encode)
    (simp add: pair_encode_def)

lemma strict_hmac_ok: "hmac_ok strict_env"
  using toy_hmac_ok by (simp add: hmac_ok_def strict_env_def)

lemma strict_gcm_ok: "gcm_ok strict_env"
  using toy_gcm_ok by (simp add: gcm_ok_def strict_env_def)

lemma verify_length: "CanaryService_verify d c \<Longrightarrow> 32 \<le> length d"
  by (simp add: CanaryService_verify_def CANARY_TOTAL_OVERHEAD_def CANARY_LENGTH_def
      CANARY_TRAILING_PAD_def Let_def split: if_splits)

lemma decrypt_step5_taken:
  assumes "b64_ok P" "hmac_matches P hk ef" "aad_matches P ef imageId"
    "java_b64_decode P (encryptedData ef) = Some blob"
    "gcm_plaintext P key blob imageId (ef_index ef) = Some pt" "pt \<noteq> []"
    "CanaryService_verify pt (canary_of P key (ef_index ef))"
  shows "decryptFragment P ef key hk imageId
     = (Inr (take (length pt - 32) pt),
        [Native Call_hmacSHA256, Native Call_aesGCMDecrypt, Native Call_hkdf,
         Wipe (canary_of P key (ef_index ef))
              (replicate (length (canary_of P key (ef_index ef))) 0),
         Wipe pt (replicate (length pt) 0)])"
proof -
  have "32 \<le> length pt"
    using assms(7) by (rule verify_length)
  then have s: "CanaryService_strip pt = Inr (take (length pt - 32) pt)"
    by (simp add: CanaryService_strip_def CANARY_TOTAL_OVERHEAD_def CANARY_LENGTH_def
        CANARY_TRAILING_PAD_def)
  show ?thesis
    using decrypt_step5 [OF assms] by (simp add: s)
qed

text \<open>
  C2, as stated, fails at \<open>ef_empty\<close>: its HMAC, its AAD and its GCM tag all match (the
  native decryption yields the empty plaintext), the canary check would fail, and yet
  \<^verbatim>\<open>decryptFragment\<close> ends with the tag-mismatch error of \<^verbatim>\<open>CryptoEngine.decrypt\<close>
  (\<^verbatim>\<open>if (!ptB64) throw\<close>), not with the canary error.
\<close>

theorem C2_counterexample:
  "hmac_matches toy_env hk0 ef_empty \<and>
   aad_matches toy_env ef_empty ''ch42:0'' \<and>
   java_b64_decode toy_env (encryptedData ef_empty) = Some blob_empty \<and>
   gcm_plaintext toy_env key0 blob_empty ''ch42:0'' (ef_index ef_empty) = Some [] \<and>
   \<not> CanaryService_verify [] (canary_of toy_env key0 (ef_index ef_empty)) \<and>
   decryptFragment toy_env ef_empty key0 hk0 ''ch42:0''
     = (Inl AuthFail, [Native Call_hmacSHA256, Native Call_aesGCMDecrypt]) \<and>
   AuthFail \<noteq> CanaryFail"
proof -
  have h: "hmac_matches toy_env hk0 ef_empty"
    by (simp add: hmac_matches_def ef_empty_def toy_env_def toy_b64_round)
  have a: "aad_matches toy_env ef_empty ''ch42:0''"
    by (simp add: aad_matches_def ef_empty_def toy_env_def)
  have j: "java_b64_decode toy_env (encryptedData ef_empty) = Some blob_empty"
    by (simp add: ef_empty_def toy_env_def toy_b64_round)
  have g: "gcm_plaintext toy_env key0 blob_empty ''ch42:0'' (ef_index ef_empty) = Some []"
    by (simp add: gcm_plaintext_def nativeAESGCMDecrypt_def blob_empty_def key0_def iv0_def
        toy_tag_def aad_bytes_def ef_empty_def toy_env_def toy_gcm_decrypt_def)
  have v: "\<not> CanaryService_verify [] (canary_of toy_env key0 (ef_index ef_empty))"
    by (simp add: CanaryService_verify_def CANARY_TOTAL_OVERHEAD_def CANARY_LENGTH_def
        CANARY_TRAILING_PAD_def)
  show ?thesis
    using h a j g v decrypt_step3 [OF toy_b64_ok h a j] by simp
qed

text \<open>
  C2, amended. For every encrypted-fragment record, \<^verbatim>\<open>decryptFragment\<close> checks in this
  order and stops at the first failure:
  (1) HMAC over the bytes \<^verbatim>\<open>Buffer.from(encryptedData, 'base64')\<close> decodes: \<open>IntegrityFail\<close>,
      after the one HMAC call and before any AES call;
  (2) equality of \<open>aadB64\<close> with the Base64 of \<^verbatim>\<open>imageId:index\<close>: \<open>SubstitutionFail\<close>, before
      any AES call;
  (3) AES-GCM decryption in the bridge: the rejection \<^verbatim>\<open>AES_DEC_ERROR\<close> when the strict
      decoder of the bridge does not accept the text of \<open>encryptedData\<close> (which the lenient
      decoder of step 1 accepted); \<open>AuthFail\<close> when the native decryption returns nothing
      (tag mismatch) and also when it returns the empty plaintext;
  (4) canary bytes of a non-empty plaintext: \<open>CanaryFail\<close>, the canary and the plaintext
      overwritten with zeros before the error returns.
  A record that passes the four checks gives the plaintext without its 32 bytes of canary
  overhead, so every record falls under exactly one of these cases.
  In particular a record carrying the \<open>aadB64\<close> of any other (image, fragment) pair, with
  ciphertext and HMAC intact, ends with \<open>SubstitutionFail\<close> and no AES call.
\<close>

theorem C2_decrypt_checks_in_order:
  assumes "b64_ok P"
  shows
   "(\<not> hmac_matches P hk ef \<longrightarrow>
       decryptFragment P ef key hk imageId = (Inl IntegrityFail, [Native Call_hmacSHA256])) \<and>
    (hmac_matches P hk ef \<and> \<not> aad_matches P ef imageId \<longrightarrow>
       decryptFragment P ef key hk imageId = (Inl SubstitutionFail, [Native Call_hmacSHA256])) \<and>
    (hmac_matches P hk ef \<and> aad_matches P ef imageId \<and>
     java_b64_decode P (encryptedData ef) = None \<longrightarrow>
       decryptFragment P ef key hk imageId
         = (Inl (BridgeReject ''AES_DEC_ERROR''),
            [Native Call_hmacSHA256, Native Call_aesGCMDecrypt])) \<and>
    (hmac_matches P hk ef \<and> aad_matches P ef imageId \<and>
     java_b64_decode P (encryptedData ef) = Some blob \<and>
     (gcm_plaintext P key blob imageId (ef_index ef) = None \<or>
      gcm_plaintext P key blob imageId (ef_index ef) = Some []) \<longrightarrow>
       decryptFragment P ef key hk imageId
         = (Inl AuthFail, [Native Call_hmacSHA256, Native Call_aesGCMDecrypt])) \<and>
    (hmac_matches P hk ef \<and> aad_matches P ef imageId \<and>
     java_b64_decode P (encryptedData ef) = Some blob \<and>
     gcm_plaintext P key blob imageId (ef_index ef) = Some pt \<and> pt \<noteq> [] \<and>
     \<not> CanaryService_verify pt (canary_of P key (ef_index ef)) \<longrightarrow>
       decryptFragment P ef key hk imageId
         = (Inl CanaryFail,
            [Native Call_hmacSHA256, Native Call_aesGCMDecrypt, Native Call_hkdf,
             Wipe (canary_of P key (ef_index ef))
                  (replicate (length (canary_of P key (ef_index ef))) 0),
             Wipe pt (replicate (length pt) 0)])) \<and>
    (hmac_matches P hk ef \<and> aad_matches P ef imageId \<and>
     java_b64_decode P (encryptedData ef) = Some blob \<and>
     gcm_plaintext P key blob imageId (ef_index ef) = Some pt \<and> pt \<noteq> [] \<and>
     CanaryService_verify pt (canary_of P key (ef_index ef)) \<longrightarrow>
       decryptFragment P ef key hk imageId
         = (Inr (take (length pt - 32) pt),
            [Native Call_hmacSHA256, Native Call_aesGCMDecrypt, Native Call_hkdf,
             Wipe (canary_of P key (ef_index ef))
                  (replicate (length (canary_of P key (ef_index ef))) 0),
             Wipe pt (replicate (length pt) 0)])) \<and>
    (hmac_matches P hk ef \<and> aadB64 ef = b64_encode P (fragment_aad imageId' j) \<and>
     (imageId', j) \<noteq> (imageId, ef_index ef) \<longrightarrow>
       decryptFragment P ef key hk imageId = (Inl SubstitutionFail, [Native Call_hmacSHA256]))"
proof (intro conjI impI)
  assume "\<not> hmac_matches P hk ef"
  then show "decryptFragment P ef key hk imageId = (Inl IntegrityFail, [Native Call_hmacSHA256])"
    by (rule decrypt_step1 [OF assms])
next
  assume "hmac_matches P hk ef \<and> \<not> aad_matches P ef imageId"
  then show "decryptFragment P ef key hk imageId = (Inl SubstitutionFail, [Native Call_hmacSHA256])"
    by (simp add: decrypt_step2 [OF assms])
next
  assume "hmac_matches P hk ef \<and> aad_matches P ef imageId \<and>
     java_b64_decode P (encryptedData ef) = None"
  then show "decryptFragment P ef key hk imageId
         = (Inl (BridgeReject ''AES_DEC_ERROR''),
            [Native Call_hmacSHA256, Native Call_aesGCMDecrypt])"
    using decrypt_step3_undecodable [OF assms, of hk ef imageId key] by simp
next
  assume "hmac_matches P hk ef \<and> aad_matches P ef imageId \<and>
     java_b64_decode P (encryptedData ef) = Some blob \<and>
     (gcm_plaintext P key blob imageId (ef_index ef) = None \<or>
      gcm_plaintext P key blob imageId (ef_index ef) = Some [])"
  then show "decryptFragment P ef key hk imageId
         = (Inl AuthFail, [Native Call_hmacSHA256, Native Call_aesGCMDecrypt])"
    using decrypt_step3 [OF assms, of hk ef imageId blob key] by simp
next
  assume "hmac_matches P hk ef \<and> aad_matches P ef imageId \<and>
     java_b64_decode P (encryptedData ef) = Some blob \<and>
     gcm_plaintext P key blob imageId (ef_index ef) = Some pt \<and> pt \<noteq> [] \<and>
     \<not> CanaryService_verify pt (canary_of P key (ef_index ef))"
  then show "decryptFragment P ef key hk imageId
         = (Inl CanaryFail,
            [Native Call_hmacSHA256, Native Call_aesGCMDecrypt, Native Call_hkdf,
             Wipe (canary_of P key (ef_index ef))
                  (replicate (length (canary_of P key (ef_index ef))) 0),
             Wipe pt (replicate (length pt) 0)])"
    using decrypt_step4 [OF assms, of hk ef imageId blob key pt] by simp
next
  assume "hmac_matches P hk ef \<and> aad_matches P ef imageId \<and>
     java_b64_decode P (encryptedData ef) = Some blob \<and>
     gcm_plaintext P key blob imageId (ef_index ef) = Some pt \<and> pt \<noteq> [] \<and>
     CanaryService_verify pt (canary_of P key (ef_index ef))"
  then show "decryptFragment P ef key hk imageId
         = (Inr (take (length pt - 32) pt),
            [Native Call_hmacSHA256, Native Call_aesGCMDecrypt, Native Call_hkdf,
             Wipe (canary_of P key (ef_index ef))
                  (replicate (length (canary_of P key (ef_index ef))) 0),
             Wipe pt (replicate (length pt) 0)])"
    using decrypt_step5_taken [OF assms, of hk ef imageId blob key pt] by simp
next
  assume s: "hmac_matches P hk ef \<and> aadB64 ef = b64_encode P (fragment_aad imageId' j) \<and>
     (imageId', j) \<noteq> (imageId, ef_index ef)"
  then have "\<not> aad_matches P ef imageId"
    using swapped_aad_mismatch [OF assms, of ef imageId' j imageId] by simp
  with s show "decryptFragment P ef key hk imageId = (Inl SubstitutionFail, [Native Call_hmacSHA256])"
    by (simp add: decrypt_step2 [OF assms])
qed

text \<open>
  One record for each case: a wrong HMAC; the \<open>aadB64\<close> of fragment 1 of the same image on
  the record of fragment 0; \<open>ef_newline\<close>, which only the lenient decoder reads;
  \<open>ef_empty\<close>; \<open>ef_nocanary\<close>; and the intact record \<open>ef_ok\<close>.
\<close>

theorem C2_decrypt_checks_in_order_witness:
  "decryptFragment toy_env (ef_empty\<lparr>hmac := ''00''\<rparr>) key0 hk0 ''ch42:0''
     = (Inl IntegrityFail, [Native Call_hmacSHA256]) \<and>
   decryptFragment toy_env (ef_empty\<lparr>aadB64 := toy_b64_encode (fragment_aad ''ch42:0'' 1)\<rparr>)
       key0 hk0 ''ch42:0''
     = (Inl SubstitutionFail, [Native Call_hmacSHA256]) \<and>
   hmac_matches strict_env hk0 ef_newline \<and> aad_matches strict_env ef_newline ''ch42:0'' \<and>
   buffer_from_b64 strict_env (encryptedData ef_newline) = blob_ok \<and>
   java_b64_decode strict_env (encryptedData ef_newline) = None \<and>
   decryptFragment strict_env ef_newline key0 hk0 ''ch42:0''
     = (Inl (BridgeReject ''AES_DEC_ERROR''), [Native Call_hmacSHA256, Native Call_aesGCMDecrypt]) \<and>
   decryptFragment toy_env ef_empty key0 hk0 ''ch42:0''
     = (Inl AuthFail, [Native Call_hmacSHA256, Native Call_aesGCMDecrypt]) \<and>
   decryptFragment toy_env ef_nocanary key0 hk0 ''ch42:0''
     = (Inl CanaryFail,
        [Native Call_hmacSHA256, Native Call_aesGCMDecrypt, Native Call_hkdf,
         Wipe (replicate 16 0) (replicate 16 0), Wipe (replicate 32 1) (replicate 32 0)]) \<and>
   decryptFragment toy_env ef_ok key0 hk0 ''ch42:0''
     = (Inr [1, 2, 3],
        [Native Call_hmacSHA256, Native Call_aesGCMDecrypt, Native Call_hkdf,
         Wipe (replicate 16 0) (replicate 16 0), Wipe pt_ok (replicate 35 0)])"
proof -
  have h: "hmac_matches toy_env hk0 ef_empty"
    by (simp add: hmac_matches_def ef_empty_def toy_env_def toy_b64_round)
  have a: "aad_matches toy_env ef_empty ''ch42:0''"
    by (simp add: aad_matches_def ef_empty_def toy_env_def)
  have j: "java_b64_decode toy_env (encryptedData ef_empty) = Some blob_empty"
    by (simp add: ef_empty_def toy_env_def toy_b64_round)
  have g: "gcm_plaintext toy_env key0 blob_empty ''ch42:0'' (ef_index ef_empty) = Some []"
    by (simp add: gcm_plaintext_def nativeAESGCMDecrypt_def blob_empty_def key0_def iv0_def
        toy_tag_def aad_bytes_def ef_empty_def toy_env_def toy_gcm_decrypt_def)
  have nh: "hmac_matches toy_env hk0 ef_nocanary"
    by (simp add: hmac_matches_def ef_nocanary_def toy_env_def toy_b64_round)
  have na: "aad_matches toy_env ef_nocanary ''ch42:0''"
    by (simp add: aad_matches_def ef_nocanary_def toy_env_def)
  have nj: "java_b64_decode toy_env (encryptedData ef_nocanary) = Some blob_nocanary"
    by (simp add: ef_nocanary_def toy_env_def toy_b64_round)
  have ng: "gcm_plaintext toy_env key0 blob_nocanary ''ch42:0'' (ef_index ef_nocanary)
      = Some pt_nocanary"
    using native_gcm_round_trip [OF toy_gcm_ok, of key0 iv0 "fragment_aad ''ch42:0'' 0" pt_nocanary]
    by (simp add: gcm_plaintext_def blob_nocanary_def ef_nocanary_def key0_def iv0_def toy_env_def)
  have nc: "canary_of toy_env key0 (ef_index ef_nocanary) = replicate 16 0"
    by (simp add: canary_of_def hkdf_okm_def hkdf_expand_one_block toy_env_def toy_hmac_def)
  have nv: "\<not> CanaryService_verify pt_nocanary (canary_of toy_env key0 (ef_index ef_nocanary))"
    by (simp add: nc verify_iff pt_nocanary_def)
  have ne: "pt_nocanary \<noteq> []"
    by (simp add: pt_nocanary_def)
  have l: "length (to_hex (toy_hmac hk0 blob_empty)) = 64"
    by (simp add: to_hex_def toy_hmac_def byte_hex_def length_concat comp_def sum_list_replicate)
  have h': "\<not> hmac_matches toy_env hk0 (ef_empty\<lparr>hmac := ''00''\<rparr>)"
    using l by (auto simp: hmac_matches_def ef_empty_def toy_env_def toy_b64_round)
  have s: "hmac_matches toy_env hk0 (ef_empty\<lparr>aadB64 := toy_b64_encode (fragment_aad ''ch42:0'' 1)\<rparr>)"
    using h by (simp add: hmac_matches_def)
  have s': "aadB64 (ef_empty\<lparr>aadB64 := toy_b64_encode (fragment_aad ''ch42:0'' 1)\<rparr>)
      = b64_encode toy_env (fragment_aad ''ch42:0'' 1)"
    by (simp add: toy_env_def)
  have i: "ef_index (ef_empty\<lparr>aadB64 := toy_b64_encode (fragment_aad ''ch42:0'' 1)\<rparr>) = 0"
    by (simp add: ef_empty_def)
  have uh: "hmac_matches strict_env hk0 ef_newline"
    by (simp add: hmac_matches_def ef_newline_def strict_env_def toy_env_def
        lenient_decode_trailing)
  have ua: "aad_matches strict_env ef_newline ''ch42:0''"
    by (simp add: aad_matches_def ef_newline_def strict_env_def)
  have ub: "buffer_from_b64 strict_env (encryptedData ef_newline) = blob_ok"
    by (simp add: ef_newline_def strict_env_def lenient_decode_trailing)
  have uj: "java_b64_decode strict_env (encryptedData ef_newline) = None"
    by (simp add: ef_newline_def strict_env_def strict_decode_trailing)
  have oc: "canary_of toy_env key0 0 = replicate 16 0"
    by (simp add: canary_of_def hkdf_okm_def hkdf_expand_one_block toy_env_def toy_hmac_def)
  have oh: "hmac_matches toy_env hk0 ef_ok"
    by (simp add: hmac_matches_def ef_ok_def toy_env_def toy_b64_round)
  have oa: "aad_matches toy_env ef_ok ''ch42:0''"
    by (simp add: aad_matches_def ef_ok_def toy_env_def)
  have oj: "java_b64_decode toy_env (encryptedData ef_ok) = Some blob_ok"
    by (simp add: ef_ok_def toy_env_def toy_b64_round)
  have og: "gcm_plaintext toy_env key0 blob_ok ''ch42:0'' (ef_index ef_ok) = Some pt_ok"
    using native_gcm_round_trip [OF toy_gcm_ok, of key0 iv0 "fragment_aad ''ch42:0'' 0" pt_ok]
    by (simp add: gcm_plaintext_def blob_ok_def ef_ok_def key0_def iv0_def toy_env_def)
  have oi: "ef_index ef_ok = 0"
    by (simp add: ef_ok_def)
  have ol: "length pt_ok = 35"
    by (simp add: pt_ok_def oc canary_pad_def CANARY_TRAILING_PAD_def)
  have on: "pt_ok \<noteq> []"
    by (simp add: pt_ok_def)
  have ov: "CanaryService_verify pt_ok (canary_of toy_env key0 (ef_index ef_ok))"
    using verify_embedded [of "canary_of toy_env key0 0" "[1, 2, 3]"]
    by (simp add: pt_ok_def oi oc)
  have ot: "take 3 pt_ok = [1, 2, 3]"
    by (simp add: pt_ok_def)
  have c1: "decryptFragment toy_env (ef_empty\<lparr>hmac := ''00''\<rparr>) key0 hk0 ''ch42:0''
     = (Inl IntegrityFail, [Native Call_hmacSHA256])"
    using C2_decrypt_checks_in_order [OF toy_b64_ok,
        of hk0 "ef_empty\<lparr>hmac := ''00''\<rparr>" key0 "''ch42:0''"] h'
    by simp
  have c2: "decryptFragment toy_env
       (ef_empty\<lparr>aadB64 := toy_b64_encode (fragment_aad ''ch42:0'' 1)\<rparr>) key0 hk0 ''ch42:0''
     = (Inl SubstitutionFail, [Native Call_hmacSHA256])"
    using C2_decrypt_checks_in_order [OF toy_b64_ok,
        of hk0 "ef_empty\<lparr>aadB64 := toy_b64_encode (fragment_aad ''ch42:0'' 1)\<rparr>"
           key0 "''ch42:0''" _ _ "''ch42:0''" 1] s s' i
    by simp
  have c3: "decryptFragment strict_env ef_newline key0 hk0 ''ch42:0''
     = (Inl (BridgeReject ''AES_DEC_ERROR''), [Native Call_hmacSHA256, Native Call_aesGCMDecrypt])"
    using C2_decrypt_checks_in_order [OF strict_b64_ok, of hk0 ef_newline key0 "''ch42:0''"]
      uh ua uj
    by simp
  have c4: "decryptFragment toy_env ef_empty key0 hk0 ''ch42:0''
     = (Inl AuthFail, [Native Call_hmacSHA256, Native Call_aesGCMDecrypt])"
    using C2_decrypt_checks_in_order [OF toy_b64_ok, of hk0 ef_empty key0 "''ch42:0''" blob_empty]
      h a j g
    by simp
  have c5: "decryptFragment toy_env ef_nocanary key0 hk0 ''ch42:0''
     = (Inl CanaryFail,
        [Native Call_hmacSHA256, Native Call_aesGCMDecrypt, Native Call_hkdf,
         Wipe (replicate 16 0) (replicate 16 0), Wipe (replicate 32 1) (replicate 32 0)])"
    using C2_decrypt_checks_in_order [OF toy_b64_ok,
        of hk0 ef_nocanary key0 "''ch42:0''" blob_nocanary pt_nocanary]
      nh na nj ng nv ne nc
    by (simp add: pt_nocanary_def)
  have c6: "decryptFragment toy_env ef_ok key0 hk0 ''ch42:0''
     = (Inr [1, 2, 3],
        [Native Call_hmacSHA256, Native Call_aesGCMDecrypt, Native Call_hkdf,
         Wipe (replicate 16 0) (replicate 16 0), Wipe pt_ok (replicate 35 0)])"
    using C2_decrypt_checks_in_order [OF toy_b64_ok,
        of hk0 ef_ok key0 "''ch42:0''" blob_ok pt_ok]
      oh oa oj og on ov
    by (simp add: oi oc ol ot)
  from c1 c2 uh ua ub uj c3 c4 c5 c6 show ?thesis
    by simp
qed

section \<open>Theorems: SecurityOrchestrator\<close>












section \<open>Theorems: EphemeralKeyService\<close>

text \<open>
  C10. When the session memory salt is null, \<^verbatim>\<open>buildBundle\<close> does not fail, crosses
  the bridge for nothing (no random bytes are drawn) and leaves the state as it is: it
  returns the bundle of its four arguments with a memory salt of 16 zero bytes. The
  ephemeral key derived from that bundle is then a function of the chapter root key and
  the four non-random fields alone.
\<close>

theorem C10_buildBundle_null_salt:
  assumes "eks_memorySalt st = None"
  shows "buildBundle st f v c b
           = ((Inr \<lparr>bootTime = b, frameCounter = f, scrollVelocity = v, chunkIndex = c,
                     memorySalt = replicate 16 0\<rparr>, []), st) \<and>
         io_bind (fst (buildBundle st f v c b)) (deriveEphemeralKey P key)
           = deriveEphemeralKey P key
               \<lparr>bootTime = b, frameCounter = f, scrollVelocity = v, chunkIndex = c,
                memorySalt = replicate 16 0\<rparr>"
  using assms by (simp add: buildBundle_def SALT_LEN_def io_return_def)

theorem C10_buildBundle_null_salt_witness:
  "eks_memorySalt (app0\<lparr>eks_memorySalt := None\<rparr>) = None \<and>
   buildBundle (app0\<lparr>eks_memorySalt := None\<rparr>) 3 (1 / 2) 0 1700000000000
     = ((Inr \<lparr>bootTime = 1700000000000, frameCounter = 3, scrollVelocity = 1 / 2, chunkIndex = 0,
               memorySalt = replicate 16 0\<rparr>, []), app0\<lparr>eks_memorySalt := None\<rparr>) \<and>
   io_bind (fst (buildBundle (app0\<lparr>eks_memorySalt := None\<rparr>) 3 (1 / 2) 0 1700000000000))
       (deriveEphemeralKey toy_env key0)
     = deriveEphemeralKey toy_env key0
         \<lparr>bootTime = 1700000000000, frameCounter = 3, scrollVelocity = 1 / 2, chunkIndex = 0,
          memorySalt = replicate 16 0\<rparr>"
proof -
  have a: "eks_memorySalt (app0\<lparr>eks_memorySalt := None\<rparr>) = None"
    by simp
  show ?thesis
    using a C10_buildBundle_null_salt [OF a, of 3 "1 / 2" 0 1700000000000 toy_env key0]
    by simp
qed

section \<open>Theorems: FragmentEngine.split\<close>

lemma fragment_size_le: "fragment_size r remaining \<le> remaining"
proof -
  define A where "A = min FRAGMENT_MIN_SIZE remaining"
  define B where "B = min FRAGMENT_MAX_SIZE remaining"
  have f: "fragment_size r remaining = A + (if B > A then rand_below r (B - A) else 0)"
    by (simp add: fragment_size_def Let_def A_def B_def)
  have ab: "A \<le> remaining" "B \<le> remaining"
    by (simp_all add: A_def B_def)
  show ?thesis
  proof (cases "B > A")
    case True
    then have "rand_below r (B - A) < B - A"
      by (intro rand_below_less) simp
    with True ab f show ?thesis
      by simp
  next
    case False
    with ab f show ?thesis
      by simp
  qed
qed

lemma fragment_size_whole:
  "remaining \<le> FRAGMENT_MIN_SIZE \<Longrightarrow> fragment_size r remaining = remaining"
  by (simp add: fragment_size_def Let_def FRAGMENT_MIN_SIZE_def FRAGMENT_MAX_SIZE_def)

lemma fragment_size_range:
  assumes "FRAGMENT_MIN_SIZE < remaining"
  shows "FRAGMENT_MIN_SIZE \<le> fragment_size r remaining"
    and "fragment_size r remaining < FRAGMENT_MAX_SIZE"
    and "fragment_size r remaining < remaining"
proof -
  define B where "B = min FRAGMENT_MAX_SIZE remaining"
  have m: "min FRAGMENT_MIN_SIZE remaining = FRAGMENT_MIN_SIZE"
    using assms by simp
  have x: "B > FRAGMENT_MIN_SIZE"
    using assms by (simp add: B_def FRAGMENT_MIN_SIZE_def FRAGMENT_MAX_SIZE_def)
  have b: "B \<le> FRAGMENT_MAX_SIZE" "B \<le> remaining"
    by (simp_all add: B_def)
  have f: "fragment_size r remaining = FRAGMENT_MIN_SIZE + rand_below r (B - FRAGMENT_MIN_SIZE)"
    using x by (simp add: fragment_size_def Let_def m B_def [symmetric])
  have rb: "rand_below r (B - FRAGMENT_MIN_SIZE) < B - FRAGMENT_MIN_SIZE"
    using x by (intro rand_below_less) simp
  show "FRAGMENT_MIN_SIZE \<le> fragment_size r remaining"
    using f by simp
  show "fragment_size r remaining < FRAGMENT_MAX_SIZE"
    using f rb b x by linarith
  show "fragment_size r remaining < remaining"
    using f rb b x by linarith
qed

text \<open>One unfolding of the loop, in both cases.\<close>

lemma split_loop_step:
  "offset < length raw \<Longrightarrow>
   split_loop rnd raw offset index k
     = \<lparr>frag_index = index,
        frag_data = take (fragment_size (rnd k) (length raw - offset)) (drop offset raw),
        frag_size = fragment_size (rnd k) (length raw - offset)\<rparr>
       # split_loop rnd raw (offset + fragment_size (rnd k) (length raw - offset)) (index + 1)
           (if draws_size (length raw - offset) then k + 1 else k)"
  by (subst split_loop.simps) simp

lemma split_loop_done:
  "\<not> offset < length raw \<Longrightarrow> split_loop rnd raw offset index k = []"
  by (subst split_loop.simps) simp

lemma split_loop_concat:
  "offset \<le> length raw \<Longrightarrow>
   concat (map frag_data (split_loop rnd raw offset index k)) = drop offset raw"
proof (induction rnd raw offset index k rule: split_loop.induct)
  case (1 rnd raw offset index k)
  show ?case
  proof (cases "offset < length raw")
    case True
    let ?s = "fragment_size (rnd k) (length raw - offset)"
    have le: "offset + ?s \<le> length raw"
      using fragment_size_le [of "rnd k" "length raw - offset"] True by simp
    have ih: "concat (map frag_data (split_loop rnd raw (offset + ?s) (index + 1)
            (if draws_size (length raw - offset) then k + 1 else k))) = drop (offset + ?s) raw"
      using "1.IH" [OF True le] .
    have "drop (offset + ?s) raw = drop ?s (drop offset raw)"
      by (simp add: add.commute)
    with ih have "concat (map frag_data (split_loop rnd raw offset index k))
        = take ?s (drop offset raw) @ drop ?s (drop offset raw)"
      by (simp only: split_loop_step [OF True] list.map concat.simps RawFragment.simps)
    then show ?thesis
      by (simp only: append_take_drop_id)
  next
    case False
    then show ?thesis
      using "1.prems" by (simp add: split_loop_done)
  qed
qed

lemma split_loop_index:
  "map frag_index (split_loop rnd raw offset index k)
     = [index..<index + length (split_loop rnd raw offset index k)]"
proof (induction rnd raw offset index k rule: split_loop.induct)
  case (1 rnd raw offset index k)
  show ?case
  proof (cases "offset < length raw")
    case True
    let ?rest = "split_loop rnd raw (offset + fragment_size (rnd k) (length raw - offset))
        (index + 1) (if draws_size (length raw - offset) then k + 1 else k)"
    have ih: "map frag_index ?rest = [index + 1..<index + 1 + length ?rest]"
      using "1.IH" [OF True] .
    have "[index..<index + length (split_loop rnd raw offset index k)]
        = index # [index + 1..<index + 1 + length ?rest]"
      by (subst upt_rec) (simp add: split_loop_step [OF True])
    then show ?thesis
      using ih by (simp add: split_loop_step [OF True])
  next
    case False
    then show ?thesis
      by (simp add: split_loop_done)
  qed
qed

lemma split_loop_sizes:
  "offset \<le> length raw \<Longrightarrow> f \<in> set (split_loop rnd raw offset index k) \<Longrightarrow>
   frag_size f = length (frag_data f) \<and> 0 < frag_size f"
proof (induction rnd raw offset index k rule: split_loop.induct)
  case (1 rnd raw offset index k)
  show ?case
  proof (cases "offset < length raw")
    case True
    let ?s = "fragment_size (rnd k) (length raw - offset)"
    have le: "offset + ?s \<le> length raw" and le': "?s \<le> length raw - offset"
      using fragment_size_le [of "rnd k" "length raw - offset"] True by simp_all
    have pos: "0 < ?s"
      using True by (simp add: fragment_size_pos)
    from "1.prems"(2)
    consider "f = \<lparr>frag_index = index, frag_data = take ?s (drop offset raw), frag_size = ?s\<rparr>"
      | "f \<in> set (split_loop rnd raw (offset + ?s) (index + 1)
            (if draws_size (length raw - offset) then k + 1 else k))"
      by (auto simp: split_loop_step [OF True])
    then show ?thesis
    proof cases
      case 1
      then show ?thesis
        using le' pos by simp
    next
      case 2
      show ?thesis
        using "1.IH" [OF True le 2] .
    qed
  next
    case False
    then show ?thesis
      using "1.prems" by (simp add: split_loop_done)
  qed
qed

lemma split_loop_butlast:
  "offset \<le> length raw \<Longrightarrow> f \<in> set (butlast (split_loop rnd raw offset index k)) \<Longrightarrow>
   FRAGMENT_MIN_SIZE \<le> frag_size f \<and> frag_size f < FRAGMENT_MAX_SIZE"
proof (induction rnd raw offset index k rule: split_loop.induct)
  case (1 rnd raw offset index k)
  show ?case
  proof (cases "offset < length raw")
    case True
    let ?s = "fragment_size (rnd k) (length raw - offset)"
    let ?rest = "split_loop rnd raw (offset + ?s) (index + 1)
            (if draws_size (length raw - offset) then k + 1 else k)"
    have le: "offset + ?s \<le> length raw"
      using fragment_size_le [of "rnd k" "length raw - offset"] True by simp
    have unfold: "split_loop rnd raw offset index k
        = \<lparr>frag_index = index, frag_data = take ?s (drop offset raw), frag_size = ?s\<rparr> # ?rest"
      by (rule split_loop_step [OF True])
    show ?thesis
    proof (cases "?rest = []")
      case True
      then show ?thesis
        using "1.prems"(2) by (simp add: unfold)
    next
      case False
      then have more: "offset + ?s < length raw"
        using split_loop_done [of "offset + ?s" raw rnd] by blast
      have big: "FRAGMENT_MIN_SIZE < length raw - offset"
      proof (rule ccontr)
        assume "\<not> FRAGMENT_MIN_SIZE < length raw - offset"
        then have "?s = length raw - offset"
          by (simp add: fragment_size_whole)
        with more show False
          by simp
      qed
      from "1.prems"(2) False
      consider "f = \<lparr>frag_index = index, frag_data = take ?s (drop offset raw), frag_size = ?s\<rparr>"
        | "f \<in> set (butlast ?rest)"
        by (auto simp: unfold)
      then show ?thesis
      proof cases
        case 1
        then show ?thesis
          using fragment_size_range(1,2) [OF big, of "rnd k"] by simp
      next
        case 2
        show ?thesis
          using "1.IH" [OF \<open>offset < length raw\<close> le 2] .
      qed
    qed
  next
    case False
    then show ?thesis
      using "1.prems" by (simp add: split_loop_done)
  qed
qed

lemma concat_slices:
  "i < length xss \<Longrightarrow>
   xss ! i = take (length (xss ! i)) (drop (sum_list (map length (take i xss))) (concat xss))"
proof (induction xss arbitrary: i)
  case Nil
  then show ?case by simp
next
  case (Cons xs xss)
  show ?case
  proof (cases i)
    case 0
    then show ?thesis by simp
  next
    case (Suc j)
    then show ?thesis
      using Cons.IH [of j] Cons.prems by simp
  qed
qed

lemma split_small:
  assumes "raw \<noteq> []" "length raw \<le> FRAGMENT_MIN_SIZE"
  shows "split rnd raw = [\<lparr>frag_index = 0, frag_data = raw, frag_size = length raw\<rparr>]"
proof -
  have p: "0 < length raw"
    using assms(1) by simp
  have s: "fragment_size (rnd 0) (length raw) = length raw"
    using assms(2) by (simp add: fragment_size_whole)
  show ?thesis
    unfolding split_def
    by (simp add: split_loop_step [OF p] s split_loop_done)
qed

lemma split_sizes_are_lengths:
  "map frag_size (split rnd raw) = map length (map frag_data (split rnd raw))"
  using split_loop_sizes [of 0 raw _ rnd 0 0]
  by (simp add: split_def)

text \<open>
  C6. For every input and every sequence of random choices, the fragments of
  \<^verbatim>\<open>split\<close> concatenate to the input in index order (indices 0, 1, 2, ...); fragment
  \<open>i\<close> is the non-empty slice that starts where fragment \<open>i - 1\<close> ended (at the sum of the
  earlier sizes) and has its \<open>size\<close> bytes; every fragment but the last has a size in
  [51200, 204800); the empty input gives no fragment; a non-empty input shorter than
  \<open>FRAGMENT_MIN_SIZE\<close> gives the one fragment that is the whole input.
\<close>

theorem C6_split_covers:
  "concat (map frag_data (split rnd raw)) = raw \<and>
   map frag_index (split rnd raw) = [0..<length (split rnd raw)] \<and>
   (\<forall>i < length (split rnd raw).
      0 < frag_size (split rnd raw ! i) \<and>
      frag_data (split rnd raw ! i)
        = take (frag_size (split rnd raw ! i))
            (drop (sum_list (map frag_size (take i (split rnd raw)))) raw)) \<and>
   (\<forall>f \<in> set (butlast (split rnd raw)).
      FRAGMENT_MIN_SIZE \<le> frag_size f \<and> frag_size f < FRAGMENT_MAX_SIZE) \<and>
   (raw = [] \<longrightarrow> split rnd raw = []) \<and>
   (raw \<noteq> [] \<and> length raw < FRAGMENT_MIN_SIZE \<longrightarrow>
      split rnd raw = [\<lparr>frag_index = 0, frag_data = raw, frag_size = length raw\<rparr>])"
proof (intro conjI allI impI ballI)
  show c: "concat (map frag_data (split rnd raw)) = raw"
    using split_loop_concat [of 0 raw rnd 0 0] by (simp add: split_def)
  show "map frag_index (split rnd raw) = [0..<length (split rnd raw)]"
    using split_loop_index [of rnd raw 0 0 0] by (simp add: split_def)
  show "raw = [] \<Longrightarrow> split rnd raw = []"
    by (simp add: split_def split_loop_done)
  show "raw \<noteq> [] \<and> length raw < FRAGMENT_MIN_SIZE \<Longrightarrow>
      split rnd raw = [\<lparr>frag_index = 0, frag_data = raw, frag_size = length raw\<rparr>]"
    by (simp add: split_small)
  show "\<And>f. f \<in> set (butlast (split rnd raw)) \<Longrightarrow> FRAGMENT_MIN_SIZE \<le> frag_size f"
    "\<And>f. f \<in> set (butlast (split rnd raw)) \<Longrightarrow> frag_size f < FRAGMENT_MAX_SIZE"
    using split_loop_butlast [of 0 raw _ rnd 0 0] by (simp_all add: split_def)
  fix i
  assume i: "i < length (split rnd raw)"
  then have m: "split rnd raw ! i \<in> set (split rnd raw)"
    by simp
  have both: "frag_size (split rnd raw ! i) = length (frag_data (split rnd raw ! i)) \<and>
      0 < frag_size (split rnd raw ! i)"
    using split_loop_sizes [of 0 raw "split rnd raw ! i" rnd 0 0] m
    unfolding split_def by blast
  then show "0 < frag_size (split rnd raw ! i)"
    by blast
  have l: "frag_size (split rnd raw ! i) = length (frag_data (split rnd raw ! i))"
    using both by blast
  have "map frag_data (split rnd raw) ! i
      = take (length (map frag_data (split rnd raw) ! i))
          (drop (sum_list (map length (take i (map frag_data (split rnd raw)))))
             (concat (map frag_data (split rnd raw))))"
    using i by (intro concat_slices) simp
  moreover have "map length (take i (map frag_data (split rnd raw)))
      = map frag_size (take i (split rnd raw))"
  proof -
    have "map length (take i (map frag_data (split rnd raw)))
        = take i (map length (map frag_data (split rnd raw)))"
      by (simp only: take_map)
    also have "\<dots> = take i (map frag_size (split rnd raw))"
      by (simp only: split_sizes_are_lengths)
    also have "\<dots> = map frag_size (take i (split rnd raw))"
      by (simp only: take_map)
    finally show ?thesis .
  qed
  ultimately show "frag_data (split rnd raw ! i)
        = take (frag_size (split rnd raw ! i))
            (drop (sum_list (map frag_size (take i (split rnd raw)))) raw)"
    using i l c by simp
qed

lemma split_250000:
  "split half_draws (replicate 250000 0xAA)
     = [\<lparr>frag_index = 0, frag_data = replicate 128000 0xAA, frag_size = 128000\<rparr>,
        \<lparr>frag_index = 1, frag_data = replicate 86600 0xAA, frag_size = 86600\<rparr>,
        \<lparr>frag_index = 2, frag_data = replicate 35400 0xAA, frag_size = 35400\<rparr>]"
proof -
  have a: "\<And>k. fragment_size (half_draws k) 250000 = 128000"
    "\<And>k. fragment_size (half_draws k) 122000 = 86600"
    "\<And>k. fragment_size (half_draws k) 35400 = 35400"
    by (simp_all add: fragment_size_def FRAGMENT_MIN_SIZE_def FRAGMENT_MAX_SIZE_def
        rand_below_draw_of Let_def half_draws_def)
  show ?thesis
    unfolding split_def
    by (simp add: split_loop_step split_loop_done a)
qed

theorem C6_split_covers_witness:
  "split half_draws [1, 2, 3] = [\<lparr>frag_index = 0, frag_data = [1, 2, 3], frag_size = 3\<rparr>] \<and>
   split half_draws [] = [] \<and>
   concat (map frag_data (split half_draws (replicate 250000 0xAA))) = replicate 250000 0xAA \<and>
   map frag_size (butlast (split half_draws (replicate 250000 0xAA))) = [128000, 86600]"
proof -
  have s: "([1, 2, 3] :: bytes) \<noteq> [] \<and> length ([1, 2, 3] :: bytes) < FRAGMENT_MIN_SIZE"
    by (simp add: FRAGMENT_MIN_SIZE_def)
  show ?thesis
    using C6_split_covers [of half_draws "[1, 2, 3]"]
      C6_split_covers [of half_draws "[]"]
      C6_split_covers [of half_draws "replicate 250000 0xAA"]
      s split_250000
    by simp
qed

section \<open>Theorems: VirtualDecryptor\<close>

lemma filter_splice_insert:
  assumes "\<not> Q x"
  shows "filter Q (splice_insert pos x steps) = filter Q steps"
proof -
  have "filter Q (splice_insert pos x steps) = filter Q (take pos steps) @ filter Q (drop pos steps)"
    using assms by (simp add: splice_insert_def)
  also have "\<dots> = filter Q (take pos steps @ drop pos steps)"
    by (simp only: filter_append)
  also have "\<dots> = filter Q steps"
    by (simp only: append_take_drop_id)
  finally show ?thesis .
qed

lemma count_splice_insert:
  "count_list (splice_insert pos x steps) y = count_list steps y + (if x = y then 1 else 0)"
proof -
  have "count_list (take pos steps) y + count_list (drop pos steps) y
      = count_list (take pos steps @ drop pos steps) y"
    by (simp only: count_list_append)
  also have "\<dots> = count_list steps y"
    by (simp only: append_take_drop_id)
  finally show ?thesis
    by (simp add: splice_insert_def)
qed

lemma filter_inject:
  "\<not> Q x \<Longrightarrow> filter Q (inject x count rnd k steps) = filter Q steps"
  by (induction count arbitrary: k steps) (simp_all add: filter_splice_insert)

lemma count_inject:
  "count_list (inject x count rnd k steps) y = count_list steps y + (if x = y then count else 0)"
  by (induction count arbitrary: k steps) (simp_all add: count_splice_insert)

lemma buildProgram_real:
  "filter is_real (orderedSteps (buildProgram rnd i entropy)) = real_steps"
  by (simp add: buildProgram_def Let_def filter_inject is_real_def del: inject.simps)
     (simp add: real_steps_def is_real_def)

lemma buildProgram_counts:
  "count_list (orderedSteps (buildProgram rnd i entropy)) DECOY_INJECT = 2 + rand_below (rnd 0) 3"
  "count_list (orderedSteps (buildProgram rnd i entropy)) DUMMY_SPIN
     = 1 + rand_below (rnd (1 + (2 + rand_below (rnd 0) 3))) 3"
  by (simp_all add: buildProgram_def Let_def count_inject real_steps_def del: inject.simps)

lemma run_steps_no_mutate:
  "DISPLAY_MUTATE \<notin> set steps \<Longrightarrow> mutatedResult st = None \<Longrightarrow>
   run_steps P program ef kb imageId steps st = (Inr st', t) \<Longrightarrow> mutatedResult st' = None"
proof (induction steps arbitrary: st t)
  case Nil
  then show ?case
    by (simp add: io_return_def)
next
  case (Cons step steps)
  from Cons.prems(3) obtain st1 t1 t2 where
    s1: "exec_step P program ef kb imageId step st = (Inr st1, t1)"
    and s2: "run_steps P program ef kb imageId steps st1 = (Inr st', t2)"
    by (auto simp: io_bind_def split: prod.splits sum.splits)
  have "mutatedResult st1 = None"
    using s1 Cons.prems(1,2)
    by (cases step)
       (auto simp: io_return_def io_throw_def io_bind_def io_effect_def
          split: prod.splits sum.splits if_splits)
  then show ?case
    using Cons.IH [of st1 t2] Cons.prems(1) s2 by simp
qed

lemma exec_step_passive:
  "step \<in> {HMAC_VERIFY, DECOY_INJECT, DUMMY_SPIN} \<Longrightarrow>
   \<exists>t. exec_step P program ef kb imageId step st = (Inr st, t)"
  by (auto simp: io_return_def io_effect_def)

lemma run_steps_decrypt_fails_tail:
  assumes "fst (decryptFragment P ef (chapterRootKey kb) (hmacKey kb) imageId) = Inl e"
  shows "filter is_real steps = REAL_DECRYPT # rest \<Longrightarrow>
         fst (run_steps P program ef kb imageId steps st) = Inl e"
proof (induction steps)
  case Nil
  then show ?case by simp
next
  case (Cons step steps)
  show ?case
  proof (cases "is_real step")
    case True
    then have "step = REAL_DECRYPT"
      using Cons.prems by simp
    moreover obtain t where "decryptFragment P ef (chapterRootKey kb) (hmacKey kb) imageId = (Inl e, t)"
      using assms by (metis prod.collapse)
    ultimately show ?thesis
      by simp
  next
    case False
    then have p: "step \<in> {HMAC_VERIFY, DECOY_INJECT, DUMMY_SPIN}"
      by (auto simp: is_real_def)
    then obtain t where "exec_step P program ef kb imageId step st = (Inr st, t)"
      using exec_step_passive by blast
    moreover have "fst (run_steps P program ef kb imageId steps st) = Inl e"
      using Cons False by simp
    ultimately show ?thesis
      by (cases "run_steps P program ef kb imageId steps st") simp
  qed
qed

lemma run_steps_decrypt_fails:
  assumes "fst (decryptFragment P ef (chapterRootKey kb) (hmacKey kb) imageId) = Inl e"
  shows "filter is_real steps = HMAC_VERIFY # REAL_DECRYPT # rest \<Longrightarrow>
         fst (run_steps P program ef kb imageId steps st) = Inl e"
proof (induction steps)
  case Nil
  then show ?case by simp
next
  case (Cons step steps)
  show ?case
  proof (cases "is_real step")
    case True
    then have h: "step = HMAC_VERIFY" and f: "filter is_real steps = REAL_DECRYPT # rest"
      using Cons.prems by simp_all
    have "fst (run_steps P program ef kb imageId steps st) = Inl e"
      using run_steps_decrypt_fails_tail [OF assms f] .
    then show ?thesis
      using h by (cases "run_steps P program ef kb imageId steps st") simp
  next
    case False
    then have p: "step \<in> {HMAC_VERIFY, DECOY_INJECT, DUMMY_SPIN}"
      by (auto simp: is_real_def)
    then obtain t where "exec_step P program ef kb imageId step st = (Inr st, t)"
      using exec_step_passive by blast
    moreover have "fst (run_steps P program ef kb imageId steps st) = Inl e"
      using Cons False by simp
    ultimately show ?thesis
      by (cases "run_steps P program ef kb imageId steps st") simp
  qed
qed

lemma execute_propagates:
  "fst (run_steps P program ef kb imageId (orderedSteps program)
          \<lparr>rawDecrypted = None, ephemeralKey = None, mutatedResult = None\<rparr>) = Inl e \<Longrightarrow>
   fst (execute P program ef kb imageId) = Inl e"
  by (cases "run_steps P program ef kb imageId (orderedSteps program)
          \<lparr>rawDecrypted = None, ephemeralKey = None, mutatedResult = None\<rparr>")
     (simp add: execute_def io_effect_def)

lemma execute_incomplete:
  "fst (run_steps P program ef kb imageId (orderedSteps program)
          \<lparr>rawDecrypted = None, ephemeralKey = None, mutatedResult = None\<rparr>) = Inr st \<Longrightarrow>
   mutatedResult st = None \<Longrightarrow>
   fst (execute P program ef kb imageId) = Inl ProgramIncomplete"
  by (cases "run_steps P program ef kb imageId (orderedSteps program)
          \<lparr>rawDecrypted = None, ephemeralKey = None, mutatedResult = None\<rparr>")
     (simp add: execute_def io_effect_def io_throw_def)

lemma execute_without_mutate:
  assumes "DISPLAY_MUTATE \<notin> set (orderedSteps program)"
  shows "\<exists>e. fst (execute P program ef kb imageId) = Inl e"
proof (cases "run_steps P program ef kb imageId (orderedSteps program)
          \<lparr>rawDecrypted = None, ephemeralKey = None, mutatedResult = None\<rparr>")
  case (Pair r t)
  show ?thesis
  proof (cases r)
    case (Inl e)
    then show ?thesis
      using execute_propagates [of P program ef kb imageId e] Pair by simp
  next
    case (Inr st)
    then have "mutatedResult st = None"
      using run_steps_no_mutate [OF assms _ Pair [unfolded Inr]] by simp
    then show ?thesis
      using execute_incomplete [of P program ef kb imageId st] Pair Inr by simp
  qed
qed

lemma buildProgram_half:
  "orderedSteps (buildProgram half_draws i entropy)
     = [HMAC_VERIFY, REAL_DECRYPT, CANARY_CHECK, DECOY_INJECT, DUMMY_SPIN, DUMMY_SPIN,
        DECOY_INJECT, DECOY_INJECT, EPHEMERAL_DERIVE, DISPLAY_MUTATE]"
proof -
  have c: "\<And>k n. rand_below (half_draws k) n = n div 2"
    by (simp add: half_draws_def rand_below_draw_of)
  have i3: "\<And>x rnd k s. inject x 3 rnd k s = inject x (Suc (Suc (Suc 0))) rnd k s"
    by (simp add: numeral_3_eq_3)
  have i2: "\<And>x rnd k s. inject x 2 rnd k s = inject x (Suc (Suc 0)) rnd k s"
    by (simp add: numeral_2_eq_2)
  show ?thesis
    by (simp add: buildProgram_def Let_def c i3 i2 splice_insert_def real_steps_def)
qed

text \<open>
  C7, as stated, fails in its second half: on the program built from the random results
  \<open>half_draws\<close>, with a record whose stored HMAC is wrong, \<^verbatim>\<open>execute\<close> stops at
  \<open>REAL_DECRYPT\<close>, so \<open>DISPLAY_MUTATE\<close> never runs, and the error is the HMAC mismatch of
  \<^verbatim>\<open>decryptFragment\<close>, not \<open>ProgramIncomplete\<close>.
\<close>

theorem C7_counterexample:
  "orderedSteps (buildProgram half_draws 0 entropy0)
     = [HMAC_VERIFY, REAL_DECRYPT, CANARY_CHECK, DECOY_INJECT, DUMMY_SPIN, DUMMY_SPIN,
        DECOY_INJECT, DECOY_INJECT, EPHEMERAL_DERIVE, DISPLAY_MUTATE] \<and>
   execute toy_env (buildProgram half_draws 0 entropy0) (ef_empty\<lparr>hmac := ''00''\<rparr>) kb0 ''ch42:0''
     = (Inl IntegrityFail, [DecoySync, DecoyAsync, Native Call_hmacSHA256]) \<and>
   IntegrityFail \<noteq> ProgramIncomplete"
proof -
  have l: "length (to_hex (toy_hmac hk0 blob_empty)) = 64"
    by (simp add: to_hex_def toy_hmac_def byte_hex_def length_concat comp_def sum_list_replicate)
  have h: "\<not> hmac_matches toy_env hk0 (ef_empty\<lparr>hmac := ''00''\<rparr>)"
    using l by (auto simp: hmac_matches_def ef_empty_def toy_env_def toy_b64_round)
  have d: "decryptFragment toy_env (ef_empty\<lparr>hmac := ''00''\<rparr>) key0 hk0 ''ch42:0''
      = (Inl IntegrityFail, [Native Call_hmacSHA256])"
    by (rule decrypt_step1 [OF toy_b64_ok h])
  show ?thesis
    by (simp add: buildProgram_half execute_def io_effect_def io_return_def kb0_def d)
qed

text \<open>
  C7, amended. For every sequence of random choices, \<^verbatim>\<open>buildProgram\<close> returns a step
  list whose real steps are exactly \<open>HMAC_VERIFY\<close>, \<open>REAL_DECRYPT\<close>, \<open>CANARY_CHECK\<close>,
  \<open>EPHEMERAL_DERIVE\<close>, \<open>DISPLAY_MUTATE\<close>, once each and in that order, with between 2 and 4
  \<open>DECOY_INJECT\<close> and between 1 and 3 \<open>DUMMY_SPIN\<close> steps among them. \<^verbatim>\<open>execute\<close> returns no
  bytes unless a \<open>DISPLAY_MUTATE\<close> step completed: when all steps of a program run and
  none of them produced the mutated result, it fails with \<open>ProgramIncomplete\<close>; when a step
  throws, it fails with that step's error; and on a built program a failing
  \<^verbatim>\<open>decryptFragment\<close> makes it fail with the error of \<^verbatim>\<open>decryptFragment\<close>.
\<close>

theorem C7_program_and_incomplete:
  "filter is_real (orderedSteps (buildProgram rnd i entropy)) = real_steps \<and>
   2 \<le> count_list (orderedSteps (buildProgram rnd i entropy)) DECOY_INJECT \<and>
   count_list (orderedSteps (buildProgram rnd i entropy)) DECOY_INJECT \<le> 4 \<and>
   1 \<le> count_list (orderedSteps (buildProgram rnd i entropy)) DUMMY_SPIN \<and>
   count_list (orderedSteps (buildProgram rnd i entropy)) DUMMY_SPIN \<le> 3 \<and>
   (DISPLAY_MUTATE \<notin> set (orderedSteps program) \<longrightarrow>
      (\<exists>e. fst (execute P program ef kb imageId) = Inl e)) \<and>
   (\<forall>st. fst (run_steps P program ef kb imageId (orderedSteps program)
               \<lparr>rawDecrypted = None, ephemeralKey = None, mutatedResult = None\<rparr>) = Inr st \<and>
         mutatedResult st = None \<longrightarrow>
         fst (execute P program ef kb imageId) = Inl ProgramIncomplete) \<and>
   (\<forall>e. fst (run_steps P program ef kb imageId (orderedSteps program)
              \<lparr>rawDecrypted = None, ephemeralKey = None, mutatedResult = None\<rparr>) = Inl e \<longrightarrow>
        fst (execute P program ef kb imageId) = Inl e) \<and>
   (\<forall>e. fst (decryptFragment P ef (chapterRootKey kb) (hmacKey kb) imageId) = Inl e \<longrightarrow>
        fst (execute P (buildProgram rnd i entropy) ef kb imageId) = Inl e)"
proof (intro conjI allI impI)
  show "filter is_real (orderedSteps (buildProgram rnd i entropy)) = real_steps"
    by (rule buildProgram_real)
  have r0: "rand_below (rnd 0) 3 < 3"
    and r1: "rand_below (rnd (1 + (2 + rand_below (rnd 0) 3))) 3 < 3"
    by (simp_all add: rand_below_less)
  show "2 \<le> count_list (orderedSteps (buildProgram rnd i entropy)) DECOY_INJECT"
    "count_list (orderedSteps (buildProgram rnd i entropy)) DECOY_INJECT \<le> 4"
    using r0 by (simp_all add: buildProgram_counts)
  show "1 \<le> count_list (orderedSteps (buildProgram rnd i entropy)) DUMMY_SPIN"
    "count_list (orderedSteps (buildProgram rnd i entropy)) DUMMY_SPIN \<le> 3"
    using r1 by (simp_all add: buildProgram_counts)
  show "DISPLAY_MUTATE \<notin> set (orderedSteps program) \<Longrightarrow>
      \<exists>e. fst (execute P program ef kb imageId) = Inl e"
    by (rule execute_without_mutate)
  show "\<And>st. fst (run_steps P program ef kb imageId (orderedSteps program)
               \<lparr>rawDecrypted = None, ephemeralKey = None, mutatedResult = None\<rparr>) = Inr st \<and>
         mutatedResult st = None \<Longrightarrow>
         fst (execute P program ef kb imageId) = Inl ProgramIncomplete"
    using execute_incomplete by blast
  show "\<And>e. fst (run_steps P program ef kb imageId (orderedSteps program)
              \<lparr>rawDecrypted = None, ephemeralKey = None, mutatedResult = None\<rparr>) = Inl e \<Longrightarrow>
        fst (execute P program ef kb imageId) = Inl e"
    by (rule execute_propagates)
  fix e
  assume d: "fst (decryptFragment P ef (chapterRootKey kb) (hmacKey kb) imageId) = Inl e"
  have "filter is_real (orderedSteps (buildProgram rnd i entropy))
      = HMAC_VERIFY # REAL_DECRYPT # [CANARY_CHECK, EPHEMERAL_DERIVE, DISPLAY_MUTATE]"
    by (simp add: buildProgram_real real_steps_def)
  then have "fst (run_steps P (buildProgram rnd i entropy) ef kb imageId
                (orderedSteps (buildProgram rnd i entropy))
                \<lparr>rawDecrypted = None, ephemeralKey = None, mutatedResult = None\<rparr>) = Inl e"
    by (rule run_steps_decrypt_fails [OF d])
  then show "fst (execute P (buildProgram rnd i entropy) ef kb imageId) = Inl e"
    by (rule execute_propagates)
qed

lemma deriveEphemeralKey_ok:
  "b64_ok P \<Longrightarrow> serialize_entropy e = Inr buf \<Longrightarrow>
   deriveEphemeralKey P k e
     = (Inr (hkdf_okm P k buf (map of_char ''runtime-ephemeral'') 32),
        [Wipe buf (fill 0 buf), Native Call_hkdf])"
  by (simp add: deriveEphemeralKey_def io_lift_def hkdf_bridge KEY_LEN_def io_return_def
      b64_ok_def)

lemma serialize_entropy0: "\<exists>buf. serialize_entropy entropy0 = Inr buf"
  by (simp add: serialize_entropy_def entropy0_def i64le_def js_round_def)

lemma ef_ok_is_encryption:
  "fst (encryptFragment toy_env iv0 \<lparr>frag_index = 0, frag_data = [1, 2, 3], frag_size = 3\<rparr>
          key0 hk0 ''ch42:0'') = Inr ef_ok"
proof -
  have k: "length key0 = 32"
    by (simp add: key0_def)
  show ?thesis
    by (simp add: encryptFragment_ok [OF toy_hmac_ok toy_b64_ok k] Let_def ef_ok_def blob_ok_def
        pt_ok_def) (simp add: toy_env_def)
qed

lemma ef_ok_decrypts:
  "\<exists>t. decryptFragment toy_env ef_ok key0 hk0 ''ch42:0'' = (Inr [1, 2, 3], t)"
proof -
  have lc: "length (canary_of toy_env key0 0) = 16"
    by (simp add: length_canary_of toy_hmac_ok)
  have h: "hmac_matches toy_env hk0 ef_ok"
    by (simp add: hmac_matches_def ef_ok_def toy_env_def toy_b64_round)
  have a: "aad_matches toy_env ef_ok ''ch42:0''"
    by (simp add: aad_matches_def ef_ok_def toy_env_def)
  have j: "java_b64_decode toy_env (encryptedData ef_ok) = Some blob_ok"
    by (simp add: ef_ok_def toy_env_def toy_b64_round)
  have g: "gcm_plaintext toy_env key0 blob_ok ''ch42:0'' (ef_index ef_ok) = Some pt_ok"
    using native_gcm_round_trip [OF toy_gcm_ok, of key0 iv0 "fragment_aad ''ch42:0'' 0" pt_ok]
    by (simp add: gcm_plaintext_def blob_ok_def ef_ok_def key0_def iv0_def toy_env_def)
  have ne: "pt_ok \<noteq> []"
    by (simp add: pt_ok_def)
  have v: "CanaryService_verify pt_ok (canary_of toy_env key0 (ef_index ef_ok))"
    using verify_embedded [OF lc, of "[1, 2, 3]"] by (simp add: pt_ok_def ef_ok_def)
  have s: "CanaryService_strip pt_ok = Inr [1, 2, 3]"
    using lc strip_embedded [of "canary_of toy_env key0 0" "[1, 2, 3]"] by (simp add: pt_ok_def)
  show ?thesis
    using decrypt_step5 [OF toy_b64_ok h a j g ne v] s by simp
qed

text \<open>
  A run to the end: the built program on the record of the bytes 1, 2, 3 returns their
  display mutation (in the small instance, the complement of each byte).
\<close>

lemma execute_example:
  "fst (execute toy_env (buildProgram half_draws 0 entropy0) ef_ok kb0 ''ch42:0'')
     = Inr [254, 253, 252]"
proof -
  obtain t where d: "decryptFragment toy_env ef_ok key0 hk0 ''ch42:0'' = (Inr [1, 2, 3], t)"
    using ef_ok_decrypts by blast
  obtain buf where b: "serialize_entropy entropy0 = Inr buf"
    using serialize_entropy0 by blast
  note k = deriveEphemeralKey_ok [OF toy_b64_ok b, of key0]
  have e: "entropyBundle (buildProgram half_draws 0 entropy0) = entropy0"
    by (simp add: buildProgram_def Let_def)
  have m: "applyMutation toy_env [1, 2, 3] x = [254, 253, 252]" for x
    by (simp add: toy_env_def)
  show ?thesis
    by (simp add: buildProgram_half execute_def io_effect_def io_return_def kb0_def d k e m
        wipeUint8Array_def)
qed

theorem C7_program_and_incomplete_witness:
  "filter is_real [HMAC_VERIFY, REAL_DECRYPT, CANARY_CHECK, DECOY_INJECT, DUMMY_SPIN, DUMMY_SPIN,
        DECOY_INJECT, DECOY_INJECT, EPHEMERAL_DERIVE, DISPLAY_MUTATE] = real_steps \<and>
   fst (execute toy_env \<lparr>orderedSteps = [DECOY_INJECT, HMAC_VERIFY, DUMMY_SPIN], fragmentIndex = 0,
                          entropyBundle = entropy0\<rparr> ef_ok kb0 ''ch42:0'')
     = Inl ProgramIncomplete \<and>
   fst (execute toy_env (buildProgram half_draws 0 entropy0) (ef_empty\<lparr>hmac := ''00''\<rparr>) kb0 ''ch42:0'')
     = Inl IntegrityFail"
proof -
  let ?p = "\<lparr>orderedSteps = [DECOY_INJECT, HMAC_VERIFY, DUMMY_SPIN], fragmentIndex = 0,
             entropyBundle = entropy0\<rparr>"
  have r: "fst (run_steps toy_env ?p ef_ok kb0 ''ch42:0'' (orderedSteps ?p)
                 \<lparr>rawDecrypted = None, ephemeralKey = None, mutatedResult = None\<rparr>)
           = Inr \<lparr>rawDecrypted = None, ephemeralKey = None, mutatedResult = None\<rparr>"
    by (simp add: io_effect_def io_return_def)
  have l: "length (to_hex (toy_hmac hk0 blob_empty)) = 64"
    by (simp add: to_hex_def toy_hmac_def byte_hex_def length_concat comp_def sum_list_replicate)
  have h: "\<not> hmac_matches toy_env hk0 (ef_empty\<lparr>hmac := ''00''\<rparr>)"
    using l by (auto simp: hmac_matches_def ef_empty_def toy_env_def toy_b64_round)
  have d: "fst (decryptFragment toy_env (ef_empty\<lparr>hmac := ''00''\<rparr>) (chapterRootKey kb0)
                 (hmacKey kb0) ''ch42:0'') = Inl IntegrityFail"
    by (simp add: kb0_def decrypt_step1 [OF toy_b64_ok h])
  show ?thesis
    using C7_program_and_incomplete [of half_draws 0 entropy0 ?p toy_env ef_ok kb0 "''ch42:0''"]
      C7_program_and_incomplete [of half_draws 0 entropy0 ?p toy_env "ef_empty\<lparr>hmac := ''00''\<rparr>"
        kb0 "''ch42:0''"]
      r d buildProgram_half [of 0 entropy0]
    by simp
qed

section \<open>Theorems: key rotation\<close>

lemma deriveWrappingKey_ok:
  "b64_ok P \<Longrightarrow>
   deriveWrappingKey P rootSecret chapterId ver
     = (Inr (wrapping_key P rootSecret chapterId ver), [Native Call_hkdf])"
  by (simp add: deriveWrappingKey_def hkdf_bridge wrapping_key_def io_return_def b64_ok_def)

lemma length_wrapping_key: "hmac_ok P \<Longrightarrow> length (wrapping_key P rootSecret chapterId ver) = 32"
  by (simp add: wrapping_key_def length_hkdf_okm)

lemma wrap_ok:
  assumes "hmac_ok P" "b64_ok P"
  shows "wrapChapterKey P iv now k rootSecret chapterId ver
     = (Inr \<lparr>wrappedB64 = b64_encode P (sealed P (wrapping_key P rootSecret chapterId ver) iv k),
              rotationTimestamp = now, version = ver\<rparr>,
        [Native Call_hkdf, Native Call_aesGCMEncrypt,
         Wipe (wrapping_key P rootSecret chapterId ver)
              (wiped (wipe_noise P) (wrapping_key P rootSecret chapterId ver))])"
proof -
  have b: "\<And>bs. java_b64_decode P (b64_encode P bs) = Some bs"
    using assms(2) by (simp add: b64_ok_def)
  show ?thesis
    using assms
    by (simp add: wrapChapterKey_def deriveWrappingKey_ok io_finally_def
        NativeCrypto_aesGCMEncrypt_def b nativeAESGCMEncrypt_def length_wrapping_key bridge_def
        aad_bytes_def io_return_def wipeUint8Array_def sealed_def Let_def split: prod.splits)
qed

lemma native_unseal:
  assumes "gcm_ok P" "length wk = 32" "length iv = 12"
  shows "nativeAESGCMDecrypt P wk (sealed P wk iv pt) None = Some pt"
proof -
  have t: "length (snd (GCM_encrypt P wk iv [] pt)) = 16"
    and d: "GCM_decrypt P wk iv [] (fst (GCM_encrypt P wk iv [] pt))
              (snd (GCM_encrypt P wk iv [] pt)) = Some pt"
    using assms by (simp_all add: gcm_ok_def)
  show ?thesis
    using assms(2,3) t d
    by (simp add: nativeAESGCMDecrypt_def aad_bytes_def Let_def sealed_def)
qed

lemma unwrap_sealed:
  assumes "hmac_ok P" "gcm_ok P" "b64_ok P" "length iv = 12" "k \<noteq> []"
  shows "fst (unwrapChapterKey P
                \<lparr>wrappedB64 = b64_encode P (sealed P (wrapping_key P rootSecret chapterId ver) iv k),
                 rotationTimestamp = ts, version = ver\<rparr> rootSecret chapterId) = Inr k"
proof -
  have b: "\<And>bs. java_b64_decode P (b64_encode P bs) = Some bs"
    "\<And>bs. buffer_from_b64 P (b64_encode P bs) = bs"
    "\<And>bs. (b64_encode P bs = []) = (bs = [])"
    using assms(3) by (simp_all add: b64_ok_def)
  have n: "nativeAESGCMDecrypt P (wrapping_key P rootSecret chapterId ver)
             (sealed P (wrapping_key P rootSecret chapterId ver) iv k) None = Some k"
    using native_unseal [OF assms(2) length_wrapping_key [OF assms(1)] assms(4)] .
  show ?thesis
    using assms(3,5)
    by (simp add: unwrapChapterKey_def deriveWrappingKey_ok io_finally_def
        NativeCrypto_aesGCMDecrypt_def b n bridge_def io_return_def)
qed

lemma unwrap_nonempty:
  assumes "b64_ok P" "fst (unwrapChapterKey P w rootSecret chapterId) = Inr k"
  shows "k \<noteq> []"
proof -
  have b: "\<And>bs. buffer_from_b64 P (b64_encode P bs) = bs"
    "\<And>bs. (b64_encode P bs = []) = (bs = [])"
    using assms(1) by (simp_all add: b64_ok_def)
  show ?thesis
    using assms
    by (auto simp: unwrapChapterKey_def deriveWrappingKey_ok io_finally_def
        NativeCrypto_aesGCMDecrypt_def bridge_def io_return_def io_throw_def b
        split: option.splits if_splits)
qed

lemma rotate_ok:
  assumes "hmac_ok P" "gcm_ok P" "b64_ok P" "length iv = 12"
    and "fst (unwrapChapterKey P w rootSecret chapterId) = Inr k"
  shows "fst (rotateWrappedKey P iv now w rootSecret chapterId)
           = Inr \<lparr>wrappedB64 = b64_encode P
                      (sealed P (wrapping_key P rootSecret chapterId (version w + 1)) iv k),
                   rotationTimestamp = now, version = version w + 1\<rparr>"
proof -
  obtain t where u: "unwrapChapterKey P w rootSecret chapterId = (Inr k, t)"
    using assms(5) by (metis prod.collapse)
  show ?thesis
    by (simp add: rotateWrappedKey_def u io_finally_def wrap_ok [OF assms(1) assms(3)])
qed

lemma meta_not_vault: "META_ROOT plat @ x \<noteq> VAULT_ROOT plat @ y"
  by (simp add: META_ROOT_def VAULT_ROOT_def)

lemma rotateKeyIfDue_files:
  "fst (snd (rotateKeyIfDue P plat iv now chapterId fs st)) = fs \<or>
   (\<exists>w. fst (snd (rotateKeyIfDue P plat iv now chapterId fs st))
          = fs(META_ROOT plat @ sha256_hex P (''wk:'' @ chapterId) \<mapsto> json_stringify_wk plat w))"
  by (auto simp: rotateKeyIfDue_def storeWrappedKey_def writeMeta_def
      split: sum.splits option.splits prod.splits)

lemma rotateKeyIfDue_store:
  "k \<noteq> SECURE_STORE_ROTATION_TS \<Longrightarrow>
   secureStore (snd (snd (rotateKeyIfDue P plat iv now chapterId fs st))) k = secureStore st k"
  by (auto simp: rotateKeyIfDue_def recordRotationTimestamp_def
      split: sum.splits option.splits prod.splits)

lemma rotateKeyIfDue_rotates:
  assumes "hmac_ok P" "gcm_ok P" "b64_ok P" "length iv = 12"
    and "isRotationDue plat now st"
    and "loadWrappedKey P plat chapterId fs = Inr (Some w)"
    and "fst (deriveRootSecret P plat st) = Inr rootSecret"
    and "fst (unwrapChapterKey P w rootSecret chapterId) = Inr k"
  shows "fst (snd (rotateKeyIfDue P plat iv now chapterId fs st))
           (META_ROOT plat @ sha256_hex P (''wk:'' @ chapterId))
         = Some (json_stringify_wk plat
             \<lparr>wrappedB64 = b64_encode P
                 (sealed P (wrapping_key P rootSecret chapterId (version w + 1)) iv k),
              rotationTimestamp = now, version = version w + 1\<rparr>)"
proof -
  obtain t where d: "deriveRootSecret P plat st = (Inr rootSecret, t)"
    using assms(7) by (metis prod.collapse)
  obtain t' where r: "rotateWrappedKey P iv now w rootSecret chapterId
      = (Inr \<lparr>wrappedB64 = b64_encode P
                      (sealed P (wrapping_key P rootSecret chapterId (version w + 1)) iv k),
                   rotationTimestamp = now, version = version w + 1\<rparr>, t')"
    using rotate_ok [OF assms(1-4) assms(8), of now] by (metis prod.collapse)
  show ?thesis
    using assms(5,6)
    by (simp add: rotateKeyIfDue_def d r storeWrappedKey_def writeMeta_def)
qed

lemma takeWhile_dec_str:
  "takeWhile (\<lambda>c. c \<noteq> CHR '':'') (dec_str n @ CHR '':'' # rest) = dec_str n"
  using dec_str_no_colon [of n] by (subst takeWhile_append2) auto

lemma toy_json_round_trip:
  assumes "0 \<le> rotationTimestamp w"
  shows "toy_json_parse (toy_json_stringify w) = Inr (Some w)"
proof -
  let ?v = "dec_str (version w)" and ?t = "dec_str (nat (rotationTimestamp w))"
  have s: "toy_json_stringify w = ?v @ CHR '':'' # (?t @ CHR '':'' # wrappedB64 w)"
    by (simp add: toy_json_stringify_def)
  have v: "takeWhile (\<lambda>c. c \<noteq> CHR '':'') (toy_json_stringify w) = ?v"
    unfolding s by (rule takeWhile_dec_str)
  have r: "drop (Suc (length ?v)) (toy_json_stringify w) = ?t @ CHR '':'' # wrappedB64 w"
    unfolding s by simp
  have t: "takeWhile (\<lambda>c. c \<noteq> CHR '':'') (?t @ CHR '':'' # wrappedB64 w) = ?t"
    by (rule takeWhile_dec_str)
  have l: "length (toy_json_stringify w) = length ?v + length ?t + 2 + length (wrappedB64 w)"
    unfolding s by simp
  show ?thesis
    using assms
    by (simp add: toy_json_parse_def v r t l dec_val_dec_str Let_def)
qed

text \<open>
  C4. For every non-empty chapter root key \<open>k\<close> (a chapter root key has 32 bytes), root
  secret, chapter id and version \<open>v\<close>: \<^verbatim>\<open>wrapChapterKey\<close> yields an envelope at version
  \<open>v\<close> that \<^verbatim>\<open>unwrapChapterKey\<close> opens to exactly \<open>k\<close>; \<^verbatim>\<open>rotateWrappedKey\<close> on any envelope
  that opens to \<open>k\<close> yields an envelope at the next version that opens to \<open>k\<close>; and
  \<^verbatim>\<open>rotateKeyIfDue\<close> leaves every file other than the wrapped-key entry of the chapter as
  it was, in particular every fragment file of every chapter, and when it rotates, the
  entry it writes is the envelope at the next version.
\<close>

theorem C4_wrap_unwrap_rotate:
  assumes "hmac_ok P" "gcm_ok P" "b64_ok P"
    and "length iv = 12" "length iv' = 12" "k \<noteq> []"
  shows
   "(\<exists>w. fst (wrapChapterKey P iv now k rootSecret chapterId v) = Inr w \<and> version w = v \<and>
         fst (unwrapChapterKey P w rootSecret chapterId) = Inr k) \<and>
    (\<forall>w. fst (unwrapChapterKey P w rootSecret chapterId) = Inr k \<longrightarrow>
         (\<exists>w'. fst (rotateWrappedKey P iv' now' w rootSecret chapterId) = Inr w' \<and>
               version w' = version w + 1 \<and>
               fst (unwrapChapterKey P w' rootSecret chapterId) = Inr k)) \<and>
    (\<forall>path. path \<noteq> META_ROOT plat @ sha256_hex P (''wk:'' @ chapterId) \<longrightarrow>
         fst (snd (rotateKeyIfDue P plat iv' now' chapterId fs st)) path = fs path) \<and>
    (\<forall>cid filename.
         fst (snd (rotateKeyIfDue P plat iv' now' chapterId fs st)) (fragment_path P plat cid filename)
           = fs (fragment_path P plat cid filename)) \<and>
    (\<forall>w. isRotationDue plat now' st \<and> loadWrappedKey P plat chapterId fs = Inr (Some w) \<and>
         fst (deriveRootSecret P plat st) = Inr rootSecret \<and>
         fst (unwrapChapterKey P w rootSecret chapterId) = Inr k \<longrightarrow>
         (\<exists>w'. fst (snd (rotateKeyIfDue P plat iv' now' chapterId fs st))
                  (META_ROOT plat @ sha256_hex P (''wk:'' @ chapterId))
                = Some (json_stringify_wk plat w') \<and>
               version w' = version w + 1 \<and>
               fst (unwrapChapterKey P w' rootSecret chapterId) = Inr k))"
proof (intro conjI allI impI)
  show "\<exists>w. fst (wrapChapterKey P iv now k rootSecret chapterId v) = Inr w \<and> version w = v \<and>
         fst (unwrapChapterKey P w rootSecret chapterId) = Inr k"
    using unwrap_sealed [OF assms(1-4) assms(6), of rootSecret chapterId v now]
    by (simp add: wrap_ok [OF assms(1) assms(3)])
next
  fix w
  assume u: "fst (unwrapChapterKey P w rootSecret chapterId) = Inr k"
  show "\<exists>w'. fst (rotateWrappedKey P iv' now' w rootSecret chapterId) = Inr w' \<and>
               version w' = version w + 1 \<and>
               fst (unwrapChapterKey P w' rootSecret chapterId) = Inr k"
    using unwrap_sealed [OF assms(1-3) assms(5) assms(6), of rootSecret chapterId "version w + 1" now']
    by (simp add: rotate_ok [OF assms(1-3) assms(5) u])
next
  fix path
  assume "path \<noteq> META_ROOT plat @ sha256_hex P (''wk:'' @ chapterId)"
  then show "fst (snd (rotateKeyIfDue P plat iv' now' chapterId fs st)) path = fs path"
    using rotateKeyIfDue_files [of P plat iv' now' chapterId fs st] by auto
next
  fix cid filename
  have "fragment_path P plat cid filename \<noteq> META_ROOT plat @ sha256_hex P (''wk:'' @ chapterId)"
    using meta_not_vault [of plat "sha256_hex P (''wk:'' @ chapterId)"
        "sha256_hex P (''dir:'' @ cid) @ ''/'' @ filename"]
    by (simp add: fragment_path_def getChapterDir_def)
  then show "fst (snd (rotateKeyIfDue P plat iv' now' chapterId fs st)) (fragment_path P plat cid filename)
           = fs (fragment_path P plat cid filename)"
    using rotateKeyIfDue_files [of P plat iv' now' chapterId fs st] by auto
next
  fix w
  assume a: "isRotationDue plat now' st \<and> loadWrappedKey P plat chapterId fs = Inr (Some w) \<and>
         fst (deriveRootSecret P plat st) = Inr rootSecret \<and>
         fst (unwrapChapterKey P w rootSecret chapterId) = Inr k"
  have "fst (snd (rotateKeyIfDue P plat iv' now' chapterId fs st))
           (META_ROOT plat @ sha256_hex P (''wk:'' @ chapterId))
         = Some (json_stringify_wk plat
             \<lparr>wrappedB64 = b64_encode P
                 (sealed P (wrapping_key P rootSecret chapterId (version w + 1)) iv' k),
              rotationTimestamp = now', version = version w + 1\<rparr>)"
    using rotateKeyIfDue_rotates [OF assms(1-3) assms(5), of plat now' st chapterId fs w rootSecret k] a
    by blast
  then show "\<exists>w'. fst (snd (rotateKeyIfDue P plat iv' now' chapterId fs st))
                  (META_ROOT plat @ sha256_hex P (''wk:'' @ chapterId))
                = Some (json_stringify_wk plat w') \<and>
               version w' = version w + 1 \<and>
               fst (unwrapChapterKey P w' rootSecret chapterId) = Inr k"
    using unwrap_sealed [OF assms(1-3) assms(5) assms(6), of rootSecret chapterId "version w + 1" now']
    by (intro exI [of _ "\<lparr>wrappedB64 = b64_encode P
                 (sealed P (wrapping_key P rootSecret chapterId (version w + 1)) iv' k),
              rotationTimestamp = now', version = version w + 1\<rparr>"]) simp
qed

lemma wk1_opens: "fst (unwrapChapterKey toy_env wk1 root0 ''ch42'') = Inr key0"
proof -
  have k: "key0 \<noteq> []" and v: "length iv0 = 12"
    by (simp_all add: key0_def iv0_def)
  show ?thesis
    using unwrap_sealed [OF toy_hmac_ok toy_gcm_ok toy_b64_ok v k, of root0 "''ch42''" 1 1700000000000]
    by (simp add: wk1_def) (simp add: toy_env_def)
qed

lemma app0_rotation_due: "isRotationDue toy_platform 1700691200000 app0"
  by (simp add: isRotationDue_def app0_def toy_platform_def dec_val_def
      KEY_ROTATION_INTERVAL_MS_def SECURE_STORE_DEVICE_SALT_def SECURE_STORE_USER_ID_def
      SECURE_STORE_ROTATION_TS_def)

lemma files0_envelope: "loadWrappedKey toy_env toy_platform ''ch42'' files0 = Inr (Some wk1)"
proof -
  have r: "toy_json_parse (toy_json_stringify wk1) = Inr (Some wk1)"
    by (rule toy_json_round_trip) (simp add: wk1_def)
  have n: "toy_json_stringify wk1 \<noteq> []"
    by (simp add: toy_json_stringify_def)
  have d: "fragment_path toy_env toy_platform ''ch42'' ''f0.dat''
      \<noteq> META_ROOT toy_platform @ sha256_hex toy_env ''wk:ch42''"
    using meta_not_vault [of toy_platform "sha256_hex toy_env ''wk:ch42''"
        "sha256_hex toy_env ''dir:ch42'' @ ''/'' @ ''f0.dat''"]
    by (simp add: fragment_path_def getChapterDir_def)
  show ?thesis
    using d n
    by (simp add: loadWrappedKey_def readMeta_def files0_def r) (simp add: toy_platform_def r)
qed

lemma app0_root_secret: "fst (deriveRootSecret toy_env toy_platform app0) = Inr root0"
proof -
  have b: "\<And>bs. java_b64_decode toy_env (b64_encode toy_env bs) = Some bs"
    "\<And>bs. buffer_from_b64 toy_env (b64_encode toy_env bs) = bs"
    using toy_b64_ok by (simp_all add: b64_ok_def)
  have j: "\<And>s. java_b64_decode toy_env s = Some (toy_b64_decode s)"
    by (simp add: toy_env_def)
  have p: "\<And>pwd salt. PBKDF2_HMAC_SHA512 toy_platform pwd salt PBKDF2_ITERATIONS PBKDF2_KEY_LENGTH
      = Some root0"
    by (simp add: toy_platform_def PBKDF2_KEY_LENGTH_def root0_def)
  show ?thesis
    by (simp add: deriveRootSecret_def app0_def SECURE_STORE_DEVICE_SALT_def
        SECURE_STORE_USER_ID_def SECURE_STORE_ROTATION_TS_def NativeCrypto_pbkdf2_def
        b j p bridge_def io_return_def Let_def)
qed

text \<open>
  Rotation on the small platform, eight days after the recorded rotation: the fragment
  file keeps its content and the envelope entry holds version 2.
\<close>

theorem C4_wrap_unwrap_rotate_witness:
  "(\<exists>w. fst (wrapChapterKey toy_env iv0 1700000000000 key0 root0 ''ch42'' 1) = Inr w \<and>
        version w = 1 \<and> fst (unwrapChapterKey toy_env w root0 ''ch42'') = Inr key0) \<and>
   (\<exists>w'. fst (rotateWrappedKey toy_env iv0 1700691200000 wk1 root0 ''ch42'') = Inr w' \<and>
         version w' = 2 \<and> fst (unwrapChapterKey toy_env w' root0 ''ch42'') = Inr key0) \<and>
   fst (snd (rotateKeyIfDue toy_env toy_platform iv0 1700691200000 ''ch42'' files0 app0))
       (fragment_path toy_env toy_platform ''ch42'' ''f0.dat'') = Some ''ciphertext'' \<and>
   (\<exists>w'. fst (snd (rotateKeyIfDue toy_env toy_platform iv0 1700691200000 ''ch42'' files0 app0))
            (META_ROOT toy_platform @ sha256_hex toy_env ''wk:ch42'')
          = Some (toy_json_stringify w') \<and>
         version w' = 2 \<and> fst (unwrapChapterKey toy_env w' root0 ''ch42'') = Inr key0)"
proof -
  have k: "key0 \<noteq> []" and v: "length iv0 = 12"
    by (simp_all add: key0_def iv0_def)
  have one: "version wk1 = 1"
    by (simp add: wk1_def)
  have f: "files0 (fragment_path toy_env toy_platform ''ch42'' ''f0.dat'') = Some ''ciphertext''"
    by (simp add: files0_def)
  have js: "json_stringify_wk toy_platform = toy_json_stringify"
    by (simp add: toy_platform_def)
  note t = C4_wrap_unwrap_rotate [OF toy_hmac_ok toy_gcm_ok toy_b64_ok v v k,
      of 1700000000000 root0 "''ch42''" 1 1700691200000 toy_platform files0 app0]
  from t have a: "\<exists>w. fst (wrapChapterKey toy_env iv0 1700000000000 key0 root0 ''ch42'' 1) = Inr w \<and>
        version w = 1 \<and> fst (unwrapChapterKey toy_env w root0 ''ch42'') = Inr key0"
    by blast
  from t wk1_opens one
  have b: "\<exists>w'. fst (rotateWrappedKey toy_env iv0 1700691200000 wk1 root0 ''ch42'') = Inr w' \<and>
         version w' = 2 \<and> fst (unwrapChapterKey toy_env w' root0 ''ch42'') = Inr key0"
    by (metis one_add_one)
  from t f
  have c: "fst (snd (rotateKeyIfDue toy_env toy_platform iv0 1700691200000 ''ch42'' files0 app0))
       (fragment_path toy_env toy_platform ''ch42'' ''f0.dat'') = Some ''ciphertext''"
    by simp
  from t app0_rotation_due files0_envelope app0_root_secret wk1_opens one js
  have d: "\<exists>w'. fst (snd (rotateKeyIfDue toy_env toy_platform iv0 1700691200000 ''ch42'' files0 app0))
            (META_ROOT toy_platform @ sha256_hex toy_env ''wk:ch42'')
          = Some (toy_json_stringify w') \<and>
         version w' = 2 \<and> fst (unwrapChapterKey toy_env w' root0 ''ch42'') = Inr key0"
    by (metis one_add_one append_Cons append_Nil)
  from a b c d show ?thesis
    by blast
qed

section \<open>Theorems: the registry of live page buffers\<close>

lemma Map_set_keys: "set (map fst (Map_set k v m)) = insert k (set (map fst m))"
  by (induction m) auto

lemma Map_set_distinct: "distinct (map fst m) \<Longrightarrow> distinct (map fst (Map_set k v m))"
proof (induction m)
  case Nil
  show ?case by simp
next
  case (Cons p ps)
  have "set (map fst (Map_set k v ps)) = insert k (set (map fst ps))"
    by (rule Map_set_keys)
  with Cons show ?case
    by auto
qed

lemma Map_set_length: "length (Map_set k v m) \<le> Suc (length m)"
  by (induction m) auto

lemma Map_delete_distinct: "distinct (map fst m) \<Longrightarrow> distinct (map fst (Map_delete k m))"
  by (simp add: Map_delete_def distinct_map_filter)

lemma Map_delete_length: "length (Map_delete k m) \<le> length m"
  by (simp add: Map_delete_def)

lemma Map_delete_hd: "m \<noteq> [] \<Longrightarrow> Suc (length (Map_delete (fst (hd m)) m)) \<le> length m"
  by (cases m) (simp_all add: Map_delete_def le_imp_less_Suc)

lemma Map_delete_gone: "map_of (Map_delete k m) k = None"
  by (induction m) (auto simp add: Map_delete_def)

lemma releasePage_live:
  "liveBuffers (releasePage P idx s) =
     (if Map_has (liveBuffers s) idx then Map_delete idx (liveBuffers s) else liveBuffers s)"
  by (simp add: releasePage_def Map_has_def Let_def split: option.splits)

lemma releasePage_suspended: "suspended (releasePage P idx s) = suspended s"
  by (simp add: releasePage_def Let_def split: option.splits)

lemma Map_has_hd: "m \<noteq> [] \<Longrightarrow> Map_has m (fst (hd m))"
  by (cases m) (auto simp add: Map_has_def)

lemma releasePage_inv: "cap_inv s \<Longrightarrow> cap_inv (releasePage P idx s)"
proof -
  assume a: "cap_inv s"
  have "length (Map_delete idx (liveBuffers s)) \<le> length (liveBuffers s)"
    by (rule Map_delete_length)
  with a show ?thesis
    by (simp add: cap_inv_def releasePage_live releasePage_suspended Map_delete_distinct)
qed

lemma wipeAll_inv: "cap_inv s \<Longrightarrow> cap_inv (wipeAll P s)"
  by (simp add: cap_inv_def wipeAll_def)

lemma loadPage_resume_inv:
  assumes "cap_inv s" and "p \<in> set (suspended s)"
  shows "cap_inv (loadPage_resume p r s)"
proof (cases r)
  case (Inl e)
  with assms show ?thesis
    by (auto simp add: cap_inv_def loadPage_resume_def length_remove1)
next
  case (Inr content)
  have l: "length (Map_set p (next_ref s) (liveBuffers s)) \<le> Suc (length (liveBuffers s))"
    by (rule Map_set_length)
  have pos: "0 < length (suspended s)"
    using assms(2) by (cases "suspended s") simp_all
  have d: "distinct (map fst (Map_set p (next_ref s) (liveBuffers s)))"
    using assms(1) by (simp add: cap_inv_def Map_set_distinct)
  have c: "length (liveBuffers s) + length (suspended s) \<le> MAX_DECRYPTED_FRAGMENTS"
    using assms(1) by (simp add: cap_inv_def)
  have n: "length (Map_set p (next_ref s) (liveBuffers s)) + (length (suspended s) - 1)
      \<le> MAX_DECRYPTED_FRAGMENTS"
    using l pos c by linarith
  from d n assms(2) Inr show ?thesis
    by (simp add: cap_inv_def loadPage_resume_def Let_def length_remove1)
qed

lemma loadPage_begin_inv:
  assumes "cap_inv s" and "suspended s = []"
  shows "cap_inv (loadPage_begin P p s)"
proof (cases "MAX_DECRYPTED_FRAGMENTS \<le> length (liveBuffers s)")
  case True
  then have ne: "liveBuffers s \<noteq> []"
    by (auto simp add: MAX_DECRYPTED_FRAGMENTS_def)
  have d: "Suc (length (Map_delete (fst (hd (liveBuffers s))) (liveBuffers s)))
      \<le> length (liveBuffers s)"
    using ne by (rule Map_delete_hd)
  from assms True d show ?thesis
    by (simp add: cap_inv_def loadPage_begin_def Let_def releasePage_live
        releasePage_suspended Map_has_hd [OF ne] Map_delete_distinct)
next
  case False
  with assms show ?thesis
    by (simp add: cap_inv_def loadPage_begin_def Let_def MAX_DECRYPTED_FRAGMENTS_def)
qed

text \<open>
  When no \<^verbatim>\<open>loadPage\<close> is called while another is suspended, the registry never holds more
  than \<^verbatim>\<open>MAX_DECRYPTED_FRAGMENTS\<close> buffers.
\<close>

lemma one_at_a_time_cap:
  assumes "cap_inv s" and "one_at_a_time P es s" and "hook_run P es s = Some s'"
  shows "cap_inv s' \<and> length (liveBuffers s') \<le> MAX_DECRYPTED_FRAGMENTS"
  using assms
proof (induction es arbitrary: s)
  case Nil
  then show ?case
    by (simp add: cap_inv_def)
next
  case (Cons e es)
  from Cons.prems(2) obtain s1 where s1: "hook_step P e s = Some s1" and rest: "one_at_a_time P es s1"
    by (auto split: option.splits)
  from Cons.prems(3) s1 have r: "hook_run P es s1 = Some s'"
    by simp
  have "cap_inv s1"
  proof (cases e)
    case (LoadPage p)
    with Cons.prems(2) have "suspended s = []"
      by simp
    with Cons.prems(1) s1 LoadPage show ?thesis
      by (auto simp add: loadPage_begin_inv)
  next
    case (Resume p r)
    with s1 Cons.prems(1) show ?thesis
      by (auto simp add: loadPage_resume_inv split: if_splits)
  next
    case (ReleasePage p)
    with s1 Cons.prems(1) show ?thesis
      by (auto simp add: releasePage_inv)
  next
    case Background
    with s1 Cons.prems(1) show ?thesis
      by (auto simp add: wipeAll_inv)
  qed
  from Cons.IH [OF this rest r] show ?case .
qed

text \<open>
  The eviction in \<^verbatim>\<open>loadPage\<close>: when the call passes its guards and the registry is full, the
  oldest entry leaves the registry and its buffer holds only zeros.
\<close>

lemma eviction_wipes_oldest:
  assumes "keyBundleRef s \<noteq> None" and "metadata s \<noteq> None"
    and "\<not> Map_has (liveBuffers s) p"
    and "liveBuffers s = (k, buf) # rest"
    and "MAX_DECRYPTED_FRAGMENTS \<le> length (liveBuffers s)"
  shows "liveBuffers (loadPage_begin P p s) = Map_delete k rest"
    and "heap (loadPage_begin P p s) buf = replicate (length (heap s buf)) 0"
  using assms
  by (auto simp add: loadPage_begin_def releasePage_def Let_def Map_delete_def wiped_zero)

lemma hook0_inv: "cap_inv hook0"
  by (simp add: cap_inv_def hook0_def)

lemma awaited_run:
  "\<exists>s. hook_run toy_env awaited hook0 = Some s \<and> one_at_a_time toy_env awaited hook0 \<and>
     live_contents s = [(1, [20, 21]), (2, [30, 31])] \<and> heap s 0 = [0, 0]"
  by (simp add: awaited_def hook0_def loadPage_begin_def loadPage_resume_def Map_has_def
      MAX_DECRYPTED_FRAGMENTS_def live_contents_def Let_def releasePage_def Map_delete_def
      wiped_zero)

text \<open>
  C3. The claim: at every instant the registry holds at most 2 buffers, also while any
  number of \<^verbatim>\<open>loadPage\<close> calls for distinct pages are in flight. The code checks the
  registry's size before its first \<^verbatim>\<open>await\<close> and inserts after its last one: three calls for
  pages 0, 1 and 2 made back to back on an empty registry all pass the check, none evicts,
  and when they have resumed the registry holds three buffers, none of them wiped.
\<close>

theorem C3_back_to_back_loads_hold_three:
  "\<exists>s. hook_run toy_env back_to_back hook0 = Some s \<and>
     length (liveBuffers s) = 3 \<and>
     MAX_DECRYPTED_FRAGMENTS < length (liveBuffers s) \<and>
     distinct (map fst (liveBuffers s)) \<and>
     live_contents s = [(0, [10, 11]), (1, [20, 21]), (2, [30, 31])]"
  by (simp add: back_to_back_def hook0_def loadPage_begin_def loadPage_resume_def Map_has_def
      MAX_DECRYPTED_FRAGMENTS_def live_contents_def Let_def)

section \<open>Theorems: FridaDetector\<close>

lemma detect_throttled:
  "now - lastCheck st < THROTTLE_MS \<Longrightarrow> detect now env st = ((False, []), st)"
  by (simp add: detect_def)

lemma detect_evaluating:
  "\<not> now - lastCheck st < THROTTLE_MS \<Longrightarrow> snd (detect now env st) = st\<lparr>lastCheck := now\<rparr>"
  by (simp add: detect_def)

text \<open>
  C9, as stated, fails: calls at 100000 ms (evaluated), 107000 ms (throttled, which leaves
  \<open>lastCheck\<close> at 100000) and 109000 ms. The last two start 2000 ms apart, yet the last one
  runs the vectors and reports the hooked global.
\<close>

theorem C9_counterexample:
  "109000 - 107000 < THROTTLE_MS \<and>
   fst (detect 107000 clean_env (snd (detect 100000 clean_env frida_init))) = (False, []) \<and>
   fst (detect 109000 hooked_env
          (snd (detect 107000 clean_env (snd (detect 100000 clean_env frida_init)))))
     = (True, [CheckGlobals])"
  by (simp add: detect_def frida_init_def THROTTLE_MS_def run_vectors_def checkGlobals_def
      hooked_env_def clean_env_def FRIDA_GLOBALS_def)

text \<open>
  C9, amended: when a call that was not itself throttled starts at \<open>t1\<close> and the next call
  starts at \<open>t2\<close> less than 8000 ms later, the second call returns false, evaluates no
  detection vector and leaves the state alone, whatever the environment shows.
\<close>

theorem C9_throttle_after_evaluated_call:
  assumes "\<not> t1 - lastCheck st < THROTTLE_MS"
    and "t2 - t1 < THROTTLE_MS"
  shows "detect t2 env2 (snd (detect t1 env1 st)) = ((False, []), snd (detect t1 env1 st))"
proof -
  have "lastCheck (snd (detect t1 env1 st)) = t1"
    using assms(1) by (simp add: detect_evaluating)
  with assms(2) show ?thesis
    by (simp add: detect_throttled)
qed

theorem C9_throttle_after_evaluated_call_witness:
  "\<not> 100000 - lastCheck frida_init < THROTTLE_MS \<and> 107999 - 100000 < THROTTLE_MS \<and>
   detect 107999 hooked_env (snd (detect 100000 clean_env frida_init))
     = ((False, []), \<lparr>lastCheck = 100000\<rparr>)"
proof -
  have a: "\<not> 100000 - lastCheck frida_init < THROTTLE_MS"
    by (simp add: frida_init_def THROTTLE_MS_def)
  have b: "107999 - 100000 < THROTTLE_MS"
    by (simp add: THROTTLE_MS_def)
  have c: "snd (detect 100000 clean_env frida_init) = \<lparr>lastCheck = 100000\<rparr>"
    using a by (simp add: detect_def frida_init_def)
  show ?thesis
    using a b C9_throttle_after_evaluated_call [OF a b, of hooked_env clean_env] c by simp
qed

end
